(* ===== verification/Dvm_Prelude.thy ===== *)
theory Dvm_Prelude
  imports Main "HOL-Library.AList" "HOL-Library.Sublist"
begin

text \<open>
  Shared vocabulary of the development: Go errors as values, the result type of a
  fallible call, the state-passing type of a call that also reads or writes the host,
  Go's \<open>defer\<close>, 64-bit wrap-around of Go's \<open>int\<close>, and the collections of
  simplification rules the component theories add to.

  A Go error made by \<open>fmt.Errorf\<close> is kept as its format string and its arguments
  (\<open>Errorf\<close>); an error wrapped with \<open>%w\<close> keeps the wrapped one (\<open>Wrapf\<close>).
\<close>

section \<open>Collections\<close>

named_theorems io_simps \<open>unfolding rules for state-passing programs\<close>
named_theorems keep_intros \<open>introduction rules: a program keeps a predicate on the host\<close>

section \<open>Errors and results\<close>

datatype errno =
  ENOENT | EEXIST | EISDIR | ENOTDIR | ENOTEMPTY | EINVAL | ESRCH | EIO | EACCES | ECANCELED | EOF

datatype error =
  Sys errno
| Errorf string "string list"
| Wrapf string "string list" error

type_synonym 'a result = "error + 'a"

definition bind_res :: "'e + 'a \<Rightarrow> ('a \<Rightarrow> 'e + 'b) \<Rightarrow> 'e + 'b" where
  "bind_res r f = (case r of Inl e \<Rightarrow> Inl e | Inr x \<Rightarrow> f x)"

definition wrap_err :: "string \<Rightarrow> string list \<Rightarrow> 'a result \<Rightarrow> 'a result" where
  "wrap_err fmt args r = (case r of Inl e \<Rightarrow> Inl (Wrapf fmt args e) | Inr x \<Rightarrow> Inr x)"

lemma bind_res_simps [simp]:
  "bind_res (Inl e) f = Inl e"
  "bind_res (Inr x) f = f x"
  by (simp_all add: bind_res_def)

lemma bind_res_eq_Inr:
  "bind_res r f = Inr y \<longleftrightarrow> (\<exists>x. r = Inr x \<and> f x = Inr y)"
  by (cases r) simp_all

lemma wrap_err_simps [simp]:
  "wrap_err fmt args (Inl e) = Inl (Wrapf fmt args e)"
  "wrap_err fmt args (Inr x) = Inr x"
  "wrap_err fmt args r = Inr x \<longleftrightarrow> r = Inr x"
  by (simp_all add: wrap_err_def split: sum.split)

section \<open>Programs over a state\<close>

text \<open>
  A call that may fail and may change the host: it takes the state and returns the
  result and the new state. \<open>bind_io\<close> is the sequence \<open>x, err := m(); if err != nil {
  return err }; f x\<close>; the error return keeps the state the failing call left.
\<close>

type_synonym ('s, 'a) prog = "'s \<Rightarrow> 'a result \<times> 's"

definition return_io :: "'a \<Rightarrow> ('s, 'a) prog" where
  "return_io x = (\<lambda>s. (Inr x, s))"

definition fail_io :: "error \<Rightarrow> ('s, 'a) prog" where
  "fail_io e = (\<lambda>s. (Inl e, s))"

definition lift_res :: "'a result \<Rightarrow> ('s, 'a) prog" where
  "lift_res r = (\<lambda>s. (r, s))"

definition bind_io :: "('s, 'a) prog \<Rightarrow> ('a \<Rightarrow> ('s, 'b) prog) \<Rightarrow> ('s, 'b) prog" where
  "bind_io m f = (\<lambda>s. case m s of (Inl e, s') \<Rightarrow> (Inl e, s') | (Inr x, s') \<Rightarrow> f x s')"

text \<open>\<open>catch_io m f\<close> inspects the result of \<open>m\<close>, error or not, as Go code that looks
  at \<open>err\<close> without returning it does.\<close>

definition catch_io :: "('s, 'a) prog \<Rightarrow> ('a result \<Rightarrow> ('s, 'b) prog) \<Rightarrow> ('s, 'b) prog" where
  "catch_io m f = (\<lambda>s. case m s of (r, s') \<Rightarrow> f r s')"

definition wrap_io :: "string \<Rightarrow> string list \<Rightarrow> ('s, 'a) prog \<Rightarrow> ('s, 'a) prog" where
  "wrap_io fmt args m = (\<lambda>s. case m s of (r, s') \<Rightarrow> (wrap_err fmt args r, s'))"

text \<open>\<open>defer_io c m\<close> is \<open>defer c()\<close> followed by the body \<open>m\<close>: the clean-up runs on
  every return of the body and its own error is dropped.\<close>

definition defer_io :: "('s, 'u) prog \<Rightarrow> ('s, 'a) prog \<Rightarrow> ('s, 'a) prog" where
  "defer_io c m = (\<lambda>s. case m s of (r, s') \<Rightarrow> (r, snd (c s')))"

lemmas prog_defs = return_io_def fail_io_def lift_res_def bind_io_def catch_io_def
  wrap_io_def defer_io_def

lemma prog_apply [simp, io_simps]:
  "return_io x s = (Inr x, s)"
  "fail_io e s = (Inl e, s)"
  "lift_res r s = (r, s)"
  by (simp_all add: prog_defs)

lemma bind_io_apply [io_simps]:
  "bind_io m f s = (case m s of (Inl e, s') \<Rightarrow> (Inl e, s') | (Inr x, s') \<Rightarrow> f x s')"
  by (simp add: bind_io_def)

lemma catch_io_apply [io_simps]:
  "catch_io m f s = (case m s of (r, s') \<Rightarrow> f r s')"
  by (simp add: catch_io_def)

lemma wrap_io_apply [io_simps]:
  "wrap_io fmt args m s = (case m s of (r, s') \<Rightarrow> (wrap_err fmt args r, s'))"
  by (simp add: wrap_io_def)

lemma defer_io_apply [io_simps]:
  "defer_io c m s = (case m s of (r, s') \<Rightarrow> (r, snd (c s')))"
  by (simp add: defer_io_def)

lemma bind_io_ok:
  "bind_io m f s = (Inr y, s'') \<longleftrightarrow>
   (\<exists>x s'. m s = (Inr x, s') \<and> f x s' = (Inr y, s''))"
  by (auto simp: bind_io_def split: prod.splits sum.splits)

lemma bind_io_err:
  "bind_io m f s = (Inl e, s'') \<longleftrightarrow>
   m s = (Inl e, s'') \<or> (\<exists>x s'. m s = (Inr x, s') \<and> f x s' = (Inl e, s''))"
  by (auto simp: bind_io_def split: prod.splits sum.splits)

lemma wrap_io_ok: "wrap_io fmt args m s = (Inr y, s') \<longleftrightarrow> m s = (Inr y, s')"
  by (auto simp: wrap_io_def split: prod.splits)

lemma catch_io_eq: "catch_io m f s = (\<lambda>(r, s'). f r s') (m s)"
  by (simp add: catch_io_def split: prod.split)

subsection \<open>Predicates every run keeps\<close>

definition keeps :: "('s \<Rightarrow> bool) \<Rightarrow> ('s, 'a) prog \<Rightarrow> bool" where
  "keeps P m \<longleftrightarrow> (\<forall>s. P s \<longrightarrow> P (snd (m s)))"

lemma keepsI: "(\<And>s. P s \<Longrightarrow> P (snd (m s))) \<Longrightarrow> keeps P m"
  by (simp add: keeps_def)

lemma keepsD: "keeps P m \<Longrightarrow> P s \<Longrightarrow> P (snd (m s))"
  by (simp add: keeps_def)

lemma keeps_run: "keeps P m \<Longrightarrow> m s = (r, s') \<Longrightarrow> P s \<Longrightarrow> P s'"
  by (metis keepsD snd_conv)

lemma keeps_basic [keep_intros]:
  "keeps P (return_io x)" "keeps P (fail_io e)" "keeps P (lift_res r)"
  by (simp_all add: keeps_def)

lemma keeps_bind [keep_intros]:
  assumes "keeps P m" "\<And>x. keeps P (f x)"
  shows "keeps P (bind_io m f)"
  using assms by (auto simp: keeps_def bind_io_def split: prod.split sum.split)

lemma keeps_catch [keep_intros]:
  assumes "keeps P m" "\<And>r. keeps P (f r)"
  shows "keeps P (catch_io m f)"
  using assms by (auto simp: keeps_def catch_io_def split: prod.split)

lemma keeps_wrap [keep_intros]: "keeps P m \<Longrightarrow> keeps P (wrap_io fmt args m)"
  by (auto simp: keeps_def wrap_io_def split: prod.split)

lemma keeps_defer [keep_intros]: "keeps P c \<Longrightarrow> keeps P m \<Longrightarrow> keeps P (defer_io c m)"
  by (auto simp: keeps_def defer_io_def split: prod.split)

lemma keeps_if [keep_intros]: "keeps P a \<Longrightarrow> keeps P b \<Longrightarrow> keeps P (if c then a else b)"
  by simp

lemma keeps_case_sum [keep_intros]:
  "(\<And>e. keeps P (a e)) \<Longrightarrow> (\<And>x. keeps P (b x)) \<Longrightarrow>
   keeps P (case r of Inl e \<Rightarrow> a e | Inr x \<Rightarrow> b x)"
  by (cases r) simp_all

lemma keeps_case_option [keep_intros]:
  "keeps P a \<Longrightarrow> (\<And>x. keeps P (b x)) \<Longrightarrow> keeps P (case r of None \<Rightarrow> a | Some x \<Rightarrow> b x)"
  by (cases r) simp_all

lemma keeps_case_prod [keep_intros]:
  "(\<And>x y. keeps P (a x y)) \<Longrightarrow> keeps P (case p of (x, y) \<Rightarrow> a x y)"
  by (cases p) simp

text \<open>A program that looks at its own state first, and a bind whose continuation is known to
  get only certain values.\<close>

lemma keeps_at: "(\<And>w. keeps P (m w)) \<Longrightarrow> keeps P (\<lambda>w. m w w)"
  by (simp add: keeps_def)

lemma keeps_bind_ok:
  assumes "keeps P m" "\<And>x s s'. m s = (Inr x, s') \<Longrightarrow> keeps P (f x)"
  shows "keeps P (bind_io m f)"
proof (rule keepsI)
  fix s assume "P s"
  obtain r s1 where m: "m s = (r, s1)" by (cases "m s")
  have "P s1" by (rule keeps_run [OF assms(1) m \<open>P s\<close>])
  with m assms(2) show "P (snd (bind_io m f s))"
    by (cases r) (auto simp: bind_io_def dest: keepsD)
qed

section \<open>Go's 64-bit int\<close>

text \<open>Go's \<open>int\<close> on the supported targets is 64 bits wide and wraps; values are kept
  as \<open>int\<close> and \<open>wrap64\<close> is applied where the code's arithmetic can leave the range.\<close>

definition wrap64 :: "int \<Rightarrow> int" where
  "wrap64 i = (i + 2 ^ 63) mod 2 ^ 64 - 2 ^ 63"

definition in_int64 :: "int \<Rightarrow> bool" where
  "in_int64 i \<longleftrightarrow> - (2 ^ 63) \<le> i \<and> i < 2 ^ 63"

lemma wrap64_id: "in_int64 i \<Longrightarrow> wrap64 i = i"
  by (simp add: wrap64_def in_int64_def)

lemma wrap64_range: "in_int64 (wrap64 i)"
  by (simp add: wrap64_def in_int64_def)

section \<open>Lists\<close>

lemma takeWhile_notin [simp]: "c \<notin> set xs \<Longrightarrow> takeWhile (\<lambda>x. x \<noteq> c) xs = xs"
  by (induction xs) auto

lemma takeWhile_upto: "c \<notin> set xs \<Longrightarrow> takeWhile (\<lambda>x. x \<noteq> c) (xs @ c # ys) = xs"
  by (induction xs) auto

lemma dropWhile_upto: "c \<notin> set xs \<Longrightarrow> dropWhile (\<lambda>x. x \<noteq> c) (xs @ c # ys) = c # ys"
  by (induction xs) auto

lemma find_Some_split:
  "List.find P xs = Some x \<longleftrightarrow> (\<exists>us vs. xs = us @ x # vs \<and> P x \<and> (\<forall>u \<in> set us. \<not> P u))"
proof (induction xs)
  case Nil
  then show ?case by simp
next
  case (Cons a xs)
  show ?case
  proof (cases "P a")
    case True
    then show ?thesis
      by (auto simp: Cons_eq_append_conv)
  next
    case False
    with Cons show ?thesis
      by (auto simp: Cons_eq_append_conv) (metis set_ConsD)
  qed
qed

end
