(* ===== verification/Go_Strings.thy ===== *)
theory Go_Strings
  imports Dvm_Prelude "HOL-Library.Word"
begin

text \<open>
  What the program uses of Go's \<open>strings\<close>, \<open>strconv\<close> and \<open>encoding/hex\<close>. A Go
  string is a byte string, HOL's \<open>string\<close> a list of 8-bit characters; case mapping and
  white space are those of ASCII text (Go also maps and trims some non-ASCII runes).
\<close>

section \<open>Package strings\<close>

abbreviation HasPrefix :: "string \<Rightarrow> string \<Rightarrow> bool" where
  "HasPrefix s p \<equiv> prefix p s"

abbreviation HasSuffix :: "string \<Rightarrow> string \<Rightarrow> bool" where
  "HasSuffix s p \<equiv> suffix p s"

abbreviation Contains :: "string \<Rightarrow> string \<Rightarrow> bool" where
  "Contains s t \<equiv> sublist t s"

definition TrimPrefix :: "string \<Rightarrow> string \<Rightarrow> string" where
  "TrimPrefix s p = (if prefix p s then drop (length p) s else s)"

text \<open>\<open>strings.Cut\<close> with a one-byte separator: before, after, found.\<close>

definition Cut :: "char \<Rightarrow> string \<Rightarrow> string \<times> string \<times> bool" where
  "Cut c s = (if c \<in> set s
     then (takeWhile (\<lambda>x. x \<noteq> c) s, tl (dropWhile (\<lambda>x. x \<noteq> c) s), True)
     else (s, [], False))"

fun IndexByte :: "string \<Rightarrow> char \<Rightarrow> int" where
  "IndexByte [] c = - 1"
| "IndexByte (x # xs) c =
     (if x = c then 0 else (let i = IndexByte xs c in if i < 0 then - 1 else i + 1))"

definition LastIndex :: "string \<Rightarrow> char \<Rightarrow> int" where
  "LastIndex s c = (if c \<in> set s then int (length s) - 1 - IndexByte (rev s) c else - 1)"

fun split_by :: "(char \<Rightarrow> bool) \<Rightarrow> string \<Rightarrow> string list" where
  "split_by P [] = [[]]"
| "split_by P (x # xs) =
     (if P x then [] # split_by P xs
      else (case split_by P xs of [] \<Rightarrow> [[x]] | y # ys \<Rightarrow> (x # y) # ys))"

definition Split :: "string \<Rightarrow> char \<Rightarrow> string list" where
  "Split s c = split_by (\<lambda>x. x = c) s"

fun Join :: "string list \<Rightarrow> string \<Rightarrow> string" where
  "Join [] sep = []"
| "Join [x] sep = x"
| "Join (x # y # zs) sep = x @ sep @ Join (y # zs) sep"

definition is_space :: "char \<Rightarrow> bool" where
  "is_space c \<longleftrightarrow> c \<in> {CHR 0x09, CHR 0x0A, CHR 0x0B, CHR 0x0C, CHR 0x0D, CHR 0x20}"

definition Fields :: "string \<Rightarrow> string list" where
  "Fields s = filter (\<lambda>f. f \<noteq> []) (split_by is_space s)"

definition trim_by :: "(char \<Rightarrow> bool) \<Rightarrow> string \<Rightarrow> string" where
  "trim_by P s = rev (dropWhile P (rev (dropWhile P s)))"

definition TrimSpace :: "string \<Rightarrow> string" where
  "TrimSpace s = trim_by is_space s"

definition lower_char :: "char \<Rightarrow> char" where
  "lower_char c = (let n = of_char c :: nat in
     if 65 \<le> n \<and> n \<le> 90 then char_of (n + 32) else c)"

definition ToLower :: "string \<Rightarrow> string" where
  "ToLower s = map lower_char s"

definition EqualFold :: "string \<Rightarrow> string \<Rightarrow> bool" where
  "EqualFold s t \<longleftrightarrow> ToLower s = ToLower t"

section \<open>Package strconv\<close>

definition digit_val :: "char \<Rightarrow> nat option" where
  "digit_val c = (let n = of_char c :: nat in
     if 48 \<le> n \<and> n \<le> 57 then Some (n - 48) else None)"

fun dec_val :: "nat \<Rightarrow> string \<Rightarrow> nat option" where
  "dec_val acc [] = Some acc"
| "dec_val acc (c # cs) =
     (case digit_val c of None \<Rightarrow> None | Some d \<Rightarrow> dec_val (10 * acc + d) cs)"

text \<open>\<open>strconv.Atoi\<close>: an optional sign, then at least one digit, in the 64-bit range.\<close>

definition Atoi :: "string \<Rightarrow> int option" where
  "Atoi s =
     (let neg = HasPrefix s ''-'';
          ds = (if HasPrefix s ''-'' \<or> HasPrefix s ''+'' then tl s else s)
      in if ds = [] then None
         else (case dec_val 0 ds of
                 None \<Rightarrow> None
               | Some n \<Rightarrow>
                   (let v = (if neg then - int n else int n)
                    in if in_int64 v then Some v else None)))"

function nat_str :: "nat \<Rightarrow> string" where
  "nat_str n = (if n < 10 then [char_of (48 + n)]
                else nat_str (n div 10) @ [char_of (48 + n mod 10)])"
  by pat_completeness auto
termination
  by (relation "measure id") auto

declare nat_str.simps [simp del]

definition Itoa :: "int \<Rightarrow> string" where
  "Itoa i = (if i < 0 then ''-'' @ nat_str (nat (- i)) else nat_str (nat i))"

definition hex_val :: "char \<Rightarrow> nat option" where
  "hex_val c = (let n = of_char c :: nat in
     if 48 \<le> n \<and> n \<le> 57 then Some (n - 48)
     else if 97 \<le> n \<and> n \<le> 102 then Some (n - 87)
     else if 65 \<le> n \<and> n \<le> 70 then Some (n - 55) else None)"

fun hex_num :: "nat \<Rightarrow> string \<Rightarrow> nat option" where
  "hex_num acc [] = Some acc"
| "hex_num acc (c # cs) =
     (case hex_val c of None \<Rightarrow> None | Some d \<Rightarrow> hex_num (16 * acc + d) cs)"

text \<open>\<open>strconv.ParseUint(s, 16, 8)\<close>.\<close>

definition ParseUint16_8 :: "string \<Rightarrow> 8 word option" where
  "ParseUint16_8 s = (if s = [] then None
     else (case hex_num 0 s of
             None \<Rightarrow> None
           | Some n \<Rightarrow> if n \<le> 255 then Some (of_nat n) else None))"

section \<open>Package encoding/hex\<close>

definition hex_char :: "nat \<Rightarrow> char" where
  "hex_char d = (if d < 10 then char_of (48 + d) else char_of (87 + d))"

fun hex_encode :: "string \<Rightarrow> string" where
  "hex_encode [] = []"
| "hex_encode (b # bs) =
     hex_char (of_char b div 16) # hex_char (of_char b mod 16) # hex_encode bs"

fun hex_decode :: "string \<Rightarrow> string option" where
  "hex_decode [] = Some []"
| "hex_decode [c] = None"
| "hex_decode (c # d # cs) =
     (case (hex_val c, hex_val d) of
        (Some x, Some y) \<Rightarrow> map_option (\<lambda>bs. char_of (16 * x + y) # bs) (hex_decode cs)
      | _ \<Rightarrow> None)"

section \<open>Lemmas\<close>

lemma TrimPrefix_append [simp]: "TrimPrefix (p @ s) p = s"
  by (simp add: TrimPrefix_def)

lemma Cut_append:
  "c \<notin> set a \<Longrightarrow> Cut c (a @ c # b) = (a, b, True)"
  by (simp add: Cut_def takeWhile_upto dropWhile_upto)

lemma Cut_found: "Cut c s = (a, b, True) \<longleftrightarrow> s = a @ c # b \<and> c \<notin> set a"
proof
  assume h: "Cut c s = (a, b, True)"
  then have c: "c \<in> set s" by (auto simp: Cut_def split: if_splits)
  then obtain u v where uv: "s = u @ c # v" "c \<notin> set u" by (metis split_list_first)
  with h show "s = a @ c # b \<and> c \<notin> set a" by (simp add: Cut_append)
next
  assume "s = a @ c # b \<and> c \<notin> set a"
  then show "Cut c s = (a, b, True)" by (simp add: Cut_append)
qed

lemma Cut_not_found: "c \<notin> set s \<Longrightarrow> Cut c s = (s, [], False)"
  by (simp add: Cut_def)

lemma IndexByte_first: "c \<notin> set u \<Longrightarrow> IndexByte (u @ c # v) c = int (length u)"
  by (induction u) (auto simp: Let_def)

lemma IndexByte_none: "c \<notin> set u \<Longrightarrow> IndexByte u c = - 1"
  by (induction u) (auto simp: Let_def)

lemma LastIndex_last: "c \<notin> set v \<Longrightarrow> LastIndex (u @ c # v) c = int (length u)"
  by (simp add: LastIndex_def IndexByte_first)

lemma LastIndex_none: "c \<notin> set s \<Longrightarrow> LastIndex s c = - 1"
  by (simp add: LastIndex_def)

lemma LastIndex_neg: "LastIndex s c < 0 \<longleftrightarrow> c \<notin> set s"
proof (cases "c \<in> set s")
  case True
  then obtain u v where "s = u @ c # v" "c \<notin> set v" by (metis split_list_last)
  with True show ?thesis by (simp add: LastIndex_last)
qed (simp add: LastIndex_none)

lemma split_by_nonempty [simp]: "split_by P s \<noteq> []"
  by (induction s) (auto split: list.split)

lemma split_by_cons_not:
  "\<not> P x \<Longrightarrow> split_by P (x # xs) = (x # hd (split_by P xs)) # tl (split_by P xs)"
  by (auto split: list.split)

lemma split_by_none: "(\<forall>x \<in> set s. \<not> P x) \<Longrightarrow> split_by P s = [s]"
  by (induction s) auto

lemma split_by_append:
  "P c \<Longrightarrow> split_by P (a @ c # b) = split_by P a @ split_by P b"
proof (induction a)
  case (Cons x a)
  show ?case
  proof (cases "P x")
    case False
    obtain y ys where "split_by P a = y # ys" by (metis list.exhaust split_by_nonempty)
    with Cons False show ?thesis by simp
  qed (use Cons in simp)
qed simp

lemma split_by_parts: "t \<in> set (split_by P s) \<Longrightarrow> x \<in> set t \<Longrightarrow> \<not> P x"
proof (induction s arbitrary: t x)
  case (Cons a s)
  obtain y ys where e: "split_by P s = y # ys" by (metis list.exhaust split_by_nonempty)
  show ?case
  proof (cases "P a")
    case True
    with Cons show ?thesis by auto
  next
    case False
    with e Cons show ?thesis by (fastforce split: list.splits)
  qed
qed simp

lemma Split_append: "Split (a @ c # b) c = Split a c @ Split b c"
  by (simp add: Split_def split_by_append)

lemma Split_none: "c \<notin> set s \<Longrightarrow> Split s c = [s]"
  unfolding Split_def by (rule split_by_none) auto

lemma Split_nonempty [simp]: "Split s c \<noteq> []"
  by (simp add: Split_def)

lemma Split_parts: "t \<in> set (Split s c) \<Longrightarrow> c \<notin> set t"
  by (auto simp: Split_def dest: split_by_parts)

lemma Join_Cons: "ys \<noteq> [] \<Longrightarrow> Join (x # ys) sep = x @ sep @ Join ys sep"
  by (cases ys) simp_all

lemma Join_append:
  "xs \<noteq> [] \<Longrightarrow> ys \<noteq> [] \<Longrightarrow> Join (xs @ ys) sep = Join xs sep @ sep @ Join ys sep"
proof (induction xs)
  case (Cons x xs)
  then show ?case by (cases xs) (simp_all add: Join_Cons)
qed simp

lemma Split_Join:
  "xs \<noteq> [] \<Longrightarrow> (\<And>x. x \<in> set xs \<Longrightarrow> c \<notin> set x) \<Longrightarrow> Split (Join xs [c]) c = xs"
proof (induction xs)
  case (Cons x xs)
  show ?case
  proof (cases "xs = []")
    case True
    with Cons.prems show ?thesis by (simp add: Split_none)
  next
    case False
    with Cons show ?thesis by (simp add: Join_Cons Split_append Split_none)
  qed
qed simp

lemma Join_Split: "Join (Split s c) [c] = s"
  unfolding Split_def
proof (induction s)
  case (Cons x s)
  obtain y ys where e: "split_by (\<lambda>x. x = c) s = y # ys"
    by (metis list.exhaust split_by_nonempty)
  with Cons show ?case by (cases ys) auto
qed simp

lemma trim_by_clean:
  assumes "s = [] \<or> (\<not> P (hd s) \<and> \<not> P (last s))"
  shows "trim_by P s = s"
proof (cases s)
  case (Cons x xs)
  then have "s \<noteq> []" by simp
  with assms have "dropWhile P s = s" "dropWhile P (rev s) = rev s"
    by (simp_all add: dropWhile_eq_self_iff hd_rev)
  then show ?thesis by (simp add: trim_by_def)
qed (simp add: trim_by_def)

lemma trim_by_snoc: "P c \<Longrightarrow> s \<noteq> [] \<Longrightarrow> \<not> P (hd s) \<Longrightarrow> trim_by P (s @ [c]) = trim_by P s"
  by (cases s) (simp_all add: trim_by_def)

subsection \<open>Decimal round trip\<close>

lemma digit_val_digit [simp]: "d < 10 \<Longrightarrow> digit_val (char_of (48 + d)) = Some d"
  by (simp add: digit_val_def Let_def)

lemma dec_val_append:
  "dec_val acc (xs @ ys) = (case dec_val acc xs of None \<Rightarrow> None | Some n \<Rightarrow> dec_val n ys)"
  by (induction xs arbitrary: acc) (auto split: option.split)

lemma dec_val_nat_str: "dec_val 0 (nat_str n) = Some n"
proof (induction n rule: nat_str.induct)
  case (1 n)
  show ?case
  proof (cases "n < 10")
    case True
    then show ?thesis by (simp add: nat_str.simps [of n])
  next
    case False
    with 1 have "dec_val 0 (nat_str (n div 10)) = Some (n div 10)" by simp
    with False show ?thesis
      by (simp add: nat_str.simps [of n] dec_val_append)
  qed
qed

lemma nat_str_nonempty [simp]: "nat_str n \<noteq> []"
  by (subst nat_str.simps) simp

definition is_digit :: "char \<Rightarrow> bool" where
  "is_digit c \<longleftrightarrow> digit_val c \<noteq> None"

lemma nat_str_digits: "c \<in> set (nat_str n) \<Longrightarrow> is_digit c"
proof (induction n rule: nat_str.induct)
  case (1 n)
  then show ?case
    by (cases "n < 10") (auto simp: nat_str.simps [of n] is_digit_def)
qed

lemma digit_not_special:
  "is_digit c \<Longrightarrow> c \<noteq> CHR ''-'' \<and> c \<noteq> CHR ''+'' \<and> c \<noteq> CHR ''/'' \<and> c \<noteq> CHR '':'' \<and>
   c \<noteq> CHR '','' \<and> \<not> is_space c"
  by (auto simp: is_digit_def digit_val_def is_space_def Let_def split: if_splits)

lemma nat_str_hd: "is_digit (hd (nat_str n))"
  by (rule nat_str_digits [OF hd_in_set]) simp

lemma Atoi_nat_str: "int n < 2 ^ 63 \<Longrightarrow> Atoi (nat_str n) = Some (int n)"
proof -
  assume n: "int n < 2 ^ 63"
  obtain x xs where e: "nat_str n = x # xs" by (metis list.exhaust nat_str_nonempty)
  with nat_str_hd [of n] have "x \<noteq> CHR ''-''" "x \<noteq> CHR ''+''"
    by (auto dest: digit_not_special)
  with e n show ?thesis
    using dec_val_nat_str [of n] by (simp add: Atoi_def in_int64_def Let_def)
qed

lemma Atoi_Itoa: "in_int64 i \<Longrightarrow> Atoi (Itoa i) = Some i"
proof (cases "i < 0")
  case True
  assume "in_int64 i"
  with True show ?thesis
    by (simp add: Itoa_def Atoi_def dec_val_nat_str Let_def)
next
  case False
  assume "in_int64 i"
  with False Atoi_nat_str [of "nat i"] show ?thesis
    by (simp add: Itoa_def in_int64_def)
qed

lemma Atoi_range: "Atoi s = Some i \<Longrightarrow> in_int64 i"
  by (auto simp: Atoi_def Let_def split: if_splits option.splits)

lemma Itoa_nonneg: "0 \<le> i \<Longrightarrow> Itoa i = nat_str (nat i)"
  by (simp add: Itoa_def)

lemma Itoa_nonempty [simp]: "Itoa i \<noteq> []"
  by (simp add: Itoa_def)

lemma Itoa_chars: "c \<in> set (Itoa i) \<Longrightarrow> is_digit c \<or> c = CHR ''-''"
  by (auto simp: Itoa_def split: if_splits dest: nat_str_digits)

lemma Itoa_clean: "c \<in> set (Itoa i) \<Longrightarrow> c \<noteq> CHR '':'' \<and> c \<noteq> CHR ''/'' \<and> c \<noteq> CHR '','' \<and> \<not> is_space c"
  by (auto dest!: Itoa_chars dest: digit_not_special simp: is_space_def)

lemma Itoa_notin [simp]:
  "CHR '':'' \<notin> set (Itoa i)" "CHR ''/'' \<notin> set (Itoa i)" "CHR '','' \<notin> set (Itoa i)"
  using Itoa_clean by blast+

lemma TrimSpace_Itoa [simp]: "TrimSpace (Itoa i) = Itoa i"
  unfolding TrimSpace_def
  by (rule trim_by_clean) (meson Itoa_clean Itoa_nonempty hd_in_set last_in_set)

lemma TrimSpace_Itoa_line: "TrimSpace (Itoa i @ [CHR 0x0A]) = Itoa i"
proof -
  have "\<not> is_space (hd (Itoa i))" by (meson Itoa_clean Itoa_nonempty hd_in_set)
  then have "TrimSpace (Itoa i @ [CHR 0x0A]) = TrimSpace (Itoa i)"
    unfolding TrimSpace_def by (intro trim_by_snoc) (simp_all add: is_space_def)
  then show ?thesis by simp
qed

subsection \<open>Hexadecimal\<close>

lemma hex_val_hex_char [simp]: "d < 16 \<Longrightarrow> hex_val (hex_char d) = Some d"
  by (simp add: hex_val_def hex_char_def Let_def)

lemma hex_decode_encode: "hex_decode (hex_encode bs) = Some bs"
proof (induction bs)
  case (Cons b bs)
  have "of_char b < (256::nat)" by (rule nat_of_char_less_256)
  then have "of_char b div 16 < (16::nat)" by (intro less_mult_imp_div_less) simp
  with Cons show ?case by simp
qed simp

lemma length_hex_encode [simp]: "length (hex_encode bs) = 2 * length bs"
  by (induction bs) simp_all

lemma hex_decode_even: "hex_decode s = Some bs \<Longrightarrow> length s = 2 * length bs"
  by (induction s arbitrary: bs rule: hex_decode.induct) (auto split: option.splits)

lemma hex_decode_chars: "hex_decode s = Some bs \<Longrightarrow> c \<in> set s \<Longrightarrow> hex_val c \<noteq> None"
  by (induction s arbitrary: bs rule: hex_decode.induct) (auto split: option.splits)

lemma hex_val_special:
  "hex_val c \<noteq> None \<Longrightarrow> c \<noteq> CHR ''/'' \<and> c \<noteq> CHR ''.'' \<and> c \<noteq> CHR '':''"
  by (auto simp: hex_val_def Let_def split: if_splits)

lemma lower_char_idem [simp]: "lower_char (lower_char c) = lower_char c"
  by (simp add: lower_char_def Let_def)

lemma ToLower_idem [simp]: "ToLower (ToLower s) = ToLower s"
  by (simp add: ToLower_def)

lemma length_ToLower [simp]: "length (ToLower s) = length s"
  by (simp add: ToLower_def)

end
