(* ===== verification/Go_Path.thy ===== *)
theory Go_Path
  imports Go_Strings
begin

text \<open>
  Go's \<open>path/filepath\<close> on a POSIX host: \<open>Clean\<close>, \<open>Join\<close>, \<open>Dir\<close>, \<open>Base\<close>,
  \<open>IsAbs\<close>, \<open>Abs\<close>, and the resolution of an absolute path to the components the kernel
  walks (no symbolic links). The lemmas say that cleaning does not change what a path
  resolves to, and where the result of \<open>Join\<close> lies.
\<close>

section \<open>Cleaning\<close>

text \<open>The components left after \<open>.\<close>, empty ones and \<open>..\<close> are processed; the stack
  holds the components kept so far, last one first.\<close>

fun clean_comps :: "bool \<Rightarrow> string list \<Rightarrow> string list \<Rightarrow> string list" where
  "clean_comps rooted st [] = rev st"
| "clean_comps rooted st (c # cs) =
     (if c = [] \<or> c = ''.'' then clean_comps rooted st cs
      else if c = ''..'' then
        (case st of
           [] \<Rightarrow> if rooted then clean_comps rooted [] cs else clean_comps rooted [''..''] cs
         | t # ts \<Rightarrow> if t = ''..'' then clean_comps rooted (''..'' # st) cs
                      else clean_comps rooted ts cs)
      else clean_comps rooted (c # st) cs)"

definition IsAbs :: "string \<Rightarrow> bool" where
  "IsAbs p = HasPrefix p ''/''"

definition Clean :: "string \<Rightarrow> string" where
  "Clean p = (let cs = clean_comps (IsAbs p) [] (Split p CHR ''/'')
     in if IsAbs p then ''/'' @ Join cs ''/''
        else if cs = [] then ''.'' else Join cs ''/'')"

definition JoinPath :: "string list \<Rightarrow> string" where
  "JoinPath xs = (case dropWhile (\<lambda>e. e = []) xs of [] \<Rightarrow> [] | ys \<Rightarrow> Clean (Join ys ''/''))"

text \<open>\<open>filepath.Dir\<close> cleans what is before the last slash; \<open>Base\<close> is the last element.\<close>

definition Dir :: "string \<Rightarrow> string" where
  "Dir p = Clean (take (nat (LastIndex p CHR ''/'' + 1)) p)"

definition Base :: "string \<Rightarrow> string" where
  "Base p = (if p = [] then ''.''
     else (case filter (\<lambda>c. c \<noteq> []) (Split p CHR ''/'') of
             [] \<Rightarrow> ''/'' | cs \<Rightarrow> last cs))"

definition AbsPath :: "string \<Rightarrow> string \<Rightarrow> string" where
  "AbsPath cwd p = (if IsAbs p then Clean p else JoinPath [cwd, p])"

section \<open>What a path resolves to\<close>

text \<open>The components of the file an absolute path names.\<close>

definition comps :: "string \<Rightarrow> string list" where
  "comps p = clean_comps True [] (Split p CHR ''/'')"

text \<open>A component that is neither empty, \<open>.\<close> nor \<open>..\<close> and holds no slash.\<close>

definition plain :: "string \<Rightarrow> bool" where
  "plain c \<longleftrightarrow> c \<noteq> [] \<and> c \<noteq> ''.'' \<and> c \<noteq> ''..'' \<and> CHR ''/'' \<notin> set c"

lemma plain_code: "plain c \<longleftrightarrow> c \<notin> {[], ''.'', ''..''} \<and> list_all (\<lambda>x. x \<noteq> CHR ''/'') c"
  by (auto simp: plain_def list_all_iff)

lemma clean_comps_append:
  "clean_comps r st (xs @ ys) = clean_comps r (rev (clean_comps r st xs)) ys"
  by (induction r st xs rule: clean_comps.induct) (auto split: list.split)

lemma clean_comps_plain:
  "list_all plain cs \<Longrightarrow> clean_comps r st cs = rev st @ cs"
  by (induction cs arbitrary: st) (auto simp: plain_def)

lemma clean_comps_rooted_plain:
  "list_all plain st \<Longrightarrow> (\<And>c. c \<in> set cs \<Longrightarrow> CHR ''/'' \<notin> set c) \<Longrightarrow>
   list_all plain (clean_comps True st cs)"
proof (induction "True" st cs rule: clean_comps.induct)
  case (2 st c cs)
  then show ?case
    by (cases st) (auto simp: plain_def)
qed (simp add: list_all_iff)

lemma comps_plain: "list_all plain (comps p)"
  unfolding comps_def by (rule clean_comps_rooted_plain) (auto dest: Split_parts)

text \<open>Without a leading slash the kept components are some \<open>..\<close> and then plain ones.\<close>

definition dots :: "nat \<Rightarrow> string list" where
  "dots n = replicate n ''..''"

lemma clean_comps_unrooted:
  assumes "\<And>c. c \<in> set cs \<Longrightarrow> CHR ''/'' \<notin> set c" "list_all plain ps"
  shows "\<exists>n qs. clean_comps False (rev ps @ dots k) cs = dots n @ qs \<and> list_all plain qs"
  using assms
proof (induction cs arbitrary: ps k)
  case Nil
  then show ?case by (auto simp: dots_def)
next
  case (Cons c cs)
  show ?case
  proof (cases "c = [] \<or> c = ''.''")
    case True
    with Cons.IH [of ps k] Cons.prems show ?thesis by auto
  next
    case not_dot: False
    show ?thesis
    proof (cases "c = ''..''")
      case True
      show ?thesis
      proof (cases ps rule: rev_cases)
        case Nil
        then show ?thesis
          using Cons.IH [of "[]" "Suc k"] Cons.prems True
          by (cases k) (auto simp: dots_def)
      next
        case (snoc qs q)
        with Cons.prems have "plain q" and qs: "list_all plain qs" by auto
        then have "q \<noteq> ''..''" by (simp add: plain_def)
        with snoc True show ?thesis using Cons.IH [of qs k] Cons.prems by auto
      qed
    next
      case False
      with not_dot Cons.prems have "plain c" by (auto simp: plain_def)
      with not_dot False show ?thesis
        using Cons.IH [of "ps @ [c]" k] Cons.prems by auto
    qed
  qed
qed

lemma clean_comps_unrooted0:
  obtains n qs where "clean_comps False [] (Split p CHR ''/'') = dots n @ qs" "list_all plain qs"
  using clean_comps_unrooted [of "Split p CHR ''/''" "[]" 0] Split_parts [of _ p "CHR ''/''"]
  by (auto simp: dots_def)

section \<open>Resolving joined and cleaned paths\<close>

lemma Split_slash [simp]: "Split (CHR ''/'' # p) CHR ''/'' = [] # Split p CHR ''/''"
  using Split_append [of "[]" "CHR ''/''" p] by (simp add: Split_def)

lemma comps_append:
  "comps (p @ CHR ''/'' # q) = clean_comps True (rev (comps p)) (Split q CHR ''/'')"
  by (simp add: comps_def Split_append clean_comps_append)

lemma comps_slash [simp]: "comps (CHR ''/'' # p) = comps p"
  by (simp add: comps_def)

lemma comps_Join:
  "list_all plain cs \<Longrightarrow> comps (Join cs ''/'') = cs"
proof (cases "cs = []")
  case True
  then show ?thesis by (simp add: comps_def Split_def)
next
  case False
  assume p: "list_all plain cs"
  with False have "Split (Join cs ''/'') CHR ''/'' = cs"
    by (intro Split_Join) (auto simp: list_all_iff plain_def)
  with p show ?thesis by (simp add: comps_def clean_comps_plain)
qed

lemma comps_Clean [simp]: "IsAbs p \<Longrightarrow> comps (Clean p) = comps p"
  using comps_plain [of p]
  by (simp add: Clean_def Let_def comps_Join comps_def [of p, symmetric])

lemma IsAbs_Clean [simp]: "IsAbs p \<Longrightarrow> IsAbs (Clean p)"
  by (simp add: Clean_def IsAbs_def Let_def)

lemma IsAbs_nonempty [dest]: "IsAbs p \<Longrightarrow> p \<noteq> []"
  by (auto simp: IsAbs_def)

lemma IsAbs_append [simp]: "IsAbs p \<Longrightarrow> IsAbs (p @ q)"
  by (auto simp: IsAbs_def prefix_def)

lemma JoinPath_abs: "IsAbs d \<Longrightarrow> JoinPath (d # xs) = Clean (Join (d # xs) ''/'')"
  by (auto simp: JoinPath_def)

lemma IsAbs_Join: "IsAbs d \<Longrightarrow> IsAbs (Join (d # xs) ''/'')"
  by (cases xs) simp_all

lemma IsAbs_JoinPath [simp]: "IsAbs d \<Longrightarrow> IsAbs (JoinPath (d # xs))"
  using IsAbs_Join [of d xs] by (simp add: JoinPath_abs)

lemma comps_JoinPath2:
  "IsAbs d \<Longrightarrow> comps (JoinPath [d, q]) = clean_comps True (rev (comps d)) (Split q CHR ''/'')"
  by (simp add: JoinPath_abs comps_append)

lemma comps_JoinPath3:
  assumes "IsAbs d"
  shows "comps (JoinPath [d, p, q]) =
    clean_comps True (rev (clean_comps True (rev (comps d)) (Split p CHR ''/''))) (Split q CHR ''/'')"
proof -
  have "comps (JoinPath [d, p, q]) = comps ((d @ CHR ''/'' # p) @ CHR ''/'' # q)"
    using assms by (simp add: JoinPath_abs)
  then show ?thesis by (simp only: comps_append)
qed

lemma plain_Split [simp]: "plain x \<Longrightarrow> Split x CHR ''/'' = [x]"
  by (simp add: plain_def Split_none)

text \<open>Joining plain names extends the directory's components by exactly these names.\<close>

lemma comps_JoinPath_plain [simp]:
  assumes "IsAbs d" "list_all plain xs"
  shows "comps (JoinPath (d # xs)) = comps d @ xs"
proof (cases "xs = []")
  case True
  with assms show ?thesis by (simp add: JoinPath_abs)
next
  case False
  with assms have "Join (d # xs) ''/'' = d @ CHR ''/'' # Join xs ''/''"
    by (simp add: Join_Cons)
  moreover have "Split (Join xs ''/'') CHR ''/'' = xs"
    using assms False by (intro Split_Join) (auto simp: list_all_iff plain_def)
  moreover have "clean_comps True (rev (comps d)) xs = comps d @ xs"
    using assms by (simp add: clean_comps_plain)
  ultimately show ?thesis
    using assms IsAbs_Join [of d xs] by (simp add: JoinPath_abs comps_append)
qed

text \<open>A path is under a directory when the directory's components are a prefix of its own.\<close>

definition under :: "string \<Rightarrow> string \<Rightarrow> bool" where
  "under d p \<longleftrightarrow> prefix (comps d) (comps p)"

text \<open>
  The test \<open>extractTarGz\<close> makes: a cleaned name that is not \<open>..\<close> and does not start
  with \<open>../\<close> stays under any absolute directory it is joined to.
\<close>

lemma Join_dots_prefix:
  assumes "0 < n"
  shows "Join (dots n @ qs) ''/'' = ''..'' \<or> prefix ''../'' (Join (dots n @ qs) ''/'')"
proof -
  from assms obtain m where n: "n = Suc m" by (cases n) auto
  show ?thesis
  proof (cases "dots m @ qs = []")
    case True
    then show ?thesis by (simp add: n dots_def)
  next
    case False
    then show ?thesis using Join_Cons [of "dots m @ qs" "''..''" "''/''"]
      by (simp add: n dots_def)
  qed
qed

lemma Clean_safe_comps:
  assumes "Clean name \<noteq> ''..''" "\<not> prefix ''../'' (Clean name)"
  shows "Clean name = ''.'' \<or>
    (\<exists>cs. list_all plain cs \<and> (Clean name = Join cs ''/'' \<and> cs \<noteq> [] \<or> Clean name = ''/'' @ Join cs ''/''))"
proof (cases "IsAbs name")
  case True
  then show ?thesis
    using comps_plain [of name] by (auto simp: Clean_def Let_def comps_def)
next
  case False
  obtain n qs where e: "clean_comps False [] (Split name CHR ''/'') = dots n @ qs"
    and p: "list_all plain qs" by (rule clean_comps_unrooted0)
  from e False have c: "Clean name = (if dots n @ qs = [] then ''.'' else Join (dots n @ qs) ''/'')"
    by (simp add: Clean_def)
  have "n = 0"
  proof (rule ccontr)
    assume "n \<noteq> 0"
    then have "dots n @ qs \<noteq> []" by (simp add: dots_def)
    with c assms Join_dots_prefix [of n qs] \<open>n \<noteq> 0\<close> show False by auto
  qed
  with c p show ?thesis by (auto simp: dots_def)
qed

lemma Clean_safe_join:
  assumes "IsAbs d" "Clean name \<noteq> ''..''" "\<not> prefix ''../'' (Clean name)" "Clean name \<noteq> ''.''"
  shows "\<exists>cs. list_all plain cs \<and> comps (JoinPath [d, Clean name]) = comps d @ cs"
proof -
  from Clean_safe_comps [OF assms(2,3)] assms(4) obtain cs where cs: "list_all plain cs"
    and j: "Clean name = Join cs ''/'' \<and> cs \<noteq> [] \<or> Clean name = ''/'' @ Join cs ''/''" by auto
  have s: "cs \<noteq> [] \<Longrightarrow> Split (Join cs ''/'') CHR ''/'' = cs"
    using cs by (intro Split_Join) (auto simp: list_all_iff plain_def)
  have "clean_comps True (rev (comps d)) (Split (Clean name) CHR ''/'') = comps d @ cs"
  proof (cases "cs = []")
    case True
    with j show ?thesis by (simp add: Split_def)
  next
    case False
    with j s cs show ?thesis by (auto simp: clean_comps_plain)
  qed
  with assms(1) cs show ?thesis by (auto simp: comps_JoinPath2)
qed


section \<open>The directory of a cleaned path\<close>

lemma Clean_abs: "IsAbs p \<Longrightarrow> Clean p = ''/'' @ Join (comps p) ''/''"
  by (simp add: Clean_def comps_def Let_def)

lemma Dir_slash: "CHR ''/'' \<notin> set c \<Longrightarrow> Dir (pre @ CHR ''/'' # c) = Clean (pre @ ''/'')"
  by (simp add: Dir_def LastIndex_last nat_add_distrib)

lemma comps_trailing_slash: "comps (p @ ''/'') = comps p"
  using comps_append [of p "[]"] by (simp add: Split_def)

lemma Dir_Clean:
  assumes "IsAbs p" "comps p = cs @ [c]"
  shows "IsAbs (Dir (Clean p))" "comps (Dir (Clean p)) = cs"
proof -
  define pre where "pre = (if cs = [] then [] else ''/'' @ Join cs ''/'')"
  have pl: "list_all plain cs" "plain c" using comps_plain [of p] assms(2) by auto
  have e: "Clean p = pre @ CHR ''/'' # c"
    using assms by (cases "cs = []") (simp_all add: Clean_abs pre_def Join_append)
  have d: "Dir (Clean p) = Clean (pre @ ''/'')"
    using pl unfolding e by (intro Dir_slash) (simp add: plain_def)
  have a: "IsAbs (pre @ ''/'')" by (simp add: IsAbs_def pre_def)
  then show "IsAbs (Dir (Clean p))" by (simp add: d)
  have "comps (pre @ ''/'') = comps pre" by (rule comps_trailing_slash)
  also have "\<dots> = cs"
    using pl by (cases "cs = []") (simp_all add: pre_def comps_Join, simp add: comps_def Split_def)
  finally show "comps (Dir (Clean p)) = cs" using a by (simp add: d)
qed

lemma JoinPath_Clean: "IsAbs d \<Longrightarrow> \<exists>p. IsAbs p \<and> JoinPath (d # xs) = Clean p"
  using IsAbs_Join [of d xs] by (auto simp: JoinPath_abs)

text \<open>The directory of a path joined from plain names drops the last one.\<close>

lemma Dir_JoinPath:
  assumes "IsAbs d" "list_all plain (xs @ [x])"
  shows "IsAbs (Dir (JoinPath (d # xs @ [x])))" "comps (Dir (JoinPath (d # xs @ [x]))) = comps d @ xs"
proof -
  obtain p where p: "IsAbs p" "JoinPath (d # xs @ [x]) = Clean p"
    using JoinPath_Clean [OF assms(1)] by blast
  have "comps (Clean p) = comps d @ xs @ [x]"
    using comps_JoinPath_plain [OF assms] p by simp
  then have "comps p = (comps d @ xs) @ [x]" using p(1) by simp
  from Dir_Clean [OF p(1) this] p(2)
  show "IsAbs (Dir (JoinPath (d # xs @ [x])))" "comps (Dir (JoinPath (d # xs @ [x]))) = comps d @ xs"
    by simp_all
qed

lemma plain_hex: "hex_decode h = Some bs \<Longrightarrow> h \<noteq> [] \<Longrightarrow> plain h"
  using hex_val_special hex_decode_chars [of h bs]
  by (fastforce simp: plain_def)

lemma plain_prefix_digits:
  assumes "CHR ''/'' \<notin> set pre" "CHR ''/'' \<notin> set suf"
  shows "plain (pre @ nat_str r @ suf)"
proof -
  have d: "is_digit (hd (nat_str r))" "hd (nat_str r) \<in> set (nat_str r)" by (simp_all add: nat_str_hd)
  have "CHR ''/'' \<notin> set (nat_str r)" using nat_str_digits digit_not_special by blast
  moreover have "x \<noteq> ''.'' \<and> x \<noteq> ''..''" if "hd (nat_str r) \<in> set x" for x
    using that d(1) by (auto simp: is_digit_def digit_val_def)
  ultimately show ?thesis using assms d(2) by (auto simp: plain_def)
qed

end
