(* ===== verification/Go_OS.thy ===== *)
theory Go_OS
  imports Go_Path
begin

text \<open>
  The host the program runs on, as far as Go's \<open>os\<close> and \<open>io\<close> show it: a finite tree
  of files and directories keyed by path components, the working directory, the live
  processes, and two tapes that stand for what the program cannot decide: the next I/O
  fault (one entry is drawn by every system call, so a theorem over all tapes is a theorem
  over all patterns of failing calls, partial writes included) and the random names of
  temporary files. There are no symbolic links and no other process writes the tree
  while a call runs (the lock protocol has its own interleaving model).
\<close>

section \<open>State\<close>

datatype node = File string | Directory

datatype fault = Fails errno | FailsAfter nat errno

type_synonym fpath = "string list"
type_synonym fs = "(fpath \<times> node) list"

record os =
  files :: fs
  cwd :: string
  faults :: "fault option list"
  rands :: "nat list"
  procs :: "int list"
  self_pid :: int
  home :: "string option"
  config_home :: "string option"
  goos :: string
  goarch :: string

type_synonym 'a io = "(os, 'a) prog"

text \<open>What a reader (\<open>io.Reader\<close>) yields: its bytes, then end of file or an error.\<close>

type_synonym reader = "string \<times> errno option"

section \<open>The file tree\<close>

definition node_at :: "fs \<Rightarrow> fpath \<Rightarrow> node option" where
  "node_at t q = (if q = [] then Some Directory else map_of t q)"

definition fs_put :: "fpath \<Rightarrow> node \<Rightarrow> fs \<Rightarrow> fs" where
  "fs_put q n t = AList.update q n t"

definition fs_del :: "fpath \<Rightarrow> fs \<Rightarrow> fs" where
  "fs_del q t = filter (\<lambda>(r, _). r \<noteq> q) t"

definition fs_del_tree :: "fpath \<Rightarrow> fs \<Rightarrow> fs" where
  "fs_del_tree q t = filter (\<lambda>(r, _). \<not> prefix q r) t"

definition fs_mkdirs :: "fpath \<Rightarrow> fs \<Rightarrow> fs" where
  "fs_mkdirs q t = fold (\<lambda>a t'. fs_put a Directory t') (prefixes q) t"

definition fs_children :: "fpath \<Rightarrow> fs \<Rightarrow> fpath list" where
  "fs_children q t = filter (\<lambda>r. strict_prefix q r) (map fst t)"

definition fs_move :: "fpath \<Rightarrow> fpath \<Rightarrow> fs \<Rightarrow> fs" where
  "fs_move a b t =
     (let kept = filter (\<lambda>(r, _). \<not> prefix a r) (fs_del_tree b t);
          moved = map (\<lambda>(r, n). (b @ drop (length a) r, n)) (filter (\<lambda>(r, _). prefix a r) t)
      in moved @ kept)"

definition parent_ok :: "fs \<Rightarrow> fpath \<Rightarrow> bool" where
  "parent_ok t q \<longleftrightarrow> q \<noteq> [] \<and> node_at t (butlast q) = Some Directory"

definition resolve :: "os \<Rightarrow> string \<Rightarrow> fpath" where
  "resolve w p = comps (if IsAbs p then p else cwd w @ ''/'' @ p)"

section \<open>System calls\<close>

definition draw :: "os \<Rightarrow> fault option \<times> os" where
  "draw w = (case faults w of [] \<Rightarrow> (None, w) | f # fs \<Rightarrow> (f, w\<lparr>faults := fs\<rparr>))"

fun fault_err :: "fault \<Rightarrow> error" where
  "fault_err (Fails e) = Sys e"
| "fault_err (FailsAfter n e) = Sys e"

text \<open>A call with no partial effect: a drawn fault is its error, else the call acts.\<close>

definition syscall :: "(os \<Rightarrow> 'a result \<times> os) \<Rightarrow> 'a io" where
  "syscall act = (\<lambda>w. case draw w of
     (Some f, w') \<Rightarrow> (Inl (fault_err f), w')
   | (None, w') \<Rightarrow> act w')"

definition os_stat :: "string \<Rightarrow> node io" where
  "os_stat p = syscall (\<lambda>w. (case node_at (files w) (resolve w p) of
     None \<Rightarrow> Inl (Sys ENOENT) | Some n \<Rightarrow> Inr n, w))"

definition os_read :: "string \<Rightarrow> string io" where
  "os_read p = syscall (\<lambda>w. (case node_at (files w) (resolve w p) of
     None \<Rightarrow> Inl (Sys ENOENT)
   | Some Directory \<Rightarrow> Inl (Sys EISDIR)
   | Some (File b) \<Rightarrow> Inr b, w))"

definition os_mkdir_all :: "string \<Rightarrow> unit io" where
  "os_mkdir_all p = syscall (\<lambda>w. let q = resolve w p in
     if list_all (\<lambda>a. node_at (files w) a \<in> {None, Some Directory}) (prefixes q)
     then (Inr (), w\<lparr>files := fs_mkdirs q (files w)\<rparr>)
     else (Inl (Sys ENOTDIR), w))"

text \<open>Opening a file for writing: exclusively (\<open>O_CREATE|O_EXCL\<close>) or truncating.\<close>

definition os_create_excl :: "string \<Rightarrow> unit io" where
  "os_create_excl p = syscall (\<lambda>w. let q = resolve w p in
     if node_at (files w) q \<noteq> None then (Inl (Sys EEXIST), w)
     else if parent_ok (files w) q then (Inr (), w\<lparr>files := fs_put q (File []) (files w)\<rparr>)
     else (Inl (Sys ENOENT), w))"

definition os_create :: "string \<Rightarrow> unit io" where
  "os_create p = syscall (\<lambda>w. let q = resolve w p in
     if node_at (files w) q = Some Directory then (Inl (Sys EISDIR), w)
     else if parent_ok (files w) q then (Inr (), w\<lparr>files := fs_put q (File []) (files w)\<rparr>)
     else (Inl (Sys ENOENT), w))"

text \<open>Writing to an open file: a fault may leave a prefix of the data behind.\<close>

definition fs_append :: "fpath \<Rightarrow> string \<Rightarrow> fs \<Rightarrow> fs" where
  "fs_append q d t = (case node_at t q of Some (File b) \<Rightarrow> fs_put q (File (b @ d)) t | _ \<Rightarrow> t)"

definition os_append :: "string \<Rightarrow> string \<Rightarrow> unit io" where
  "os_append p d = (\<lambda>w. case draw w of
     (None, w') \<Rightarrow> (Inr (), w'\<lparr>files := fs_append (resolve w' p) d (files w')\<rparr>)
   | (Some (Fails e), w') \<Rightarrow> (Inl (Sys e), w')
   | (Some (FailsAfter n e), w') \<Rightarrow>
       (Inl (Sys e), w'\<lparr>files := fs_append (resolve w' p) (take n d) (files w')\<rparr>))"

text \<open>\<open>os.WriteFile\<close>, and \<open>io.Copy\<close> of a reader into an open file.\<close>

definition os_write_file :: "string \<Rightarrow> string \<Rightarrow> unit io" where
  "os_write_file p d = bind_io (os_create p) (\<lambda>_. os_append p d)"

definition io_copy :: "string \<Rightarrow> reader \<Rightarrow> unit io" where
  "io_copy p r = bind_io (os_append p (fst r)) (\<lambda>_.
     case snd r of None \<Rightarrow> return_io () | Some e \<Rightarrow> fail_io (Sys e))"

definition os_close :: "string \<Rightarrow> unit io" where
  "os_close p = syscall (\<lambda>w. (Inr (), w))"

definition os_remove :: "string \<Rightarrow> unit io" where
  "os_remove p = syscall (\<lambda>w. let q = resolve w p in
     if node_at (files w) q = None then (Inl (Sys ENOENT), w)
     else if q = [] then (Inl (Sys EINVAL), w)
     else if fs_children q (files w) \<noteq> [] then (Inl (Sys ENOTEMPTY), w)
     else (Inr (), w\<lparr>files := fs_del q (files w)\<rparr>))"

definition os_remove_all :: "string \<Rightarrow> unit io" where
  "os_remove_all p = syscall (\<lambda>w. (Inr (), w\<lparr>files := fs_del_tree (resolve w p) (files w)\<rparr>))"

definition os_rename :: "string \<Rightarrow> string \<Rightarrow> unit io" where
  "os_rename p q = syscall (\<lambda>w. let a = resolve w p; b = resolve w q; t = files w in
     case node_at t a of
       None \<Rightarrow> (Inl (Sys ENOENT), w)
     | Some n \<Rightarrow>
         if \<not> parent_ok t b \<or> a = [] then (Inl (Sys ENOENT), w)
         else if a = b then (Inr (), w)
         else if prefix a b then (Inl (Sys EINVAL), w)
         else (case (n, node_at t b) of
                 (File _, Some Directory) \<Rightarrow> (Inl (Sys EISDIR), w)
               | (Directory, Some (File _)) \<Rightarrow> (Inl (Sys ENOTDIR), w)
               | (Directory, Some Directory) \<Rightarrow>
                   if fs_children b t \<noteq> [] then (Inl (Sys ENOTEMPTY), w)
                   else (Inr (), w\<lparr>files := fs_move a b t\<rparr>)
               | _ \<Rightarrow> (Inr (), w\<lparr>files := fs_move a b t\<rparr>)))"

text \<open>\<open>os.CreateTemp\<close>: random names are tried until one does not exist.\<close>

fun first_free :: "fs \<Rightarrow> os \<Rightarrow> string \<Rightarrow> string \<Rightarrow> string \<Rightarrow> nat list \<Rightarrow> (string \<times> nat list) option" where
  "first_free t w dir pre suf [] = None"
| "first_free t w dir pre suf (r # rs) =
     (let p = JoinPath [dir, pre @ nat_str r @ suf] in
      if node_at t (resolve w p) = None then Some (p, rs) else first_free t w dir pre suf rs)"

definition os_create_temp :: "string \<Rightarrow> string \<Rightarrow> string \<Rightarrow> string io" where
  "os_create_temp dir pre suf = syscall (\<lambda>w.
     case first_free (files w) w dir pre suf (rands w) of
       None \<Rightarrow> (Inl (Sys EEXIST), w)
     | Some (p, rs) \<Rightarrow>
         if parent_ok (files w) (resolve w p)
         then (Inr p, w\<lparr>files := fs_put (resolve w p) (File []) (files w), rands := rs\<rparr>)
         else (Inl (Sys ENOENT), w))"

text \<open>\<open>syscall.Kill(pid, 0)\<close>: does the process exist.\<close>

definition process_exists :: "os \<Rightarrow> int \<Rightarrow> bool" where
  "process_exists w p \<longleftrightarrow> p \<in> set (procs w)"

text \<open>\<open>os.IsExist\<close> and \<open>os.IsNotExist\<close>.\<close>

definition IsExist :: "error \<Rightarrow> bool" where
  "IsExist e \<longleftrightarrow> e = Sys EEXIST \<or> e = Sys ENOTEMPTY"

definition IsNotExist :: "error \<Rightarrow> bool" where
  "IsNotExist e \<longleftrightarrow> e = Sys ENOENT"

section \<open>Lookups after each change of the tree\<close>

lemma node_at_root [simp]: "node_at t [] = Some Directory"
  by (simp add: node_at_def)

lemma node_at_put [simp]:
  "node_at (fs_put q n t) r = (if r = [] then Some Directory else if r = q then Some n else node_at t r)"
  by (simp add: node_at_def fs_put_def update_conv')

lemma map_of_filter_key: "map_of (filter (\<lambda>(r, _). P r) t) q = (if P q then map_of t q else None)"
  by (induction t) auto

lemma map_of_filter_key2:
  "map_of (filter (\<lambda>x. (case x of (r, _) \<Rightarrow> P r) \<and> (case x of (r, _) \<Rightarrow> Q r)) t) q =
     (if P q \<and> Q q then map_of t q else None)"
  by (induction t) auto

lemma node_at_del [simp]:
  "node_at (fs_del q t) r = (if r = [] then Some Directory else if r = q then None else node_at t r)"
  by (simp add: node_at_def fs_del_def map_of_filter_key)

lemma node_at_del_tree [simp]:
  "node_at (fs_del_tree q t) r =
     (if r = [] then Some Directory else if prefix q r then None else node_at t r)"
  by (simp add: node_at_def fs_del_tree_def map_of_filter_key)

lemma node_at_fold_put:
  "node_at (fold (\<lambda>a t'. fs_put a Directory t') ps t) r =
     (if r \<in> set ps then Some Directory else node_at t r)"
  by (induction ps arbitrary: t) auto

lemma node_at_mkdirs [simp]:
  "node_at (fs_mkdirs q t) r = (if prefix r q then Some Directory else node_at t r)"
  by (simp add: fs_mkdirs_def node_at_fold_put)

lemma node_at_append [simp]:
  "node_at (fs_append q d t) r =
     (case node_at t q of
        Some (File b) \<Rightarrow> if r = q then Some (File (b @ d)) else node_at t r
      | _ \<Rightarrow> node_at t r)"
  by (auto simp: fs_append_def split: option.split node.split)

lemma map_of_moved:
  "map_of (map (\<lambda>(r, n). (b @ drop (length a) r, n)) (filter (\<lambda>(r, _). prefix a r) t)) q =
     (if prefix b q then map_of t (a @ drop (length b) q) else None)"
  by (induction t) (auto simp: prefix_def)

lemma node_at_move:
  assumes "a \<noteq> []" "b \<noteq> []" "\<not> prefix a b"
  shows "node_at (fs_move a b t) q =
     (if prefix b q then node_at t (a @ drop (length b) q)
      else if prefix a q then None else node_at t q)"
proof -
  have "a @ drop (length b) q \<noteq> []" using assms by simp
  then show ?thesis
    using assms
    by (auto simp: node_at_def fs_move_def Let_def map_add_def map_of_moved map_of_filter_key2
        fs_del_tree_def split: option.split)
qed

lemma fs_children_empty:
  "fs_children q t = [] \<longleftrightarrow> (\<forall>r. strict_prefix q r \<longrightarrow> node_at t r = None)"
proof
  assume "fs_children q t = []"
  then show "\<forall>r. strict_prefix q r \<longrightarrow> node_at t r = None"
    by (fastforce simp: fs_children_def node_at_def filter_empty_conv map_of_eq_None_iff)
next
  assume h: "\<forall>r. strict_prefix q r \<longrightarrow> node_at t r = None"
  show "fs_children q t = []"
  proof (rule ccontr)
    assume "fs_children q t \<noteq> []"
    then obtain r where r: "r \<in> fst ` set t" "strict_prefix q r"
      by (auto simp: fs_children_def filter_empty_conv)
    with h have "map_of t r = None" by (auto simp: node_at_def split: if_splits)
    with r show False by (simp add: map_of_eq_None_iff)
  qed
qed

section \<open>Draws and results of the calls\<close>

lemma draw_files:
  assumes "draw w = (f, w')"
  shows "files w' = files w" "cwd w' = cwd w" "procs w' = procs w" "self_pid w' = self_pid w"
    "rands w' = rands w" "goos w' = goos w" "goarch w' = goarch w" "home w' = home w"
    "resolve w' = resolve w"
  using assms by (auto simp: draw_def resolve_def fun_eq_iff split: list.splits)

lemma resolve_update [simp]:
  "resolve (w\<lparr>files := t\<rparr>) = resolve w"
  "resolve (w\<lparr>files := t, rands := rs\<rparr>) = resolve w"
  "resolve (w\<lparr>rands := rs\<rparr>) = resolve w"
  "resolve (w\<lparr>faults := fl\<rparr>) = resolve w"
  by (simp_all add: resolve_def fun_eq_iff)

lemma resolve_abs: "IsAbs p \<Longrightarrow> resolve w p = comps p"
  by (simp add: resolve_def)

text \<open>Which cells of the tree a call may touch: it leaves every other path alone.\<close>

definition frame :: "os \<Rightarrow> fpath set \<Rightarrow> os \<Rightarrow> bool" where
  "frame w S w' \<longleftrightarrow> resolve w' = resolve w \<and> cwd w' = cwd w \<and> procs w' = procs w \<and> self_pid w' = self_pid w \<and>
     goos w' = goos w \<and> goarch w' = goarch w \<and>
     (\<forall>q. q \<notin> S \<longrightarrow> node_at (files w') q = node_at (files w) q)"

lemma frame_refl [simp]: "frame w S w"
  by (simp add: frame_def)

lemma frame_trans: "frame w S w' \<Longrightarrow> frame w' T w'' \<Longrightarrow> frame w (S \<union> T) w''"
  by (auto simp: frame_def)

lemma frame_comp: "frame w S w' \<Longrightarrow> frame w' S w'' \<Longrightarrow> frame w S w''"
  by (simp add: frame_def)

lemma frame_mono: "frame w S w' \<Longrightarrow> S \<subseteq> T \<Longrightarrow> frame w T w'"
  by (auto simp: frame_def)

lemma frame_node: "frame w S w' \<Longrightarrow> q \<notin> S \<Longrightarrow> node_at (files w') q = node_at (files w) q"
  by (simp add: frame_def)

lemma frame_resolve: "frame w S w' \<Longrightarrow> resolve w' = resolve w"
  by (simp add: frame_def)

lemma draw_frame: "draw w = (f, w') \<Longrightarrow> frame w S w'"
  by (simp add: frame_def draw_files)

lemma syscall_cases:
  assumes "syscall act w = (r, w')"
  obtains (fault) e w1 where "draw w = (Some e, w1)" "r = Inl (fault_err e)" "w' = w1"
      "files w1 = files w" "resolve w1 = resolve w" "frame w {} w1"
  | (acts) w1 where "draw w = (None, w1)" "act w1 = (r, w')"
      "files w1 = files w" "resolve w1 = resolve w" "frame w {} w1"
  using assms by (auto simp: syscall_def draw_files draw_frame split: prod.splits option.splits)

lemma keeps_syscall:
  assumes "\<And>w f w'. P w \<Longrightarrow> draw w = (f, w') \<Longrightarrow> P w'" "\<And>w. P w \<Longrightarrow> P (snd (act w))"
  shows "keeps P (syscall act)"
  using assms by (fastforce simp: keeps_def syscall_def split: prod.split option.split)

lemmas call_defs = os_stat_def os_read_def os_mkdir_all_def os_create_excl_def os_create_def
  os_close_def os_remove_def os_remove_all_def os_rename_def os_create_temp_def

text \<open>The content of the regular file a path names, if there is one.\<close>

definition file_at :: "os \<Rightarrow> string \<Rightarrow> string option" where
  "file_at w p = (case node_at (files w) (resolve w p) of Some (File b) \<Rightarrow> Some b | _ \<Rightarrow> None)"

lemma file_at_Some: "file_at w p = Some b \<longleftrightarrow> node_at (files w) (resolve w p) = Some (File b)"
  by (auto simp: file_at_def split: option.splits node.splits)

section \<open>Specifications of the calls\<close>

text \<open>For each call: what it touches (\<open>_frame\<close>), what success means (\<open>_ok\<close>) and,
  where a later step needs it, what failure leaves (\<open>_err\<close>).\<close>

lemma syscall_frame:
  assumes "syscall act w = (r, w')" "\<And>w1 r w'. frame w S w1 \<Longrightarrow> files w1 = files w \<Longrightarrow> act w1 = (r, w') \<Longrightarrow> frame w1 S w'"
  shows "frame w S w'"
  using assms(1)
proof (cases rule: syscall_cases)
  case (fault e w1)
  then show ?thesis by (simp add: draw_frame)
next
  case (acts w1)
  then have "frame w S w1" by (simp add: draw_frame)
  moreover have "files w1 = files w" using acts by simp
  ultimately have "frame w1 S w'" using assms(2) acts(2) by blast
  with \<open>frame w S w1\<close> show ?thesis by (rule frame_comp)
qed

lemma frame_put: "frame w {q} (w\<lparr>files := fs_put q n (files w)\<rparr>)"
  by (simp add: frame_def)

lemma os_stat_frame: "os_stat p w = (r, w') \<Longrightarrow> frame w S w'"
  unfolding os_stat_def by (erule syscall_frame) (auto simp: frame_def)

lemma os_stat_files: "os_stat p w = (r, w') \<Longrightarrow> files w' = files w"
  by (auto simp: os_stat_def elim!: syscall_cases)

lemma os_stat_ok:
  "os_stat p w = (Inr n, w') \<Longrightarrow> node_at (files w) (resolve w p) = Some n"
  by (auto simp: os_stat_def elim!: syscall_cases split: option.splits)

lemma os_read_frame: "os_read p w = (r, w') \<Longrightarrow> frame w S w'"
  unfolding os_read_def by (erule syscall_frame) (auto simp: frame_def)

lemma os_read_files: "os_read p w = (r, w') \<Longrightarrow> files w' = files w"
  by (auto simp: os_read_def elim!: syscall_cases)

lemma os_read_ok:
  "os_read p w = (Inr b, w') \<Longrightarrow> node_at (files w) (resolve w p) = Some (File b)"
  by (auto simp: os_read_def elim!: syscall_cases split: option.splits node.splits)

lemma os_close_frame: "os_close p w = (r, w') \<Longrightarrow> frame w S w'"
  unfolding os_close_def by (erule syscall_frame) (auto simp: frame_def)

lemma os_mkdir_all_frame: "os_mkdir_all p w = (r, w') \<Longrightarrow> frame w {q. prefix q (resolve w p)} w'"
  unfolding os_mkdir_all_def
  by (erule syscall_frame) (auto simp: frame_def Let_def split: if_splits)

lemma os_mkdir_all_ok:
  "os_mkdir_all p w = (Inr u, w') \<Longrightarrow> prefix q (resolve w p) \<Longrightarrow>
   node_at (files w') q = Some Directory"
  by (auto simp: os_mkdir_all_def Let_def elim!: syscall_cases split: if_splits)

text \<open>\<open>MkdirAll\<close> never turns a file into a directory or makes a file.\<close>

lemma os_mkdir_all_node:
  assumes "os_mkdir_all p w = (r, w')"
  shows "node_at (files w') q = node_at (files w) q \<or>
    (node_at (files w) q = None \<and> node_at (files w') q = Some Directory)"
  using assms [unfolded os_mkdir_all_def]
proof (cases rule: syscall_cases)
  case (acts w1)
  then have "files w1 = files w" "resolve w1 = resolve w" by simp_all
  with acts(2) show ?thesis by (auto simp: Let_def list_all_iff split: if_splits)
qed auto

lemma os_mkdir_all_file:
  assumes "os_mkdir_all p w = (r, w')"
  shows "node_at (files w') q = Some (File b) \<longleftrightarrow> node_at (files w) q = Some (File b)"
  using os_mkdir_all_node [OF assms, of q] by auto

lemma os_create_excl_frame: "os_create_excl p w = (r, w') \<Longrightarrow> frame w {resolve w p} w'"
  unfolding os_create_excl_def
  by (erule syscall_frame) (auto simp: frame_def Let_def split: if_splits)

lemma os_create_excl_ok:
  assumes "os_create_excl p w = (Inr u, w')"
  shows "node_at (files w) (resolve w p) = None" "node_at (files w') (resolve w p) = Some (File [])"
  using assms by (auto simp: os_create_excl_def Let_def elim!: syscall_cases split: if_splits)

lemma os_create_excl_err:
  assumes "os_create_excl p w = (Inl e, w')"
  shows "files w' = files w" "frame w S w'"
  using assms by (auto simp: os_create_excl_def Let_def frame_def elim!: syscall_cases split: if_splits)

lemma os_create_frame: "os_create p w = (r, w') \<Longrightarrow> frame w {resolve w p} w'"
  unfolding os_create_def
  by (erule syscall_frame) (auto simp: frame_def Let_def split: if_splits)

lemma os_create_ok:
  "os_create p w = (Inr u, w') \<Longrightarrow> node_at (files w') (resolve w p) = Some (File [])"
  by (auto simp: os_create_def Let_def elim!: syscall_cases split: if_splits)

lemma os_append_frame: "os_append p d w = (r, w') \<Longrightarrow> frame w {resolve w p} w'"
  by (auto simp: os_append_def frame_def draw_files split: prod.splits option.splits fault.splits node.splits)

lemma os_append_ok:
  "os_append p d w = (Inr u, w') \<Longrightarrow> node_at (files w) (resolve w p) = Some (File b) \<Longrightarrow>
   node_at (files w') (resolve w p) = Some (File (b @ d))"
  by (auto simp: os_append_def draw_files split: prod.splits option.splits fault.splits)

lemma os_append_file:
  "os_append p d w = (r, w') \<Longrightarrow> node_at (files w) (resolve w p) = Some (File b) \<Longrightarrow>
   \<exists>b'. node_at (files w') (resolve w p) = Some (File b')"
  by (auto simp: os_append_def draw_files split: prod.splits option.splits fault.splits)

lemma os_write_file_frame: "os_write_file p d w = (r, w') \<Longrightarrow> frame w {resolve w p} w'"
proof -
  assume h: "os_write_file p d w = (r, w')"
  obtain r1 w1 where c: "os_create p w = (r1, w1)" by (cases "os_create p w") auto
  have f1: "frame w {resolve w p} w1" by (rule os_create_frame [OF c])
  show ?thesis
  proof (cases r1)
    case (Inl e)
    with h c f1 show ?thesis by (simp add: os_write_file_def io_simps)
  next
    case (Inr u)
    with h c have "os_append p d w1 = (r, w')" by (simp add: os_write_file_def io_simps)
    then have "frame w1 {resolve w p} w'" using os_append_frame frame_resolve [OF f1] by metis
    with f1 show ?thesis using frame_trans [of w "{resolve w p}" w1 "{resolve w p}" w'] by simp
  qed
qed

lemma os_write_file_ok:
  assumes "os_write_file p d w = (Inr u, w')"
  shows "node_at (files w') (resolve w p) = Some (File d)"
proof -
  from assms obtain u1 w1 where c: "os_create p w = (Inr u1, w1)" and a: "os_append p d w1 = (Inr u, w')"
    by (auto simp: os_write_file_def bind_io_ok)
  have "resolve w1 = resolve w" by (rule frame_resolve [OF os_create_frame [OF c]])
  with os_append_ok [OF a, of "[]"] os_create_ok [OF c] show ?thesis by simp
qed

lemma io_copy_frame: "io_copy p r w = (x, w') \<Longrightarrow> frame w {resolve w p} w'"
  by (cases "os_append p (fst r) w")
    (auto simp: io_copy_def io_simps dest!: os_append_frame split: sum.splits option.splits)

lemma io_copy_ok:
  assumes "io_copy p r w = (Inr u, w')" "node_at (files w) (resolve w p) = Some (File [])"
  shows "node_at (files w') (resolve w p) = Some (File (fst r))" "snd r = None"
  using assms
  by (auto simp: io_copy_def bind_io_ok dest: os_append_ok split: option.splits)

lemma os_remove_frame: "os_remove p w = (r, w') \<Longrightarrow> frame w {resolve w p} w'"
  unfolding os_remove_def
  by (erule syscall_frame) (auto simp: frame_def Let_def split: if_splits)

lemma os_remove_ok:
  "os_remove p w = (Inr u, w') \<Longrightarrow>
   node_at (files w) (resolve w p) \<noteq> None \<and> node_at (files w') (resolve w p) = None"
  by (auto simp: os_remove_def Let_def elim!: syscall_cases split: if_splits)

lemma os_remove_node:
  "os_remove p w = (r, w') \<Longrightarrow> node_at (files w') q = node_at (files w) q \<or> node_at (files w') q = None"
  by (auto simp: os_remove_def Let_def elim!: syscall_cases split: if_splits)

lemma os_remove_all_frame:
  "os_remove_all p w = (r, w') \<Longrightarrow> frame w {q. prefix (resolve w p) q} w'"
  unfolding os_remove_all_def by (erule syscall_frame) (auto simp: frame_def)

lemma os_remove_all_ok:
  "os_remove_all p w = (Inr u, w') \<Longrightarrow> prefix (resolve w p) q \<Longrightarrow> q \<noteq> [] \<Longrightarrow>
   node_at (files w') q = None"
  by (auto simp: os_remove_all_def elim!: syscall_cases)

lemma first_free_fresh:
  "first_free t w dir pre suf rs = Some (p, rs') \<Longrightarrow>
   node_at t (resolve w p) = None \<and> (\<exists>r. p = JoinPath [dir, pre @ nat_str r @ suf])"
  by (induction rs) (auto simp: Let_def split: if_splits)

lemma os_create_temp_frame:
  assumes "os_create_temp d pre suf w = (r, w')"
  shows "frame w (case r of Inr p \<Rightarrow> {resolve w p} | Inl _ \<Rightarrow> {}) w'"
  using assms
  by (auto simp: os_create_temp_def frame_def elim!: syscall_cases
      split: option.splits prod.splits if_splits)

lemma os_create_temp_ok:
  assumes "os_create_temp d pre suf w = (Inr p, w')"
  shows "node_at (files w) (resolve w p) = None"
    "node_at (files w') (resolve w p) = Some (File [])" "\<exists>r. p = JoinPath [d, pre @ nat_str r @ suf]"
  using assms
  by (auto simp: os_create_temp_def elim!: syscall_cases
      split: option.splits prod.splits if_splits dest!: first_free_fresh)

lemma os_rename_cases:
  assumes "os_rename p q w = (Inr u, w')"
  defines "a \<equiv> resolve w p" and "b \<equiv> resolve w q"
  shows "a \<noteq> []" "b \<noteq> []" "node_at (files w) a \<noteq> None"
    "a = b \<and> files w' = files w \<or> \<not> prefix a b \<and> files w' = fs_move a b (files w)"
  using assms
  by (auto simp: os_rename_def Let_def parent_ok_def elim!: syscall_cases
      split: option.splits node.splits if_splits)

lemma os_rename_err: "os_rename p q w = (Inl e, w') \<Longrightarrow> files w' = files w"
  by (auto simp: os_rename_def Let_def elim!: syscall_cases
      split: option.splits node.splits if_splits)

lemma os_rename_frame:
  assumes "os_rename p q w = (r, w')"
  shows "frame w {x. prefix (resolve w p) x \<or> prefix (resolve w q) x} w'"
proof -
  have s: "resolve w' = resolve w \<and> cwd w' = cwd w \<and> procs w' = procs w \<and> self_pid w' = self_pid w \<and>
      goos w' = goos w \<and> goarch w' = goarch w"
    using assms by (auto simp: os_rename_def Let_def frame_def elim!: syscall_cases
      split: option.splits node.splits if_splits)
  show ?thesis
  proof (cases r)
    case (Inl e)
    with assms os_rename_err s show ?thesis by (metis (mono_tags) frame_def)
  next
    case (Inr u)
    with assms have ok: "os_rename p q w = (Inr u, w')" by simp
    from os_rename_cases(4) [OF ok] show ?thesis
    proof
      assume "\<not> prefix (resolve w p) (resolve w q) \<and> files w' = fs_move (resolve w p) (resolve w q) (files w)"
      with os_rename_cases(1,2) [OF ok] s show ?thesis by (simp add: frame_def node_at_move)
    qed (use s in \<open>simp add: frame_def\<close>)
  qed
qed

lemma os_rename_ok:
  assumes "os_rename p q w = (Inr u, w')"
  shows "node_at (files w') (resolve w q @ s) = node_at (files w) (resolve w p @ s)"
  using os_rename_cases(4) [OF assms]
proof (elim disjE conjE)
  assume "\<not> prefix (resolve w p) (resolve w q)"
    "files w' = fs_move (resolve w p) (resolve w q) (files w)"
  with os_rename_cases(1,2) [OF assms] show ?thesis by (simp add: node_at_move)
qed simp

lemma os_rename_src:
  assumes "os_rename p q w = (Inr u, w')" "prefix (resolve w p) x" "\<not> prefix (resolve w q) x"
  shows "node_at (files w') x = None"
  using os_rename_cases(4) [OF assms(1)]
proof (elim disjE conjE)
  assume "\<not> prefix (resolve w p) (resolve w q)"
    "files w' = fs_move (resolve w p) (resolve w q) (files w)"
  with os_rename_cases(1,2) [OF assms(1)] assms(2,3) show ?thesis by (simp add: node_at_move)
qed (use assms(2,3) in simp)


section \<open>Calls when no fault is pending\<close>

lemma syscall_none: "faults w = [] \<Longrightarrow> syscall act w = act w"
  by (simp add: syscall_def draw_def)

lemma draw_none [simp]: "faults w = [] \<Longrightarrow> draw w = (None, w)"
  by (simp add: draw_def)

lemma no_fault_runs:
  assumes "faults w = []"
  shows "os_mkdir_all p w = (if list_all (\<lambda>a. node_at (files w) a \<in> {None, Some Directory}) (prefixes (resolve w p))
       then (Inr (), w\<lparr>files := fs_mkdirs (resolve w p) (files w)\<rparr>) else (Inl (Sys ENOTDIR), w))"
    "os_append p d w = (Inr (), w\<lparr>files := fs_append (resolve w p) d (files w)\<rparr>)"
    "os_close p w = (Inr (), w)"
  using assms by (simp_all add: os_mkdir_all_def os_append_def os_close_def syscall_def Let_def)

section \<open>A host for concrete runs\<close>

definition host0 :: os where
  "host0 = \<lparr>files = [], cwd = ''/w'', faults = [], rands = [7, 8, 9], procs = [100, 200],
    self_pid = 100, home = Some ''/home/u'', config_home = Some ''/home/u/.config'',
    goos = ''linux'', goarch = ''amd64''\<rparr>"

lemma host0_sel [simp]:
  "files host0 = []" "cwd host0 = ''/w''" "faults host0 = []" "rands host0 = [7, 8, 9]"
  "procs host0 = [100, 200]" "self_pid host0 = 100" "home host0 = Some ''/home/u''"
  "goos host0 = ''linux''" "goarch host0 = ''amd64''"
  by (simp_all add: host0_def)

lemma node_at_Nil [simp]: "node_at [] q = (if q = [] then Some Directory else None)"
  by (simp add: node_at_def)

end
