(* ===== verification/Go_Net.thy ===== *)
theory Go_Net
  imports Go_OS
begin

text \<open>
  What the program sees of \<open>net/http\<close> and of time. A web server is a parameter: for each
  URL, whether a request can be made and what answers it. Polling loops (retry until success
  or a deadline) are one function over the answers and clock readings of the attempts, run
  with fuel; the lemmas say when it returns and what.
\<close>

section \<open>HTTP\<close>

record response =
  StatusCode :: int
  Status_line :: string
  Body :: reader

record http =
  NewRequest :: "string \<Rightarrow> unit result"
  Do_request :: "string \<Rightarrow> response result"

text \<open>\<open>io.ReadAll(io.LimitReader(r, n))\<close>: an error behind the limit is not seen.\<close>

definition ReadAllLimit :: "nat \<Rightarrow> reader \<Rightarrow> string result" where
  "ReadAllLimit n r = (case r of (b, e) \<Rightarrow>
     if n \<le> length b then Inr (take n b)
     else (case e of None \<Rightarrow> Inr b | Some x \<Rightarrow> Inl (Sys x)))"

lemma ReadAllLimit_length: "ReadAllLimit n r = Inr b \<Longrightarrow> length b \<le> n"
  by (auto simp: ReadAllLimit_def split: prod.splits if_splits option.splits)

section \<open>Polling\<close>

text \<open>Attempt \<open>i\<close> answers \<open>att i\<close>; after a failed one the loop gives up when \<open>late i\<close>,
  else sleeps and tries again.\<close>

fun poll :: "nat \<Rightarrow> (nat \<Rightarrow> 'a result) \<Rightarrow> (nat \<Rightarrow> bool) \<Rightarrow> nat \<Rightarrow> 'a result option" where
  "poll 0 att late i = None"
| "poll (Suc k) att late i =
     (case att i of
        Inr x \<Rightarrow> Some (Inr x)
      | Inl e \<Rightarrow> if late i then Some (Inl e) else poll k att late (Suc i))"

definition stops_at :: "(nat \<Rightarrow> 'a result) \<Rightarrow> (nat \<Rightarrow> bool) \<Rightarrow> nat \<Rightarrow> bool" where
  "stops_at att late n \<longleftrightarrow> (\<exists>x. att n = Inr x) \<or> late n"

lemma poll_at:
  "(\<And>j. i \<le> j \<Longrightarrow> j < i + n \<Longrightarrow> \<not> stops_at att late j) \<Longrightarrow> stops_at att late (i + n) \<Longrightarrow>
   n < k \<Longrightarrow> poll k att late i = Some (att (i + n))"
proof (induction n arbitrary: i k)
  case 0
  then show ?case by (cases k) (auto simp: stops_at_def split: sum.splits)
next
  case (Suc n)
  then obtain j where k: "k = Suc j" "n < j" by (cases k) auto
  have "\<not> stops_at att late i" using Suc.prems(1) [of i] by simp
  then obtain e where e: "att i = Inl e" "\<not> late i" by (cases "att i") (auto simp: stops_at_def)
  have "poll j att late (Suc i) = Some (att (Suc i + n))"
    using Suc.prems k by (intro Suc.IH) auto
  with e k show ?case by simp
qed

text \<open>With a clock that advances by at least \<open>d\<close> between attempts a loop with a deadline
  returns within \<open>timeout div d + 2\<close> attempts, with the answer of the first attempt that
  succeeded or was late.\<close>

lemma clock_advance:
  fixes now :: "nat \<Rightarrow> int"
  assumes "\<And>i. now i + d \<le> now (Suc i)"
  shows "now 0 + int n * d \<le> now n"
proof (induction n)
  case (Suc n)
  have "now 0 + int (Suc n) * d = now 0 + int n * d + d" by (simp add: distrib_right)
  also have "\<dots> \<le> now n + d" using Suc by simp
  also have "\<dots> \<le> now (Suc n)" by (rule assms)
  finally show ?case .
qed simp

lemma poll_returns:
  fixes now :: "nat \<Rightarrow> int"
  assumes "\<And>i. now i + d \<le> now (Suc i)" "0 < d" "0 \<le> t" "late = (\<lambda>i. start + t < now i)"
    "nat (t div d) + 2 \<le> k" "start \<le> now 0"
  shows "\<exists>n. poll k att late 0 = Some (att n) \<and> stops_at att late n \<and>
    (\<forall>j < n. \<not> stops_at att late j)"
proof -
  let ?m = "Suc (nat (t div d))"
  have "int ?m = t div d + 1" using assms(2,3) by (simp add: pos_imp_zdiv_nonneg_iff)
  moreover have "t < (t div d + 1) * d"
    using div_mult_mod_eq [of t d] pos_mod_bound [OF assms(2), of t] unfolding distrib_right mult_1 by linarith
  ultimately have "t < int ?m * d" by (simp only:)
  moreover have "now 0 + int ?m * d \<le> now ?m" by (rule clock_advance) (rule assms(1))
  ultimately have "start + t < now ?m" using assms(6) by linarith
  then have ex: "stops_at att late ?m" by (simp add: stops_at_def assms(4))
  obtain n where n: "stops_at att late n" "\<forall>j < n. \<not> stops_at att late j"
    using ex exists_least_iff [of "stops_at att late"] by blast
  have "n \<le> ?m" using n(2) ex by (meson not_less)
  have "poll k att late 0 = Some (att n)"
    using poll_at [of 0 n att late k] n \<open>n \<le> ?m\<close> assms(5) by simp
  with n show ?thesis by blast
qed

end
