(* ===== verification/App_Config.thy ===== *)
theory App_Config
  imports Go_Net
begin

text \<open>
  Package \<open>internal/app\<close>, \<open>config.go\<close> and the merging of flags of \<open>app.go\<close>: the
  configuration, its defaults, where it is looked for, how command-line flags override it and
  what is rejected. The YAML decoder is the parameter \<open>unmarshal\<close>: the bytes and the
  configuration to fill in give the filled-in one or an error.
\<close>

section \<open>The configuration\<close>

definition IPCloudInit :: string where "IPCloudInit = ''cloud-init''"
definition IPKernelDHCP :: string where "IPKernelDHCP = ''kernel-dhcp''"
definition IPKernelStatic :: string where "IPKernelStatic = ''kernel-static''"
definition IPNone :: string where "IPNone = ''none''"

lemmas ip_mode_defs = IPCloudInit_def IPKernelDHCP_def IPKernelStatic_def IPNone_def

definition IP_Valid :: "string \<Rightarrow> bool" where
  "IP_Valid m \<longleftrightarrow> m \<in> {IPCloudInit, IPKernelDHCP, IPKernelStatic, IPNone}"

record Components =
  cc_Kernel :: string
  cc_Initrd :: string
  cc_Rootfs :: string
  cc_RootfsVZ :: string
  cc_QEMUDir :: string

record Guest =
  gu_Arch :: string
  gu_MemoryMB :: int
  gu_CPUs :: int
  gu_KernelCmdline :: string
  gu_Persist :: bool

record QEMUConf =
  qc_Display :: string
  qc_AccelPref :: "(string \<times> string list) list"
  qc_AccelFallback :: bool
  qc_ExtraArgs :: "string list"

record Network =
  nw_IPConfig :: string
  nw_BindAddress :: string
  nw_AllowPublicBind :: bool
  nw_SSHPort :: int

record Port =
  po_Name :: string
  po_Protocol :: string
  po_Host :: int
  po_Guest :: int
  po_URL :: string

record Readiness =
  rd_TCPPorts :: "int list"
  rd_TimeoutSeconds :: int

record Seed =
  sc_Enabled :: bool
  sc_Username :: string
  sc_Password :: string
  sc_SSHKey :: string
  sc_Path :: string

record Config =
  cfg_Name :: string
  cfg_Components :: Components
  cfg_Guest :: Guest
  cfg_QEMU :: QEMUConf
  cfg_Network :: Network
  cfg_Ports :: "Port list"
  cfg_Readiness :: Readiness
  cfg_Seed :: Seed

definition Default_config :: Config where
  "Default_config = \<lparr>
     cfg_Name = ''dvm'',
     cfg_Components = \<lparr>cc_Kernel = [], cc_Initrd = [], cc_Rootfs = [], cc_RootfsVZ = [], cc_QEMUDir = []\<rparr>,
     cfg_Guest = \<lparr>gu_Arch = [], gu_MemoryMB = 2048, gu_CPUs = 2, gu_KernelCmdline = [], gu_Persist = True\<rparr>,
     cfg_QEMU = \<lparr>qc_Display = ''none'',
       qc_AccelPref = [(''windows'', [''whpx'', ''tcg'']), (''linux'', [''kvm'', ''tcg'']), (''darwin'', [''hvf'', ''tcg''])],
       qc_AccelFallback = True, qc_ExtraArgs = []\<rparr>,
     cfg_Network = \<lparr>nw_IPConfig = IPCloudInit, nw_BindAddress = ''127.0.0.1'', nw_AllowPublicBind = False, nw_SSHPort = 0\<rparr>,
     cfg_Ports = [],
     cfg_Readiness = \<lparr>rd_TCPPorts = [], rd_TimeoutSeconds = 180\<rparr>,
     cfg_Seed = \<lparr>sc_Enabled = True, sc_Username = ''ubuntu'', sc_Password = [], sc_SSHKey = [], sc_Path = []\<rparr>\<rparr>"

section \<open>Finding and reading it\<close>

text \<open>A candidate counts when \<open>Stat\<close> succeeds and it is not a directory.\<close>

definition is_config_file :: "string \<Rightarrow> bool io" where
  "is_config_file p = catch_io (os_stat p) (\<lambda>r. return_io (case r of Inr (File b) \<Rightarrow> True | _ \<Rightarrow> False))"

fun first_config :: "string list \<Rightarrow> string io" where
  "first_config [] = return_io []"
| "first_config (p # ps) =
     bind_io (is_config_file p) (\<lambda>ok. if ok then return_io p else first_config ps)"

definition config_names :: "string list" where
  "config_names = [''dvm.yaml'', ''myvm.yaml'']"

definition resolveConfigPath :: "string \<Rightarrow> string io" where
  "resolveConfigPath explicit = (\<lambda>w.
     if explicit \<noteq> [] then return_io explicit w
     else first_config (config_names @
       (case config_home w of
          None \<Rightarrow> []
        | Some dir \<Rightarrow> map (\<lambda>n. JoinPath [dir, ''diveinto-lab'', n]) config_names)) w)"

definition fetchConfigURL :: "http \<Rightarrow> string \<Rightarrow> string result" where
  "fetchConfigURL h url =
     bind_res (NewRequest h url) (\<lambda>_.
     bind_res (wrap_err ''fetch config %s: %w'' [url] (Do_request h url)) (\<lambda>resp.
     if StatusCode resp \<noteq> 200 then Inl (Errorf ''fetch config %s: %s'' [url, Status_line resp])
     else wrap_err ''read config %s: %w'' [url] (ReadAllLimit (2 ^ 20) (Body resp))))"

definition readConfigSource :: "http \<Rightarrow> string \<Rightarrow> string io" where
  "readConfigSource h path =
     (if HasPrefix path ''http://'' \<or> HasPrefix path ''https://'' then lift_res (fetchConfigURL h path)
      else wrap_io ''read config %s: %w'' [path] (os_read path))"

definition LoadConfig :: "http \<Rightarrow> (string \<Rightarrow> Config \<Rightarrow> Config result) \<Rightarrow> string \<Rightarrow> Config io" where
  "LoadConfig h unmarshal explicit =
     bind_io (resolveConfigPath explicit) (\<lambda>path.
     if path = [] then return_io Default_config
     else bind_io (readConfigSource h path) (\<lambda>data.
          wrap_io ''parse config %s: %w'' [path] (lift_res (unmarshal data Default_config))))"

section \<open>Validation\<close>

definition bad_port :: "Port \<Rightarrow> bool" where
  "bad_port p \<longleftrightarrow> po_Host p \<le> 0 \<or> po_Host p > 65535 \<or> po_Guest p \<le> 0 \<or> po_Guest p > 65535"

fun check_ports :: "nat \<Rightarrow> Port list \<Rightarrow> unit result" where
  "check_ports i [] = Inr ()"
| "check_ports i (p # ps) =
     (if bad_port p then Inl (Errorf ''ports[%d] (%s): host/guest must be 1..65535'' [nat_str i, po_Name p])
      else check_ports (Suc i) ps)"

definition Validate :: "Config \<Rightarrow> unit result" where
  "Validate c =
     (if \<not> IP_Valid (nw_IPConfig (cfg_Network c))
      then Inl (Errorf ''invalid ip_config %q (want cloud-init|kernel-dhcp|kernel-static|none)'' [nw_IPConfig (cfg_Network c)])
      else if gu_MemoryMB (cfg_Guest c) \<le> 0
      then Inl (Errorf ''guest memory_mb must be > 0, got %d'' [Itoa (gu_MemoryMB (cfg_Guest c))])
      else if gu_CPUs (cfg_Guest c) \<le> 0
      then Inl (Errorf ''guest cpus must be > 0, got %d'' [Itoa (gu_CPUs (cfg_Guest c))])
      else if nw_BindAddress (cfg_Network c) \<notin> {''127.0.0.1'', ''localhost'', ''0.0.0.0''}
      then Inl (Errorf ''invalid bind_address %q'' [nw_BindAddress (cfg_Network c)])
      else if nw_BindAddress (cfg_Network c) = ''0.0.0.0'' \<and> \<not> nw_AllowPublicBind (cfg_Network c)
      then Inl (Errorf ''bind_address 0.0.0.0 requires allow_public_bind: true'' [])
      else check_ports 0 (cfg_Ports c))"

section \<open>Port specifications\<close>

definition parse_port :: "string \<Rightarrow> string \<Rightarrow> int result" where
  "parse_port what s = (case Atoi (TrimSpace s) of
     None \<Rightarrow> Inl (Errorf ''invalid %s port %q'' [what, s])
   | Some n \<Rightarrow> if n \<le> 0 \<or> n > 65535 then Inl (Errorf ''invalid %s port %q'' [what, s]) else Inr n)"

definition split_proto :: "string \<Rightarrow> string \<times> string" where
  "split_proto s = (let i = LastIndex s CHR ''/'' in
     if 0 \<le> i then (ToLower (drop (nat i + 1) s), take (nat i) s) else (''tcp'', s))"

definition ParsePortSpec :: "string \<Rightarrow> Port result" where
  "ParsePortSpec s0 = (case split_proto s0 of (proto, s) \<Rightarrow>
     if proto \<noteq> ''tcp'' \<and> proto \<noteq> ''udp''
     then Inl (Errorf ''invalid protocol %q in port spec'' [proto])
     else (case Cut CHR '':'' s of (host, guest, ok) \<Rightarrow>
       if \<not> ok then Inl (Errorf ''port spec %q must be HOST:GUEST'' [s])
       else bind_res (parse_port ''host'' host) (\<lambda>h.
            bind_res (parse_port ''guest'' guest) (\<lambda>g.
            Inr \<lparr>po_Name = [], po_Protocol = proto, po_Host = h, po_Guest = g, po_URL = []\<rparr>))))"

section \<open>Flags\<close>

record Flags =
  fl_ConfigPath :: string
  fl_DataDir :: string
  fl_CacheDir :: string
  fl_Engine :: string
  fl_Kernel :: string
  fl_Initrd :: string
  fl_Rootfs :: string
  fl_RootfsVZ :: string
  fl_QEMUDir :: string
  fl_GuestArch :: string
  fl_KernelCmdline :: string
  fl_MemoryMB :: int
  fl_CPUs :: int
  fl_Ports :: "string list"
  fl_IPConfig :: string
  fl_BindAddress :: string
  fl_SSHPort :: int
  fl_NoPersist :: bool
  fl_Reset :: bool
  fl_AccelFallback :: bool
  fl_Headless :: bool
  fl_Debug :: bool
  fl_QemuArgs :: "string list"
  fl_Console :: bool
  fl_GuestPassword :: string
  fl_SSHKeyPath :: string
  fl_SeedPath :: string

definition override :: "string \<Rightarrow> string \<Rightarrow> string" where
  "override flag cfg = (if flag \<noteq> [] then flag else cfg)"

definition override_pos :: "int \<Rightarrow> int \<Rightarrow> int" where
  "override_pos flag cfg = (if flag > 0 then flag else cfg)"

fun parsed_ports :: "string list \<Rightarrow> Port list" where
  "parsed_ports [] = []"
| "parsed_ports (s # ss) = (case ParsePortSpec s of Inr p \<Rightarrow> p # parsed_ports ss | Inl e \<Rightarrow> parsed_ports ss)"

definition mergeFlags :: "Config \<Rightarrow> Flags \<Rightarrow> Config" where
  "mergeFlags c f = c\<lparr>
     cfg_Components := (cfg_Components c)\<lparr>
       cc_Kernel := override (fl_Kernel f) (cc_Kernel (cfg_Components c)),
       cc_Initrd := override (fl_Initrd f) (cc_Initrd (cfg_Components c)),
       cc_Rootfs := override (fl_Rootfs f) (cc_Rootfs (cfg_Components c)),
       cc_RootfsVZ := override (fl_RootfsVZ f) (cc_RootfsVZ (cfg_Components c)),
       cc_QEMUDir := override (fl_QEMUDir f) (cc_QEMUDir (cfg_Components c))\<rparr>,
     cfg_Guest := (cfg_Guest c)\<lparr>
       gu_Arch := override (fl_GuestArch f) (gu_Arch (cfg_Guest c)),
       gu_KernelCmdline := override (fl_KernelCmdline f) (gu_KernelCmdline (cfg_Guest c)),
       gu_MemoryMB := override_pos (fl_MemoryMB f) (gu_MemoryMB (cfg_Guest c)),
       gu_CPUs := override_pos (fl_CPUs f) (gu_CPUs (cfg_Guest c)),
       gu_Persist := (if fl_NoPersist f then False else gu_Persist (cfg_Guest c))\<rparr>,
     cfg_Network := (cfg_Network c)\<lparr>
       nw_IPConfig := override (fl_IPConfig f) (nw_IPConfig (cfg_Network c)),
       nw_BindAddress := override (fl_BindAddress f) (nw_BindAddress (cfg_Network c)),
       nw_SSHPort := override_pos (fl_SSHPort f) (nw_SSHPort (cfg_Network c))\<rparr>,
     cfg_QEMU := (cfg_QEMU c)\<lparr>qc_AccelFallback := fl_AccelFallback f\<rparr>,
     cfg_Seed := (cfg_Seed c)\<lparr>
       sc_Password := override (fl_GuestPassword f) (sc_Password (cfg_Seed c)),
       sc_SSHKey := override (fl_SSHKeyPath f) (sc_SSHKey (cfg_Seed c)),
       sc_Path := override (fl_SeedPath f) (sc_Path (cfg_Seed c))\<rparr>,
     cfg_Ports := cfg_Ports c @ parsed_ports (fl_Ports f)\<rparr>"

section \<open>Lemmas\<close>

lemma check_ports_ok: "check_ports i ps = Inr () \<longleftrightarrow> list_all (\<lambda>p. \<not> bad_port p) ps"
  by (induction ps arbitrary: i) simp_all

lemma Itoa_nat_range: "1 \<le> n \<Longrightarrow> n \<le> 65535 \<Longrightarrow> in_int64 n"
  by (simp add: in_int64_def)

lemma parse_port_Itoa: "1 \<le> n \<Longrightarrow> n \<le> 65535 \<Longrightarrow> parse_port what (Itoa n) = Inr n"
  by (simp add: parse_port_def Atoi_Itoa Itoa_nat_range)

lemma parse_port_ok: "parse_port what s = Inr n \<Longrightarrow> 0 < n \<and> n \<le> 65535"
  by (auto simp: parse_port_def split: option.splits if_splits)

lemma ParsePortSpec_ok:
  assumes "ParsePortSpec s = Inr p"
  shows "\<not> bad_port p \<and> po_Protocol p \<in> {''tcp'', ''udp''} \<and> po_Name p = [] \<and> po_URL p = []"
proof -
  obtain h g where "parse_port ''host'' (fst (Cut CHR '':'' (snd (split_proto s)))) = Inr h"
    "parse_port ''guest'' (fst (snd (Cut CHR '':'' (snd (split_proto s))))) = Inr g"
    and p: "p = \<lparr>po_Name = [], po_Protocol = fst (split_proto s), po_Host = h, po_Guest = g, po_URL = []\<rparr>"
    and pr: "fst (split_proto s) = ''tcp'' \<or> fst (split_proto s) = ''udp''"
    using assms unfolding ParsePortSpec_def
    by (cases "split_proto s"; cases "Cut CHR '':'' (snd (split_proto s))")
      (auto simp: bind_res_eq_Inr split: if_splits)
  with parse_port_ok show ?thesis by (fastforce simp: bad_port_def)
qed

lemma parsed_ports_ok: "p \<in> set (parsed_ports ss) \<Longrightarrow> \<not> bad_port p \<and> po_Protocol p \<in> {''tcp'', ''udp''}"
  by (induction ss) (auto split: sum.splits dest: ParsePortSpec_ok)

lemma split_proto_none: "CHR ''/'' \<notin> set s \<Longrightarrow> split_proto s = (''tcp'', s)"
  by (simp add: split_proto_def LastIndex_none)

lemma split_proto_slash:
  "CHR ''/'' \<notin> set p \<Longrightarrow> split_proto (s @ CHR ''/'' # p) = (ToLower p, s)"
  by (simp add: split_proto_def LastIndex_last)

lemma Cut_ports: "Cut CHR '':'' (Itoa h @ CHR '':'' # Itoa g) = (Itoa h, Itoa g, True)"
  by (rule Cut_append) simp

section \<open>Properties\<close>

text \<open>C20. Printed port forwards parse back: \<open>HOST:GUEST/proto\<close> is the forward, \<open>HOST:GUEST\<close> is
  it with \<open>tcp\<close>, for every pair of ports in range.\<close>

theorem port_spec_roundtrip:
  assumes "1 \<le> h" "h \<le> 65535" "1 \<le> g" "g \<le> 65535" "proto \<in> {''tcp'', ''udp''}"
  shows "ParsePortSpec (Itoa h @ '':'' @ Itoa g @ ''/'' @ proto) =
      Inr \<lparr>po_Name = [], po_Protocol = proto, po_Host = h, po_Guest = g, po_URL = []\<rparr> \<and>
    ParsePortSpec (Itoa h @ '':'' @ Itoa g) =
      Inr \<lparr>po_Name = [], po_Protocol = ''tcp'', po_Host = h, po_Guest = g, po_URL = []\<rparr>"
proof -
  have low: "ToLower proto = proto" "CHR ''/'' \<notin> set proto"
    using assms(5) by (auto simp: ToLower_def lower_char_def Let_def)
  have a: "split_proto ((Itoa h @ CHR '':'' # Itoa g) @ CHR ''/'' # proto) = (proto, Itoa h @ CHR '':'' # Itoa g)"
    using split_proto_slash [OF low(2), of "Itoa h @ CHR '':'' # Itoa g"] low(1) by (simp del: append_assoc)
  have b: "split_proto (Itoa h @ CHR '':'' # Itoa g) = (''tcp'', Itoa h @ CHR '':'' # Itoa g)"
    by (rule split_proto_none) simp
  show ?thesis
    using assms a b by (auto simp: ParsePortSpec_def Cut_ports parse_port_Itoa)
qed

theorem port_spec_roundtrip_witness:
  "ParsePortSpec (Itoa 8080 @ '':'' @ Itoa 80 @ ''/'' @ ''udp'') =
     Inr \<lparr>po_Name = [], po_Protocol = ''udp'', po_Host = 8080, po_Guest = 80, po_URL = []\<rparr>"
  using port_spec_roundtrip [of 8080 80 "''udp''"] by simp

text \<open>A configuration is accepted exactly when its IP mode is known, memory and CPUs are
  positive, the bind address is one of the three allowed ones, a public one was allowed, and
  every port pair is in range.\<close>

theorem validate_spec:
  "Validate c = Inr () \<longleftrightarrow>
     nw_IPConfig (cfg_Network c) \<in> {''cloud-init'', ''kernel-dhcp'', ''kernel-static'', ''none''} \<and>
     0 < gu_MemoryMB (cfg_Guest c) \<and> 0 < gu_CPUs (cfg_Guest c) \<and>
     (nw_BindAddress (cfg_Network c) = ''127.0.0.1'' \<or> nw_BindAddress (cfg_Network c) = ''localhost'' \<or>
      nw_BindAddress (cfg_Network c) = ''0.0.0.0'' \<and> nw_AllowPublicBind (cfg_Network c)) \<and>
     list_all (\<lambda>p. 0 < po_Host p \<and> po_Host p \<le> 65535 \<and> 0 < po_Guest p \<and> po_Guest p \<le> 65535) (cfg_Ports c)"
proof -
  have "(\<lambda>p. \<not> bad_port p) = (\<lambda>p. 0 < po_Host p \<and> po_Host p \<le> 65535 \<and> 0 < po_Guest p \<and> po_Guest p \<le> 65535)"
    by (auto simp: bad_port_def fun_eq_iff)
  then show ?thesis
    by (auto simp: Validate_def check_ports_ok IP_Valid_def ip_mode_defs)
qed

lemma merge_ports: "cfg_Ports (mergeFlags c f) = cfg_Ports c @ parsed_ports (fl_Ports f)"
  by (simp add: mergeFlags_def)

lemma merge_public: "nw_AllowPublicBind (cfg_Network (mergeFlags c f)) = nw_AllowPublicBind (cfg_Network c)"
  by (simp add: mergeFlags_def)

lemma Validate_public:
  "Validate c = Inr () \<Longrightarrow> nw_BindAddress (cfg_Network c) = ''0.0.0.0'' \<Longrightarrow> nw_AllowPublicBind (cfg_Network c)"
  by (auto simp: Validate_def split: if_splits)

lemma Validate_bind:
  "Validate c = Inr () \<Longrightarrow> nw_BindAddress (cfg_Network c) \<in> {''127.0.0.1'', ''localhost'', ''0.0.0.0''}"
  by (auto simp: Validate_def split: if_splits)

text \<open>Flags cannot make a configuration public or its ports invalid: the result of merging
  is accepted with \<open>0.0.0.0\<close> only if the configuration itself allows public binding, and a
  rejected port pair always comes from the configuration, never from \<open>--port\<close>.\<close>

theorem flags_cannot_open:
  assumes "Validate c = Inr ()"
  shows "(Validate (mergeFlags c f) = Inr () \<longrightarrow> nw_BindAddress (cfg_Network (mergeFlags c f)) = ''0.0.0.0'' \<longrightarrow>
      nw_AllowPublicBind (cfg_Network c)) \<and>
    list_all (\<lambda>p. \<not> bad_port p) (cfg_Ports (mergeFlags c f))"
proof -
  have "check_ports 0 (cfg_Ports c) = Inr ()" using assms by (simp add: Validate_def split: if_splits)
  then have "list_all (\<lambda>p. \<not> bad_port p) (cfg_Ports (mergeFlags c f))"
    using parsed_ports_ok by (auto simp: merge_ports check_ports_ok list_all_iff)
  moreover have "nw_AllowPublicBind (cfg_Network c)"
    if "Validate (mergeFlags c f) = Inr ()" "nw_BindAddress (cfg_Network (mergeFlags c f)) = ''0.0.0.0''"
    using Validate_public [OF that] by (simp add: merge_public)
  ultimately show ?thesis by blast
qed

definition flags0 :: Flags where
  "flags0 = \<lparr>fl_ConfigPath = [], fl_DataDir = [], fl_CacheDir = [], fl_Engine = ''auto'', fl_Kernel = ''/k'',
    fl_Initrd = ''/i'', fl_Rootfs = ''/r'', fl_RootfsVZ = [], fl_QEMUDir = ''/q'', fl_GuestArch = [],
    fl_KernelCmdline = [], fl_MemoryMB = 0, fl_CPUs = 0, fl_Ports = [''8080:80'', ''oops''], fl_IPConfig = [],
    fl_BindAddress = [], fl_SSHPort = 0, fl_NoPersist = False, fl_Reset = False, fl_AccelFallback = True,
    fl_Headless = True, fl_Debug = False, fl_QemuArgs = [], fl_Console = False, fl_GuestPassword = [],
    fl_SSHKeyPath = [], fl_SeedPath = []\<rparr>"

theorem flags_cannot_open_witness:
  "cfg_Ports (mergeFlags Default_config flags0) =
     [\<lparr>po_Name = [], po_Protocol = ''tcp'', po_Host = 8080, po_Guest = 80, po_URL = []\<rparr>] \<and>
   list_all (\<lambda>p. \<not> bad_port p) (cfg_Ports (mergeFlags Default_config flags0))"
proof -
  have "Validate Default_config = Inr ()" by code_simp
  moreover have "cfg_Ports (mergeFlags Default_config flags0) =
     [\<lparr>po_Name = [], po_Protocol = ''tcp'', po_Host = 8080, po_Guest = 80, po_URL = []\<rparr>]" by code_simp
  ultimately show ?thesis using flags_cannot_open [of Default_config flags0] by blast
qed

text \<open>Flags override the configuration field by field and leave every field that was not
  given as the configuration has it; \<open>accel_fallback\<close> alone always comes from the flags.\<close>

theorem merge_overrides:
  "(fl_Kernel f = [] \<longrightarrow> cc_Kernel (cfg_Components (mergeFlags c f)) = cc_Kernel (cfg_Components c)) \<and>
   (fl_Kernel f \<noteq> [] \<longrightarrow> cc_Kernel (cfg_Components (mergeFlags c f)) = fl_Kernel f) \<and>
   (fl_MemoryMB f \<le> 0 \<longrightarrow> gu_MemoryMB (cfg_Guest (mergeFlags c f)) = gu_MemoryMB (cfg_Guest c)) \<and>
   (0 < fl_MemoryMB f \<longrightarrow> gu_MemoryMB (cfg_Guest (mergeFlags c f)) = fl_MemoryMB f) \<and>
   gu_Persist (cfg_Guest (mergeFlags c f)) = (gu_Persist (cfg_Guest c) \<and> \<not> fl_NoPersist f) \<and>
   qc_AccelFallback (cfg_QEMU (mergeFlags c f)) = fl_AccelFallback f \<and>
   qc_ExtraArgs (cfg_QEMU (mergeFlags c f)) = qc_ExtraArgs (cfg_QEMU c) \<and>
   cfg_Name (mergeFlags c f) = cfg_Name c \<and> cfg_Readiness (mergeFlags c f) = cfg_Readiness c \<and>
   mergeFlags c (f\<lparr>fl_QemuArgs := xs, fl_Headless := b, fl_Debug := d\<rparr>) = mergeFlags c f"
  by (simp add: mergeFlags_def override_def override_pos_def)

end
