(* ===== verification/Platform.thy ===== *)
theory Platform
  imports Go_OS
begin

text \<open>
  Package \<open>internal/platform\<close>: the base directories and the host's operating system and
  architecture, from which the guest architecture defaults.
\<close>

record Dirs =
  dirs_Cache :: string
  dirs_State :: string

definition DefaultCacheDir :: string where "DefaultCacheDir = ''.cache''"
definition DefaultStateDir :: string where "DefaultStateDir = ''.state''"

definition Default_dirs :: Dirs where
  "Default_dirs = \<lparr>dirs_Cache = DefaultCacheDir, dirs_State = DefaultStateDir\<rparr>"

definition Target :: "os \<Rightarrow> string" where
  "Target w = goos w @ ''/'' @ goarch w"

definition GuestArchDefault :: "os \<Rightarrow> string" where
  "GuestArchDefault w =
     (if goos w = ''darwin'' \<and> goarch w = ''arm64'' then ''arm64'' else ''x86_64'')"

definition CacheRuntime :: "Dirs \<Rightarrow> string \<Rightarrow> string" where
  "CacheRuntime d assetVersion = JoinPath [dirs_Cache d, ''runtime'', assetVersion]"

definition StateInstance :: "Dirs \<Rightarrow> string \<Rightarrow> string" where
  "StateInstance d name =
     JoinPath [dirs_State d, ''state'', if name = [] then ''default'' else name]"

lemma plain_state [simp]: "plain ''state''" "plain ''default''" "plain ''oci''"
  by (simp_all add: plain_def)

text \<open>With a plain instance name the state directory is the name's own directory under
  \<open>state\<close>; nothing in the code checks that the name is plain.\<close>

lemma StateInstance_plain:
  assumes "IsAbs (dirs_State d)" "plain name \<or> name = []"
  shows "IsAbs (StateInstance d name)"
    "comps (StateInstance d name) = comps (dirs_State d) @ [''state'', if name = [] then ''default'' else name]"
  using assms by (auto simp: StateInstance_def)

text \<open>Two instances with different plain names have different, unnested state
  directories, both inside the state base directory.\<close>

theorem state_instances_disjoint:
  assumes "IsAbs (dirs_State d)" "plain n" "plain m" "n \<noteq> m"
  shows "under (dirs_State d) (StateInstance d n) \<and> \<not> under (StateInstance d n) (StateInstance d m)"
  using assms StateInstance_plain(2) [of d n] StateInstance_plain(2) [of d m]
  by (auto simp: under_def plain_def)

theorem state_instances_disjoint_witness:
  "under ''/s'' (StateInstance \<lparr>dirs_Cache = ''/c'', dirs_State = ''/s''\<rparr> ''a'') \<and>
   \<not> under (StateInstance \<lparr>dirs_Cache = ''/c'', dirs_State = ''/s''\<rparr> ''a'')
      (StateInstance \<lparr>dirs_Cache = ''/c'', dirs_State = ''/s''\<rparr> ''b'')"
  using state_instances_disjoint [of "\<lparr>dirs_Cache = ''/c'', dirs_State = ''/s''\<rparr>" "''a''" "''b''"]
  by (simp add: IsAbs_def plain_def)

lemma state_instance_escapes:
  "StateInstance \<lparr>dirs_Cache = ''/c'', dirs_State = ''/w/.state''\<rparr> ''../..'' = ''/w''"
  by (simp add: StateInstance_def JoinPath_def Clean_def IsAbs_def Split_def Let_def)

end
