(* ===== verification/Go_Sha256.thy ===== *)
theory Go_Sha256
  imports Go_Strings
begin

text \<open>
  Go's \<open>crypto/sha256\<close> (FIPS 180-4) over byte strings: padding, message schedule and
  the 64-round compression on 32-bit words, and the lower-case hex digest the program
  compares. The component proofs use only that it is a function with 64 hex digits.
\<close>

unbundle bit_operations_syntax

type_synonym w32 = "32 word"

text \<open>The constants are the first 32 bits of the fractional parts of the cube roots of the
  first 64 primes and of the square roots of the first eight; the roots are computed bit by
  bit.\<close>

definition sha_primes :: "int list" where
  "sha_primes = filter (\<lambda>p. list_all (\<lambda>d. p mod d \<noteq> 0) [2..p - 1]) [2..311]"

fun root_bits :: "nat \<Rightarrow> int \<Rightarrow> nat \<Rightarrow> int \<Rightarrow> int" where
  "root_bits n m 0 r = r"
| "root_bits n m (Suc k) r = (let r' = r + 2 ^ k in root_bits n m k (if r' ^ n \<le> m then r' else r))"

definition frac_root :: "nat \<Rightarrow> int \<Rightarrow> w32" where
  "frac_root n p = word_of_int (root_bits n (p * 2 ^ (32 * n)) 36 0)"

definition sha_k :: "w32 list" where
  "sha_k = map (frac_root 3) sha_primes"

definition sha_init :: "w32 list" where
  "sha_init = map (frac_root 2) [2, 3, 5, 7, 11, 13, 17, 19]"

definition rotr :: "nat \<Rightarrow> w32 \<Rightarrow> w32" where
  "rotr n x = word_rotr n x"

text \<open>The \<open>n\<close> low bytes of a number, most significant first.\<close>

fun be_bytes :: "nat \<Rightarrow> int \<Rightarrow> int list" where
  "be_bytes 0 x = []"
| "be_bytes (Suc n) x = be_bytes n (x div 256) @ [x mod 256]"

definition sha_pad :: "int list \<Rightarrow> int list" where
  "sha_pad m = (let l = int (length m)
     in m @ [128] @ replicate (nat ((119 - l mod 64) mod 64)) 0 @ be_bytes 8 (8 * l))"

fun chunks :: "nat \<Rightarrow> nat \<Rightarrow> 'a list \<Rightarrow> 'a list list" where
  "chunks n 0 xs = []"
| "chunks n (Suc k) xs = (if xs = [] then [] else take n xs # chunks n k (drop n xs))"

definition be_word :: "int list \<Rightarrow> w32" where
  "be_word bs = word_of_int (foldl (\<lambda>acc b. 256 * acc + b) 0 bs)"

text \<open>The schedule, newest word first.\<close>

definition sched_step :: "w32 list \<Rightarrow> w32 list" where
  "sched_step ws =
     (let w15 = ws ! 14; w2 = ws ! 1;
          s0 = rotr 7 w15 XOR rotr 18 w15 XOR drop_bit 3 w15;
          s1 = rotr 17 w2 XOR rotr 19 w2 XOR drop_bit 10 w2
      in (ws ! 15 + s0 + ws ! 6 + s1) # ws)"

definition schedule :: "int list \<Rightarrow> w32 list" where
  "schedule block = rev ((sched_step ^^ 48) (rev (map be_word (chunks 4 16 block))))"

definition sha_round :: "w32 list \<Rightarrow> w32 \<times> w32 \<Rightarrow> w32 list" where
  "sha_round st kw =
     (case (st, kw) of ([a, b, c, d, e, f, g, h], (k, w)) \<Rightarrow>
        (let s1 = rotr 6 e XOR rotr 11 e XOR rotr 25 e;
             ch = (e AND f) XOR (NOT e AND g);
             t1 = h + s1 + ch + k + w;
             s0 = rotr 2 a XOR rotr 13 a XOR rotr 22 a;
             maj = (a AND b) XOR (a AND c) XOR (b AND c);
             t2 = s0 + maj
         in [t1 + t2, a, b, c, d + t1, e, f, g])
      | _ \<Rightarrow> st)"

definition compress :: "w32 list \<Rightarrow> int list \<Rightarrow> w32 list" where
  "compress h block = map2 (+) h (foldl sha_round h (zip sha_k (schedule block)))"

definition sha256_words :: "int list \<Rightarrow> w32 list" where
  "sha256_words m = (let p = sha_pad m in foldl compress sha_init (chunks 64 (length p) p))"

definition sha256_sum :: "string \<Rightarrow> string" where
  "sha256_sum s = concat (map (\<lambda>w. map char_of (be_bytes 4 (uint w))) (sha256_words (map of_char s)))"

definition sha256_hex :: "string \<Rightarrow> string" where
  "sha256_hex s = hex_encode (sha256_sum s)"

lemma length_be_bytes [simp]: "length (be_bytes n x) = n"
  by (induction n arbitrary: x) simp_all

lemma length_sha_round [simp]: "length (sha_round st kw) = length st"
  by (auto simp: sha_round_def Let_def split: prod.split list.split)

lemma length_foldl_round [simp]: "length (foldl sha_round st kws) = length st"
  by (induction kws arbitrary: st) simp_all

lemma length_compress [simp]: "length (compress h b) = length h"
  by (simp add: compress_def)

lemma length_foldl_compress [simp]: "length (foldl compress h bs) = length h"
  by (induction bs arbitrary: h) simp_all

lemma length_sha256_words [simp]: "length (sha256_words m) = 8"
  by (simp add: sha256_words_def Let_def sha_init_def)

lemma length_sha256_sum [simp]: "length (sha256_sum s) = 32"
proof -
  have "length (concat (map (\<lambda>w. map char_of (be_bytes 4 (uint w))) ws)) = 4 * length ws"
    for ws :: "w32 list"
    by (induction ws) simp_all
  then show ?thesis unfolding sha256_sum_def
    by (metis length_sha256_words mult_numeral_left_semiring_numeral numeral_Bit0 numeral_times_numeral
        numerals(1) semiring_norm)
qed

lemma length_sha256_hex [simp]: "length (sha256_hex s) = 64"
  by (simp add: sha256_hex_def)

lemma sha256_hex_decode: "hex_decode (sha256_hex s) = Some (sha256_sum s)"
  by (simp add: sha256_hex_def hex_decode_encode)

lemma sha256_hex_nonempty [simp]: "sha256_hex s \<noteq> []"
  by (metis length_sha256_hex list.size(3) zero_neq_numeral)

end
