(* ===== verification/Blob_Cache.thy ===== *)
theory Blob_Cache
  imports Go_OS Go_Sha256
begin

text \<open>
  Package \<open>internal/cache\<close>: the content-addressed blob store. \<open>splitDigest\<close>,
  \<open>BlobPath\<close>, \<open>Has\<close>, \<open>PutStream\<close> and \<open>Verify\<close> follow \<open>cache.go\<close>; the
  store's invariant says that every committed blob hashes to its name, and the locale
  \<open>blob_store\<close> is the contract the OCI puller relies on.
\<close>

section \<open>The store\<close>

record cache =
  Root :: string

definition New_cache :: "string \<Rightarrow> cache io" where
  "New_cache root =
     (if root = [] then fail_io (Errorf ''cache root must not be empty'' [])
      else bind_io (wrap_io ''create cache: %w'' [] (os_mkdir_all (JoinPath [root, ''blobs'']))) (\<lambda>_.
        return_io \<lparr>Root = root\<rparr>))"

definition splitDigest :: "string \<Rightarrow> (string \<times> string) result" where
  "splitDigest digest = (case Cut CHR '':'' digest of (algo, hexpart, ok) \<Rightarrow>
     if \<not> ok \<or> algo = [] \<or> hexpart = []
     then Inl (Errorf ''invalid digest %q (want algo:hex)'' [digest])
     else (case hex_decode hexpart of
             None \<Rightarrow> Inl (Errorf ''invalid digest hex %q: %w'' [digest])
           | Some bs \<Rightarrow> Inr (algo, hexpart)))"

definition BlobPath :: "cache \<Rightarrow> string \<Rightarrow> string result" where
  "BlobPath c digest = bind_res (splitDigest digest) (\<lambda>(algo, hexpart).
     Inr (JoinPath [Root c, ''blobs'', algo, hexpart]))"

definition Has :: "cache \<Rightarrow> string \<Rightarrow> bool io" where
  "Has c digest = (case BlobPath c digest of
     Inl e \<Rightarrow> return_io False
   | Inr p \<Rightarrow> catch_io (os_stat p) (\<lambda>r. return_io (case r of
       Inr (File b) \<Rightarrow> True | _ \<Rightarrow> False)))"

text \<open>\<open>PutStream\<close> in two parts. Writing: the bytes go to the temporary file and, through
  \<open>io.MultiWriter\<close>, to the hash; the file is closed, the hash compared, the file renamed.\<close>

definition put_body :: "string \<Rightarrow> string \<Rightarrow> string \<Rightarrow> reader \<Rightarrow> string io" where
  "put_body tmpName final wantHex r =
     bind_io (wrap_io ''write blob: %w'' [] (io_copy tmpName r)) (\<lambda>_.
     bind_io (os_close tmpName) (\<lambda>_.
     let gotHex = sha256_hex (fst r) in
     if gotHex \<noteq> wantHex
     then fail_io (Errorf ''digest mismatch: want sha256:%s got sha256:%s'' [wantHex, gotHex])
     else bind_io (wrap_io ''commit blob: %w'' [] (os_rename tmpName final)) (\<lambda>_.
       return_io final)))"

definition PutStream :: "cache \<Rightarrow> string \<Rightarrow> reader \<Rightarrow> string io" where
  "PutStream c digest r = bind_io (lift_res (splitDigest digest)) (\<lambda>(algo, wantHex).
     if algo \<noteq> ''sha256''
     then fail_io (Errorf ''unsupported digest algorithm %q (only sha256)'' [algo])
     else bind_io (lift_res (BlobPath c digest)) (\<lambda>final.
       bind_io (Has c digest) (\<lambda>present.
       if present then return_io final
       else bind_io (os_mkdir_all (Dir final)) (\<lambda>_.
         bind_io (os_create_temp (Dir final) ''.tmp-'' []) (\<lambda>tmpName.
         defer_io (os_remove tmpName) (put_body tmpName final wantHex r))))))"

definition Verify :: "cache \<Rightarrow> string \<Rightarrow> unit io" where
  "Verify c digest = bind_io (lift_res (BlobPath c digest)) (\<lambda>p.
     bind_io (lift_res (splitDigest digest)) (\<lambda>(_, wantHex).
     bind_io (os_read p) (\<lambda>b.
     let got = sha256_hex b in
     if got \<noteq> wantHex then fail_io (Errorf ''blob %s corrupt: got sha256:%s'' [digest, got])
     else return_io ())))"

section \<open>Digests and paths\<close>

lemma splitDigest_ok:
  "splitDigest d = Inr (a, h) \<longleftrightarrow>
   d = a @ '':'' @ h \<and> CHR '':'' \<notin> set a \<and> a \<noteq> [] \<and> h \<noteq> [] \<and> hex_decode h \<noteq> None"
proof
  assume s: "splitDigest d = Inr (a, h)"
  then have "Cut CHR '':'' d = (a, h, True)" "a \<noteq> []" "h \<noteq> []" "hex_decode h \<noteq> None"
    by (auto simp: splitDigest_def split: prod.splits if_splits option.splits)
  then show "d = a @ '':'' @ h \<and> CHR '':'' \<notin> set a \<and> a \<noteq> [] \<and> h \<noteq> [] \<and> hex_decode h \<noteq> None"
    by (simp add: Cut_found)
next
  assume r: "d = a @ '':'' @ h \<and> CHR '':'' \<notin> set a \<and> a \<noteq> [] \<and> h \<noteq> [] \<and> hex_decode h \<noteq> None"
  then have "Cut CHR '':'' d = (a, h, True)" by (simp add: Cut_found)
  with r show "splitDigest d = Inr (a, h)" by (auto simp: splitDigest_def)
qed

text \<open>The digest of a byte string, \<open>sha256:<hex>\<close>.\<close>

definition digest_of :: "string \<Rightarrow> string" where
  "digest_of b = ''sha256:'' @ sha256_hex b"

lemma splitDigest_sha256 [simp]: "splitDigest (digest_of b) = Inr (''sha256'', sha256_hex b)"
  unfolding splitDigest_ok by (simp add: sha256_hex_decode digest_of_def)

lemma splitDigest_digest_of: "splitDigest d = Inr (''sha256'', sha256_hex b) \<Longrightarrow> d = digest_of b"
  by (simp add: splitDigest_ok digest_of_def)

lemma splitDigest_algo:
  assumes "prefix ''sha256:'' d" "splitDigest d = Inr (a, h)"
  shows "a = ''sha256''"
proof -
  from assms(1) obtain z where d: "d = ''sha256'' @ CHR '':'' # z" by (auto simp: prefix_def)
  have "Cut CHR '':'' d = (''sha256'', z, True)" unfolding d by (rule Cut_append) simp
  moreover have "Cut CHR '':'' d = (a, h, True)" using assms(2) by (simp add: splitDigest_ok Cut_append)
  ultimately show ?thesis by simp
qed

definition blob_cell :: "cache \<Rightarrow> string \<Rightarrow> fpath" where
  "blob_cell c h = comps (Root c) @ [''blobs'', ''sha256'', h]"

lemma plain_names [simp]: "plain ''blobs''" "plain ''sha256''"
  by (simp_all add: plain_def)

lemma BlobPath_sha256:
  assumes "splitDigest d = Inr (''sha256'', h)"
  shows "BlobPath c d = Inr (JoinPath [Root c, ''blobs'', ''sha256'', h])"
  using assms by (simp add: BlobPath_def)

lemma plain_hexpart: "splitDigest d = Inr (a, h) \<Longrightarrow> plain h"
  unfolding splitDigest_ok using plain_hex by blast

lemma blob_paths:
  assumes "IsAbs (Root c)" "splitDigest d = Inr (''sha256'', h)"
  defines "p \<equiv> JoinPath [Root c, ''blobs'', ''sha256'', h]"
  shows "IsAbs p" "comps p = blob_cell c h"
    "IsAbs (Dir p)" "comps (Dir p) = comps (Root c) @ [''blobs'', ''sha256'']"
  using assms Dir_JoinPath [of "Root c" "[''blobs'', ''sha256'']" h] plain_hexpart [OF assms(2)]
  by (simp_all add: blob_cell_def)

section \<open>The invariant\<close>

text \<open>Every regular file under \<open>blobs/sha256\<close> that is not a temporary one has the name
  its content hashes to.\<close>

definition cache_ok :: "cache \<Rightarrow> os \<Rightarrow> bool" where
  "cache_ok c w \<longleftrightarrow> IsAbs (Root c) \<and>
     (\<forall>h b. node_at (files w) (blob_cell c h) = Some (File b) \<longrightarrow>
        prefix ''.tmp-'' h \<or> sha256_hex b = h)"

lemma cache_okD:
  "cache_ok c w \<Longrightarrow> node_at (files w) (blob_cell c h) = Some (File b) \<Longrightarrow>
   \<not> prefix ''.tmp-'' h \<Longrightarrow> sha256_hex b = h"
  by (auto simp: cache_ok_def)

lemma hexpart_not_tmp: "splitDigest d = Inr (a, h) \<Longrightarrow> \<not> prefix ''.tmp-'' h"
proof
  assume "splitDigest d = Inr (a, h)" "prefix ''.tmp-'' h"
  then obtain bs where "hex_decode h = Some bs" "CHR ''.'' \<in> set h"
    by (auto simp: splitDigest_ok prefix_def)
  then show False using hex_decode_chars hex_val_special by metis
qed

lemma blob_cell_inj [simp]: "blob_cell c h = blob_cell c h' \<longleftrightarrow> h = h'"
  by (simp add: blob_cell_def)

section \<open>Has\<close>

lemma Has_files: "Has c d w = (r, w') \<Longrightarrow> files w' = files w \<and> frame w {} w'"
  by (auto simp: Has_def io_simps split: sum.splits prod.splits
      dest: os_stat_files os_stat_frame)

lemma Has_total: "\<exists>b w'. Has c d w = (Inr b, w')"
  by (auto simp: Has_def io_simps split: sum.splits prod.splits)

lemma Has_true:
  assumes "Has c d w = (Inr True, w')"
  shows "\<exists>p b. BlobPath c d = Inr p \<and> node_at (files w) (resolve w p) = Some (File b)"
  using assms
  by (auto simp: Has_def io_simps split: sum.splits prod.splits node.splits dest!: os_stat_ok)

lemma Has_no_fault:
  assumes "faults w = []"
  shows "Has c d w = (Inr (\<exists>p b. BlobPath c d = Inr p \<and> node_at (files w) (resolve w p) = Some (File b)), w)"
  using assms
  by (auto simp: Has_def io_simps os_stat_def syscall_def draw_def split: sum.splits option.splits node.splits)


section \<open>PutStream\<close>

text \<open>Two hosts hold the same committed blobs (temporary files may differ).\<close>

definition same_blobs :: "cache \<Rightarrow> os \<Rightarrow> os \<Rightarrow> bool" where
  "same_blobs c w w' \<longleftrightarrow> (\<forall>h b. \<not> prefix ''.tmp-'' h \<longrightarrow>
     (node_at (files w') (blob_cell c h) = Some (File b) \<longleftrightarrow>
      node_at (files w) (blob_cell c h) = Some (File b)))"

lemma same_blobs_refl [simp]: "same_blobs c w w"
  by (simp add: same_blobs_def)

lemma same_blobs_trans: "same_blobs c w w' \<Longrightarrow> same_blobs c w' w'' \<Longrightarrow> same_blobs c w w''"
  by (simp add: same_blobs_def)

lemma same_blobs_frame:
  "frame w S w' \<Longrightarrow> (\<And>h. \<not> prefix ''.tmp-'' h \<Longrightarrow> blob_cell c h \<notin> S) \<Longrightarrow> same_blobs c w w'"
  by (simp add: same_blobs_def frame_def)

lemma same_blobs_files: "files w' = files w \<Longrightarrow> same_blobs c w w'"
  by (simp add: same_blobs_def)

lemma same_blobs_mkdir: "os_mkdir_all p w = (r, w') \<Longrightarrow> same_blobs c w w'"
  by (simp add: same_blobs_def os_mkdir_all_file)

lemma same_blobs_tmp:
  "frame w {blob_cell c t} w' \<Longrightarrow> prefix ''.tmp-'' t \<Longrightarrow> same_blobs c w w'"
  by (erule same_blobs_frame) auto

lemma put_body_ok:
  assumes "put_body tmpName final wantHex r w = (Inr p, w')"
  obtains w1 w2 u1 u2 u3 where "io_copy tmpName r w = (Inr u1, w1)" "os_close tmpName w1 = (Inr u2, w2)"
    "sha256_hex (fst r) = wantHex" "os_rename tmpName final w2 = (Inr u3, w')" "p = final"
  using assms unfolding put_body_def
  by (auto simp: bind_io_ok wrap_io_ok Let_def split: if_splits)

lemma put_body_frame_err:
  assumes "put_body tmpName final wantHex r w = (Inl e, w')"
  shows "frame w {resolve w tmpName} w'"
proof -
  obtain x1 w1 where c: "io_copy tmpName r w = (x1, w1)" by (cases "io_copy tmpName r w")
  have f1: "frame w {resolve w tmpName} w1" by (rule io_copy_frame [OF c])
  obtain x2 w2 where cl: "os_close tmpName w1 = (x2, w2)" by (cases "os_close tmpName w1")
  have f2: "frame w1 {resolve w tmpName} w2" by (rule os_close_frame [OF cl])
  obtain x3 w3 where rn: "os_rename tmpName final w2 = (x3, w3)" by (cases "os_rename tmpName final w2")
  have f3: "frame w2 {resolve w tmpName} w3" if "x3 = Inl e'" for e'
    using os_rename_frame [OF rn] os_rename_err rn that by (simp add: frame_def)
  have "w' \<in> {w1, w2} \<or> (w' = w3 \<and> (\<exists>e'. x3 = Inl e'))"
    using assms c cl rn
    by (cases x3) (auto simp: put_body_def io_simps Let_def split: sum.splits if_splits)
  then show ?thesis using f1 frame_comp [OF f1 f2] frame_comp [OF frame_comp [OF f1 f2] f3] by auto
qed

lemma PutStream_steps:
  assumes "splitDigest d = Inr (''sha256'', h)" "PutStream c d r w = (x, w')"
  defines "final \<equiv> JoinPath [Root c, ''blobs'', ''sha256'', h]"
  obtains
    (present) "Has c d w = (Inr True, w')" "x = Inr final"
  | (no_dir) w1 e where "Has c d w = (Inr False, w1)" "os_mkdir_all (Dir final) w1 = (Inl e, w')" "x = Inl e"
  | (no_tmp) w1 w2 e u where "Has c d w = (Inr False, w1)" "os_mkdir_all (Dir final) w1 = (Inr u, w2)"
      "os_create_temp (Dir final) ''.tmp-'' [] w2 = (Inl e, w')" "x = Inl e"
  | (body) w1 w2 w3 w4 u y tmp where "Has c d w = (Inr False, w1)" "os_mkdir_all (Dir final) w1 = (Inr u, w2)"
      "os_create_temp (Dir final) ''.tmp-'' [] w2 = (Inr tmp, w3)" "put_body tmp final h r w3 = (x, w4)"
      "os_remove tmp w4 = (y, w')"
proof -
  obtain b w1 where h: "Has c d w = (Inr b, w1)" using Has_total by blast
  show thesis
  proof (cases b)
    case True
    with assms h present show ?thesis
      by (auto simp: PutStream_def io_simps BlobPath_sha256)
  next
    case False
    obtain y2 w2 where m: "os_mkdir_all (Dir final) w1 = (y2, w2)" by (cases "os_mkdir_all (Dir final) w1")
    show ?thesis
    proof (cases y2)
      case (Inl e)
      with False assms h m no_dir show ?thesis
        by (auto simp: PutStream_def io_simps BlobPath_sha256)
    next
      case (Inr u)
      obtain y3 w3 where t: "os_create_temp (Dir final) ''.tmp-'' [] w2 = (y3, w3)"
        by (cases "os_create_temp (Dir final) ''.tmp-'' [] w2")
      show ?thesis
      proof (cases y3)
        case (Inl e)
        with Inr False assms h m t no_tmp show ?thesis
          by (auto simp: PutStream_def io_simps BlobPath_sha256)
      next
        case (Inr tmp)
        obtain y4 w4 where pb: "put_body tmp final h r w3 = (y4, w4)" by (cases "put_body tmp final h r w3")
        have "PutStream c d r w = (y4, snd (os_remove tmp w4))"
          using False assms(1) h m \<open>y2 = Inr u\<close> t Inr pb
          by (simp add: PutStream_def BlobPath_sha256 bind_io_apply [of _ _ w]
              bind_io_apply [of _ _ w1] bind_io_apply [of _ _ w2] defer_io_apply final_def)
        then show ?thesis
          using body [OF _ _ _ _, of w1 u w2 tmp w3 w4] False assms(2) h m t pb \<open>y2 = Inr u\<close> Inr
          by (cases "os_remove tmp w4") auto
      qed
    qed
  qed
qed

text \<open>The effect of a \<open>PutStream\<close> on the committed blobs: nothing, or exactly the blob
  named by the digest, with the reader's bytes, which hash to it.\<close>

text \<open>A body that succeeds: the hash was compared, the other blobs are as they were, and the
  blob's cell holds the bytes of the reader.\<close>

lemma put_body_effect:
  assumes "put_body tmp final h r w3 = (Inr p, w4)" "IsAbs tmp" "comps tmp = blob_cell c t" "IsAbs final"
    "comps final = blob_cell c h" "prefix ''.tmp-'' t" "node_at (files w3) (blob_cell c t) = Some (File [])"
  shows "p = final \<and> sha256_hex (fst r) = h \<and> snd r = None \<and>
    node_at (files w4) (blob_cell c h) = Some (File (fst r)) \<and>
    (\<exists>w6. same_blobs c w3 w6 \<and> (\<forall>h'. \<not> prefix ''.tmp-'' h' \<longrightarrow> h' \<noteq> h \<longrightarrow>
       node_at (files w4) (blob_cell c h') = node_at (files w6) (blob_cell c h')))"
proof -
  note res = resolve_abs [OF assms(2)] resolve_abs [OF assms(4)]
  obtain w5 w6 u1 u2 u3 where st: "io_copy tmp r w3 = (Inr u1, w5)" "os_close tmp w5 = (Inr u2, w6)"
    "sha256_hex (fst r) = h" "os_rename tmp final w6 = (Inr u3, w4)" "p = final"
    using assms(1) by (rule put_body_ok)
  have w5: "node_at (files w5) (blob_cell c t) = Some (File (fst r))" "snd r = None"
    using io_copy_ok [OF st(1)] assms(7) by (auto simp: res assms(3))
  have s6: "same_blobs c w3 w6"
    using io_copy_frame [OF st(1)] os_close_frame [OF st(2), of "{}"] assms(6)
    by (auto simp: res assms(3) intro: same_blobs_trans same_blobs_tmp same_blobs_frame)
  have w6: "node_at (files w6) (blob_cell c t) = Some (File (fst r))"
    using frame_node [OF os_close_frame [OF st(2), of "{}"]] w5 by simp
  have w4: "node_at (files w4) (blob_cell c h) = Some (File (fst r))"
    using os_rename_ok [OF st(4), of "[]"] w6 by (simp add: res assms(3,5))
  have "node_at (files w4) (blob_cell c h') = node_at (files w6) (blob_cell c h')"
    if "\<not> prefix ''.tmp-'' h'" "h' \<noteq> h" for h'
  proof (rule frame_node [OF os_rename_frame [OF st(4)]])
    show "blob_cell c h' \<notin> {x. prefix (resolve w6 tmp) x \<or> prefix (resolve w6 final) x}"
      using that assms(6) by (auto simp: res assms(3,5)) (auto simp: blob_cell_def)
  qed
  with st(3,5) w5(2) w4 s6 show ?thesis by blast
qed

lemma PutStream_effect:
  assumes "IsAbs (Root c)" "splitDigest d = Inr (''sha256'', h)" "PutStream c d r w = (x, w')"
  shows "(same_blobs c w w' \<and> (\<forall>p. x = Inr p \<longrightarrow> p = JoinPath [Root c, ''blobs'', ''sha256'', h] \<and>
            (\<exists>b. node_at (files w') (blob_cell c h) = Some (File b)))) \<or>
         (x = Inr (JoinPath [Root c, ''blobs'', ''sha256'', h]) \<and> sha256_hex (fst r) = h \<and> snd r = None \<and>
          node_at (files w') (blob_cell c h) = Some (File (fst r)) \<and>
          (\<forall>h' b. \<not> prefix ''.tmp-'' h' \<longrightarrow> h' \<noteq> h \<longrightarrow>
             (node_at (files w') (blob_cell c h') = Some (File b) \<longleftrightarrow>
              node_at (files w) (blob_cell c h') = Some (File b))))"
  using assms(2,3)
proof (cases rule: PutStream_steps)
  case present
  from Has_true [OF present(1)] Has_files [OF present(1)] present(2) show ?thesis
    using blob_paths [OF assms(1,2)] BlobPath_sha256 [OF assms(2)]
    by (auto simp: resolve_abs same_blobs_files)
next
  case no_dir
  then show ?thesis
    using same_blobs_trans [OF same_blobs_files same_blobs_mkdir] Has_files by blast
next
  case (no_tmp w1 w2 e u)
  have "same_blobs c w2 w'"
    using os_create_temp_frame [OF no_tmp(3)] by (auto intro: same_blobs_frame)
  with no_tmp show ?thesis
    using same_blobs_trans [OF same_blobs_trans [OF same_blobs_files same_blobs_mkdir]] Has_files by blast
next
  case (body w1 w2 w3 w4 u y tmp)
  define final where "final = JoinPath [Root c, ''blobs'', ''sha256'', h]"
  note paths = blob_paths [OF assms(1,2)]
  have s2: "same_blobs c w w2"
    using same_blobs_trans [OF same_blobs_files same_blobs_mkdir] Has_files body(1,2) by blast
  from os_create_temp_ok [OF body(3)] obtain n where
    tmp: "tmp = JoinPath [Dir final, ''.tmp-'' @ nat_str n]"
    and fresh: "node_at (files w3) (resolve w2 tmp) = Some (File [])" by (auto simp: final_def)
  define t where "t = ''.tmp-'' @ nat_str n"
  have t: "prefix ''.tmp-'' t" "plain t"
    using plain_prefix_digits [of "''.tmp-''" "[]" n] by (auto simp: t_def)
  have tmp_abs: "IsAbs tmp" and tmp_cell: "comps tmp = blob_cell c t"
    using paths(3,4) t(2) by (simp_all add: tmp t_def final_def blob_cell_def)
  note res = resolve_abs [OF tmp_abs] resolve_abs [OF paths(1), folded final_def]
  have cell: "comps final = blob_cell c h" using paths(2) by (simp add: final_def)
  have s3: "same_blobs c w2 w3"
    using os_create_temp_frame [OF body(3)] t(1) by (auto simp: res tmp_cell intro: same_blobs_tmp)
  have rm: "frame w4 {blob_cell c t} w'"
    using os_remove_frame [OF body(5)] by (simp add: res tmp_cell)
  then have s5: "same_blobs c w4 w'" using t(1) by (rule same_blobs_tmp)
  show ?thesis
  proof (cases x)
    case (Inl e)
    with body(4) have "frame w3 {blob_cell c t} w4"
      using put_body_frame_err by (fastforce simp: res tmp_cell)
    then have "same_blobs c w3 w4" using t(1) by (rule same_blobs_tmp)
    with s2 s3 s5 Inl show ?thesis by (meson same_blobs_trans sum.distinct(1))
  next
    case (Inr p)
    with body(4) have ok: "put_body tmp final h r w3 = (Inr p, w4)" by (simp add: final_def)
    from put_body_effect [OF ok tmp_abs tmp_cell _ cell t(1)] fresh paths(1) obtain w6 where
      st: "p = final" "sha256_hex (fst r) = h" "snd r = None" "node_at (files w4) (blob_cell c h) = Some (File (fst r))"
      and s6: "same_blobs c w3 w6"
      and others: "\<And>h'. \<not> prefix ''.tmp-'' h' \<Longrightarrow> h' \<noteq> h \<Longrightarrow>
         node_at (files w4) (blob_cell c h') = node_at (files w6) (blob_cell c h')"
      by (auto simp: res tmp_cell final_def)
    have w': "node_at (files w') (blob_cell c h) = Some (File (fst r))"
      using s5 st(4) hexpart_not_tmp [OF assms(2)] by (simp add: same_blobs_def)
    have "same_blobs c w w6" using s2 s3 s6 by (meson same_blobs_trans)
    then have "\<forall>h' b. \<not> prefix ''.tmp-'' h' \<longrightarrow> h' \<noteq> h \<longrightarrow>
       (node_at (files w') (blob_cell c h') = Some (File b) \<longleftrightarrow>
        node_at (files w) (blob_cell c h') = Some (File b))"
      using s5 others by (simp add: same_blobs_def)
    with w' Inr st show ?thesis by (simp add: final_def)
  qed
qed

lemma PutStream_other_algo:
  assumes "\<And>h. splitDigest d \<noteq> Inr (''sha256'', h)"
  shows "\<exists>e. PutStream c d r w = (Inl e, w)"
proof (cases "splitDigest d")
  case (Inl e)
  then show ?thesis by (simp add: PutStream_def io_simps)
next
  case (Inr ah)
  obtain a h where "ah = (a, h)" by (cases ah)
  with Inr assms [of h] have "splitDigest d = Inr (a, h)" "a \<noteq> ''sha256''" by auto
  then show ?thesis by (simp add: PutStream_def io_simps)
qed

lemma PutStream_keeps_cache_ok:
  assumes "cache_ok c w" "PutStream c d r w = (x, w')"
  shows "cache_ok c w'"
proof (cases "\<exists>h. splitDigest d = Inr (''sha256'', h)")
  case True
  then obtain h where h: "splitDigest d = Inr (''sha256'', h)" by blast
  have a: "IsAbs (Root c)" using assms(1) by (simp add: cache_ok_def)
  from PutStream_effect [OF a h assms(2)] show ?thesis
  proof (elim disjE conjE)
    assume "same_blobs c w w'"
    with assms(1) show ?thesis by (auto simp: cache_ok_def same_blobs_def)
  next
    assume e: "sha256_hex (fst r) = h" "node_at (files w') (blob_cell c h) = Some (File (fst r))"
      "\<forall>h' b. \<not> prefix ''.tmp-'' h' \<longrightarrow> h' \<noteq> h \<longrightarrow>
         (node_at (files w') (blob_cell c h') = Some (File b) \<longleftrightarrow>
          node_at (files w) (blob_cell c h') = Some (File b))"
    show ?thesis
      unfolding cache_ok_def
    proof (intro conjI a allI impI)
      fix h' b
      assume n: "node_at (files w') (blob_cell c h') = Some (File b)"
      show "prefix ''.tmp-'' h' \<or> sha256_hex b = h'"
        using e n cache_okD [OF assms(1), of h' b] by (cases "h' = h") auto
    qed
  qed
next
  case False
  with PutStream_other_algo [of d c r w] assms show ?thesis by auto
qed

lemma PutStream_ok:
  assumes "cache_ok c w" "PutStream c d r w = (Inr p, w')"
  shows "BlobPath c d = Inr p \<and> (\<exists>b. file_at w' p = Some b \<and> d = digest_of b)"
proof -
  obtain h where h: "splitDigest d = Inr (''sha256'', h)"
    using PutStream_other_algo [of d c r w] assms(2) by fastforce
  have a: "IsAbs (Root c)" using assms(1) by (simp add: cache_ok_def)
  note paths = blob_paths [OF a h]
  from PutStream_effect [OF a h assms(2)]
  have p: "p = JoinPath [Root c, ''blobs'', ''sha256'', h]"
    and b: "\<exists>b. node_at (files w') (blob_cell c h) = Some (File b)" by auto
  from b obtain b where b: "node_at (files w') (blob_cell c h) = Some (File b)" by blast
  with cache_okD [OF PutStream_keeps_cache_ok [OF assms] b hexpart_not_tmp [OF h]]
  have "sha256_hex b = h" by simp
  with h p b paths show ?thesis
    by (auto simp: BlobPath_sha256 file_at_Some resolve_abs splitDigest_digest_of)
qed


section \<open>A put with no faults succeeds\<close>

text \<open>The tree has room for a blob: no file where a directory is needed, no directory
  where the blob goes, and the next random name is free.\<close>

definition put_ready :: "cache \<Rightarrow> string \<Rightarrow> os \<Rightarrow> bool" where
  "put_ready c h w \<longleftrightarrow> IsAbs (Root c) \<and> faults w = [] \<and>
     list_all (\<lambda>a. node_at (files w) a \<in> {None, Some Directory}) (prefixes (comps (Root c) @ [''blobs'', ''sha256''])) \<and>
     node_at (files w) (blob_cell c h) = None \<and>
     rands w \<noteq> [] \<and> node_at (files w) (blob_cell c (''.tmp-'' @ nat_str (hd (rands w)))) = None"

lemma put_body_no_fault:
  assumes "faults w = []" "IsAbs tmp" "IsAbs final" "comps tmp = blob_cell c t" "comps final = blob_cell c h"
    "t \<noteq> h" "node_at (files w) (blob_cell c t) = Some (File [])" "node_at (files w) (blob_cell c h) = None"
    "node_at (files w) (comps (Root c) @ [''blobs'', ''sha256'']) = Some Directory"
    "snd r = None" "sha256_hex (fst r) = h"
  shows "put_body tmp final h r w =
    (Inr final, w\<lparr>files := fs_move (blob_cell c t) (blob_cell c h) (fs_append (blob_cell c t) (fst r) (files w))\<rparr>)"
proof -
  define w1 where "w1 = w\<lparr>files := fs_append (blob_cell c t) (fst r) (files w)\<rparr>"
  have res: "resolve x tmp = blob_cell c t" "resolve x final = blob_cell c h" for x
    using assms by (simp_all add: resolve_abs)
  have cp: "io_copy tmp r w = (Inr (), w1)"
    using assms res by (simp add: io_copy_def io_simps no_fault_runs w1_def)
  have f1: "faults w1 = []" using assms by (simp add: w1_def)
  have bl: "blob_cell c x \<noteq> []" "butlast (blob_cell c x) = comps (Root c) @ [''blobs'', ''sha256'']" for x
    by (simp_all add: blob_cell_def butlast_append)
  have np: "\<not> prefix (blob_cell c t) (blob_cell c h)" using assms(6) by (simp add: blob_cell_def)
  have ne: "comps (Root c) @ [''blobs'', ''sha256''] \<noteq> blob_cell c t" by (simp add: blob_cell_def)
  have "os_rename tmp final w1 = (Inr (), w1\<lparr>files := fs_move (blob_cell c t) (blob_cell c h) (files w1)\<rparr>)"
    using assms f1 res bl np ne
    by (simp add: os_rename_def syscall_def Let_def parent_ok_def w1_def)
  with assms cp f1 show ?thesis
    by (simp add: put_body_def io_simps no_fault_runs Let_def) (simp add: w1_def)
qed

lemma create_temp_no_fault:
  assumes "faults w = []" "rands w = n # ns" "IsAbs d" "plain (pre @ nat_str n @ suf)"
    "node_at (files w) (comps d @ [pre @ nat_str n @ suf]) = None"
    "parent_ok (files w) (comps d @ [pre @ nat_str n @ suf])"
  shows "os_create_temp d pre suf w = (Inr (JoinPath [d, pre @ nat_str n @ suf]),
    w\<lparr>files := fs_put (comps d @ [pre @ nat_str n @ suf]) (File []) (files w), rands := ns\<rparr>)"
  using assms by (simp add: os_create_temp_def syscall_def resolve_abs draw_def)

lemma PutStream_no_fault:
  assumes "put_ready c h w" "h = sha256_hex (fst r)" "snd r = None"
  shows "\<exists>w'. PutStream c (digest_of (fst r)) r w = (Inr (JoinPath [Root c, ''blobs'', ''sha256'', h]), w') \<and>
    file_at w' (JoinPath [Root c, ''blobs'', ''sha256'', h]) = Some (fst r)"
proof -
  let ?d = "digest_of (fst r)"
  define final where "final = JoinPath [Root c, ''blobs'', ''sha256'', h]"
  have sd: "splitDigest ?d = Inr (''sha256'', h)" using assms(2) by simp
  have a: "IsAbs (Root c)" and nf: "faults w = []" using assms(1) by (simp_all add: put_ready_def)
  obtain n ns where rs: "rands w = n # ns" using assms(1) by (cases "rands w") (auto simp: put_ready_def)
  define t where "t = ''.tmp-'' @ nat_str n"
  have t: "plain t" "t \<noteq> h"
    using plain_prefix_digits [of "''.tmp-''" "[]" n] hexpart_not_tmp [OF sd] by (auto simp: t_def)
  note paths = blob_paths [OF a sd, folded final_def]
  let ?D = "comps (Root c) @ [''blobs'', ''sha256'']"
  have bp: "BlobPath c ?d = Inr final" using BlobPath_sha256 [OF sd] by (simp add: final_def)
  have has: "Has c ?d w = (Inr False, w)"
    using Has_no_fault [OF nf, of c ?d] assms(1) paths bp by (auto simp: put_ready_def resolve_abs)
  define w2 where "w2 = w\<lparr>files := fs_mkdirs ?D (files w)\<rparr>"
  have mk: "os_mkdir_all (Dir final) w = (Inr (), w2)"
    using nf assms(1) paths by (simp add: no_fault_runs resolve_abs w2_def put_ready_def)
  define tmp where "tmp = JoinPath [Dir final, t]"
  have tmp: "IsAbs tmp" "comps tmp = blob_cell c t" using paths t by (simp_all add: tmp_def blob_cell_def)
  have nD: "\<not> prefix (blob_cell c x) ?D" for x by (simp add: blob_cell_def)
  have free: "node_at (files w2) (blob_cell c t) = None" "node_at (files w2) (blob_cell c h) = None"
    using assms(1) rs nD by (auto simp: w2_def put_ready_def t_def)
  have pk: "parent_ok (files w2) (blob_cell c t)"
    by (simp add: parent_ok_def blob_cell_def butlast_append w2_def)
  define w3 where "w3 = w2\<lparr>files := fs_put (blob_cell c t) (File []) (files w2), rands := ns\<rparr>"
  have ct: "os_create_temp (Dir final) ''.tmp-'' [] w2 = (Inr tmp, w3)"
    using create_temp_no_fault [of w2 n ns "Dir final" "''.tmp-''" "[]"] nf rs free pk paths t
    by (simp add: w3_def tmp_def t_def w2_def blob_cell_def)
  have pb: "put_body tmp final h r w3 =
    (Inr final, w3\<lparr>files := fs_move (blob_cell c t) (blob_cell c h) (fs_append (blob_cell c t) (fst r) (files w3))\<rparr>)"
    using nf tmp paths t free assms(2,3)
    by (intro put_body_no_fault) (simp_all add: w3_def w2_def blob_cell_def)
  define w4 where "w4 = w3\<lparr>files := fs_move (blob_cell c t) (blob_cell c h) (fs_append (blob_cell c t) (fst r) (files w3))\<rparr>"
  have np: "\<not> prefix (blob_cell c t) (blob_cell c h)" "blob_cell c x \<noteq> []" for x
    using t by (simp_all add: blob_cell_def)
  have n4: "node_at (files w4) (blob_cell c h) = Some (File (fst r))"
    using np by (simp add: w4_def node_at_move w3_def)
  obtain y w5 where rm: "os_remove tmp w4 = (y, w5)" by (cases "os_remove tmp w4")
  have "node_at (files w5) (blob_cell c h) = Some (File (fst r))"
    using frame_node [OF os_remove_frame [OF rm], of "blob_cell c h"] n4 t tmp
    by (simp add: resolve_abs)
  moreover have "PutStream c ?d r w = (Inr final, w5)"
    using sd bp has mk ct pb rm
    by (simp add: PutStream_def io_simps w4_def [symmetric])
  ultimately show ?thesis using paths by (auto simp: final_def [symmetric] file_at_Some resolve_abs)
qed

section \<open>The contract of a blob store\<close>

text \<open>What the OCI puller needs of its cache: under an invariant that every operation
  keeps, a hit and a successful put both give the path of a file whose content has the
  digest asked for.\<close>

locale blob_store =
  fixes has :: "string \<Rightarrow> bool io"
    and put :: "string \<Rightarrow> reader \<Rightarrow> string io"
    and path :: "string \<Rightarrow> string result"
    and inv :: "os \<Rightarrow> bool"
  assumes has_inv: "inv w \<Longrightarrow> has d w = (x, w') \<Longrightarrow> inv w'"
    and has_hit: "inv w \<Longrightarrow> prefix ''sha256:'' d \<Longrightarrow> has d w = (Inr True, w') \<Longrightarrow>
      \<exists>p b. path d = Inr p \<and> file_at w' p = Some b \<and> d = digest_of b"
    and put_inv: "inv w \<Longrightarrow> put d r w = (y, w') \<Longrightarrow> inv w'"
    and put_ok: "inv w \<Longrightarrow> put d r w = (Inr p, w') \<Longrightarrow>
      path d = Inr p \<and> (\<exists>b. file_at w' p = Some b \<and> d = digest_of b)"
begin

text \<open>Look the blob up, and fetch and put it only on a miss, then go on with its path: the
  shape of the puller's tail. The continuation always gets the path of verified content.\<close>

lemma lookup_or_put:
  assumes "inv w" "prefix ''sha256:'' d" "\<And>w x w'. inv w \<Longrightarrow> get w = (x, w') \<Longrightarrow> inv w'"
    "bind_io (has d) (\<lambda>h. if h then bind_io (lift_res (path d)) k
       else bind_io get (\<lambda>r. bind_io (wrap_io fmt args (put d r)) k)) w = (Inr y, w')"
  obtains p w1 where "inv w1" "path d = Inr p" "\<exists>b. file_at w1 p = Some b \<and> d = digest_of b"
    "k p w1 = (Inr y, w')"
proof -
  from assms(4) obtain h w1 where h: "has d w = (Inr h, w1)"
    and rest: "(if h then bind_io (lift_res (path d)) k
       else bind_io get (\<lambda>r. bind_io (wrap_io fmt args (put d r)) k)) w1 = (Inr y, w')"
    by (auto simp: bind_io_ok)
  have i1: "inv w1" using has_inv [OF assms(1) h] .
  show thesis
  proof (cases h)
    case True
    with has_hit [OF assms(1,2)] h rest i1 that show ?thesis by (auto simp: bind_io_ok)
  next
    case False
    with rest obtain r w2 p w3 where g: "get w1 = (Inr r, w2)" and p: "put d r w2 = (Inr p, w3)"
      and k: "k p w3 = (Inr y, w')"
      by (auto simp: bind_io_ok wrap_io_ok)
    have "inv w2" using assms(3) [OF i1 g] .
    with p k put_inv put_ok that show ?thesis by blast
  qed
qed

end

lemma cache_ok_files: "cache_ok c w \<Longrightarrow> files w' = files w \<Longrightarrow> cache_ok c w'"
  by (simp add: cache_ok_def)

lemma Has_hit:
  assumes "cache_ok c w" "prefix ''sha256:'' d" "Has c d w = (Inr True, w')"
  shows "\<exists>p b. BlobPath c d = Inr p \<and> file_at w' p = Some b \<and> d = digest_of b"
proof -
  from Has_true [OF assms(3)] obtain p b where p: "BlobPath c d = Inr p"
    and n: "node_at (files w) (resolve w p) = Some (File b)" by blast
  from p obtain a h where ah: "splitDigest d = Inr (a, h)" by (auto simp: BlobPath_def bind_res_eq_Inr)
  with splitDigest_algo [OF assms(2)] ah have sd: "splitDigest d = Inr (''sha256'', h)" by simp
  have a: "IsAbs (Root c)" using assms(1) by (simp add: cache_ok_def)
  note paths = blob_paths [OF a sd]
  have pe: "p = JoinPath [Root c, ''blobs'', ''sha256'', h]" using p BlobPath_sha256 [OF sd] by simp
  with n paths have nb: "node_at (files w) (blob_cell c h) = Some (File b)" by (simp add: resolve_abs)
  with cache_okD [OF assms(1) _ hexpart_not_tmp [OF sd]] have "sha256_hex b = h" by blast
  with sd have "d = digest_of b" using splitDigest_digest_of by simp
  moreover have "file_at w' p = Some b"
    using n Has_files [OF assms(3)] by (auto simp: file_at_Some dest: frame_resolve)
  ultimately show ?thesis using p by blast
qed

interpretation bc: blob_store "Has c" "PutStream c" "BlobPath c" "cache_ok c" for c
proof unfold_locales
  show "cache_ok c w \<Longrightarrow> Has c d w = (x, w') \<Longrightarrow> cache_ok c w'" for w w' d x
    using Has_files cache_ok_files by metis
  show "cache_ok c w \<Longrightarrow> PutStream c d r w = (x, w') \<Longrightarrow> cache_ok c w'" for w w' d r x
    by (rule PutStream_keeps_cache_ok)
qed (rule Has_hit PutStream_ok; assumption)+


section \<open>Properties\<close>

text \<open>C1. Integrity of the store under any reader and any pattern of I/O faults: a
  \<open>PutStream\<close> keeps the invariant that every committed blob hashes to its name; when it
  succeeds the returned path is the digest's path and holds content of that digest; when
  it fails no committed blob has appeared, changed or gone.\<close>

theorem put_stream_integrity:
  assumes "cache_ok c w" "PutStream c d r w = (x, w')"
  shows "cache_ok c w' \<and>
    (case x of Inr p \<Rightarrow> BlobPath c d = Inr p \<and> (\<exists>b. file_at w' p = Some b \<and> d = digest_of b)
     | Inl e \<Rightarrow> same_blobs c w w')"
proof (cases x)
  case (Inr p)
  with assms PutStream_keeps_cache_ok PutStream_ok show ?thesis by auto
next
  case (Inl e)
  have "same_blobs c w w'"
  proof (cases "\<exists>h. splitDigest d = Inr (''sha256'', h)")
    case True
    with PutStream_effect [of c d _ r w x w'] assms Inl show ?thesis by (auto simp: cache_ok_def)
  next
    case False
    with PutStream_other_algo [of d c r w] assms(2) show ?thesis by auto
  qed
  with Inl assms PutStream_keeps_cache_ok show ?thesis by auto
qed

definition cache0 :: cache where
  "cache0 = \<lparr>Root = ''/c''\<rparr>"

lemma cache0_ready: "put_ready cache0 (sha256_hex b) host0"
  by (simp add: put_ready_def cache0_def IsAbs_def comps_def Split_def blob_cell_def)

lemma cache0_ok: "cache_ok cache0 host0"
  by (simp add: cache_ok_def cache0_def IsAbs_def blob_cell_def)

lemma cache0_put: "\<exists>p w'. PutStream cache0 (digest_of ''hi'') (''hi'', None) host0 = (Inr p, w')"
  using PutStream_no_fault [where r = "(''hi'', None)", OF cache0_ready refl] by auto

theorem put_stream_integrity_witness:
  "\<exists>p w'. PutStream cache0 (digest_of ''hi'') (''hi'', None) host0 = (Inr p, w') \<and>
     cache_ok cache0 w' \<and> (\<exists>b. file_at w' p = Some b \<and> digest_of ''hi'' = digest_of b)"
proof -
  obtain p w' where run: "PutStream cache0 (digest_of ''hi'') (''hi'', None) host0 = (Inr p, w')"
    using cache0_put by blast
  from put_stream_integrity [OF cache0_ok run] run show ?thesis by auto
qed

text \<open>C31. Progress of the store: with no fault, room in the tree and a reader that ends with
  the bytes the digest names, \<open>PutStream\<close> succeeds and the blob's path then holds these bytes.\<close>

theorem put_stream_succeeds:
  assumes "put_ready c (sha256_hex (fst r)) w" "snd r = None"
  shows "\<exists>p w'. PutStream c (digest_of (fst r)) r w = (Inr p, w') \<and> file_at w' p = Some (fst r)"
  using PutStream_no_fault [OF assms(1) refl assms(2)] by blast

theorem put_stream_succeeds_witness:
  "\<exists>p w'. PutStream cache0 (digest_of ''hi'') (''hi'', None) host0 = (Inr p, w') \<and> file_at w' p = Some ''hi''"
  using put_stream_succeeds [where r = "(''hi'', None)", OF cache0_ready] by simp

text \<open>A stored blob verifies: after a successful put, \<open>Verify\<close> on the same digest never
  reports corruption; it can only fail with an error of the system call that reads the file.\<close>

theorem verify_after_put:
  assumes "cache_ok c w" "PutStream c d r w = (Inr p, w')" "Verify c d w' = (x, w'')"
  shows "x = Inr () \<or> (\<exists>e. x = Inl (Sys e))"
proof -
  from PutStream_ok [OF assms(1,2)] obtain b where b: "BlobPath c d = Inr p" "file_at w' p = Some b"
    "d = digest_of b" by blast
  obtain y w1 where rd: "os_read p w' = (y, w1)" by (cases "os_read p w'")
  show ?thesis
  proof (cases y)
    case (Inl e)
    moreover have "\<exists>n. e = Sys n"
      using rd Inl
      by (auto simp: os_read_def elim!: syscall_cases split: option.splits node.splits)
        (metis fault_err.cases fault_err.simps)
    ultimately show ?thesis using assms(3) rd b by (auto simp: Verify_def io_simps)
  next
    case (Inr b')
    with os_read_ok [of p w' b' w1] rd b(2) have "b' = b" by (simp add: file_at_Some)
    with assms(3) rd b Inr show ?thesis by (auto simp: Verify_def io_simps)
  qed
qed

theorem verify_after_put_witness:
  "\<exists>p w'. PutStream cache0 (digest_of ''hi'') (''hi'', None) host0 = (Inr p, w') \<and>
     (fst (Verify cache0 (digest_of ''hi'') w') = Inr () \<or>
      (\<exists>e. fst (Verify cache0 (digest_of ''hi'') w') = Inl (Sys e)))"
proof -
  obtain p w' where run: "PutStream cache0 (digest_of ''hi'') (''hi'', None) host0 = (Inr p, w')"
    using cache0_put by blast
  from verify_after_put [OF cache0_ok run, of "fst (Verify cache0 (digest_of ''hi'') w')"
      "snd (Verify cache0 (digest_of ''hi'') w')"] run
  show ?thesis by simp
qed

text \<open>C32. Where blobs live: the path of a digest whose algorithm is a plain name (as
  \<open>sha256\<close> is) lies under the store's root, in \<open>blobs/<algo>/<hex>\<close>, and no two digests
  of one algorithm share it. The algorithm itself is not checked by \<open>splitDigest\<close>: one made of \<open>..\<close> leaves the store.\<close>

theorem blob_path_contained:
  assumes "IsAbs (Root c)" "splitDigest d = Inr (a, h)" "plain a"
  shows "\<exists>p. BlobPath c d = Inr p \<and> comps p = comps (Root c) @ [''blobs'', a, h] \<and> under (Root c) p"
  using assms plain_hexpart [OF assms(2)]
  by (simp add: BlobPath_def under_def)

theorem blob_path_contained_witness:
  "\<exists>p. BlobPath cache0 (digest_of ''hi'') = Inr p \<and> under ''/c'' p"
  using blob_path_contained [of cache0 "digest_of ''hi''" "''sha256''" "sha256_hex ''hi''"]
  by (auto simp: cache0_def IsAbs_def)

lemma blob_path_escapes:
  "BlobPath cache0 ''../..:abcd'' = Inr ''/abcd'' \<and> \<not> under ''/c'' ''/abcd''"
  by (simp add: BlobPath_def splitDigest_def Cut_def hex_val_def Let_def cache0_def JoinPath_def
      Clean_def IsAbs_def Split_def under_def comps_def)

end
