(* ===== verification/Component_Ref.thy ===== *)
theory Component_Ref
  imports Go_OS
begin

text \<open>
  Package \<open>internal/component\<close>: references to VM components, their classification as
  registry references or local paths (\<open>ref.go\<close>), and the resolver that turns one into a
  local file (\<open>provider.go\<close>). The \<open>OCIFetcher\<close> interface is the locale \<open>fetcher\<close>.
\<close>

section \<open>References\<close>

datatype Kind = KindLocal | KindOCI

record Ref =
  ref_Raw :: string
  ref_Kind :: Kind
  ref_Value :: string

record Component =
  comp_Name :: string
  comp_Title :: string
  comp_Path :: string
  comp_Digest :: string

definition looksLocal :: "string \<Rightarrow> string \<Rightarrow> bool" where
  "looksLocal os s \<longleftrightarrow>
     s = [] \<or>
     HasPrefix s ''/'' \<or> HasPrefix s ''./'' \<or> HasPrefix s ''../'' \<or> HasPrefix s ''~'' \<or>
     (os = ''windows'' \<and> 3 \<le> length s \<and> s ! 1 = CHR '':'' \<and> (s ! 2 = CHR 0x5C \<or> s ! 2 = CHR ''/''))"

definition looksRegistry :: "string \<Rightarrow> bool" where
  "looksRegistry s \<longleftrightarrow> Contains s ''/'' \<or> LastIndex s CHR '':'' > 0"

definition ParseRef :: "string \<Rightarrow> Ref io" where
  "ParseRef s = (\<lambda>w.
     if HasPrefix s ''oci://''
     then return_io \<lparr>ref_Raw = s, ref_Kind = KindOCI, ref_Value = TrimPrefix s ''oci://''\<rparr> w
     else if HasPrefix s ''file://''
     then return_io \<lparr>ref_Raw = s, ref_Kind = KindLocal, ref_Value = TrimPrefix s ''file://''\<rparr> w
     else if looksLocal (goos w) s
     then return_io \<lparr>ref_Raw = s, ref_Kind = KindLocal, ref_Value = s\<rparr> w
     else catch_io (os_stat s) (\<lambda>r. return_io
       \<lparr>ref_Raw = s,
        ref_Kind = (case r of Inr n \<Rightarrow> KindLocal
                    | Inl e \<Rightarrow> if looksRegistry s then KindOCI else KindLocal),
        ref_Value = s\<rparr>) w)"

definition Abs :: "string \<Rightarrow> string io" where
  "Abs p = (\<lambda>w. return_io (AbsPath (cwd w)
     (if HasPrefix p ''~''
      then (case home w of Some h \<Rightarrow> JoinPath [h, TrimPrefix p ''~''] | None \<Rightarrow> p)
      else p)) w)"

section \<open>The resolver\<close>

type_synonym fetch = "string \<Rightarrow> string \<Rightarrow> Component io"

definition Resolve :: "fetch option \<Rightarrow> string \<Rightarrow> string \<Rightarrow> Component io" where
  "Resolve oci name ref =
     (if ref = [] then fail_io (Errorf ''%s: empty reference'' [name])
      else bind_io (ParseRef ref) (\<lambda>parsed.
        (case ref_Kind parsed of
           KindLocal \<Rightarrow>
             bind_io (wrap_io ''%s: %w'' [name] (Abs (ref_Value parsed))) (\<lambda>abs.
             bind_io (wrap_io ''%s: local path not found: %w'' [name] (os_stat abs)) (\<lambda>fi.
             return_io \<lparr>comp_Name = name, comp_Title = Base abs, comp_Path = abs, comp_Digest = []\<rparr>))
         | KindOCI \<Rightarrow>
             (case oci of
                None \<Rightarrow> fail_io (Errorf ''%s: OCI reference %q given but no OCI fetcher configured'' [name, ref])
              | Some fetch \<Rightarrow> fetch name (ref_Value parsed)))))"

section \<open>Lemmas\<close>

lemma ParseRef_total: "\<exists>r w'. ParseRef s w = (Inr r, w') \<and> files w' = files w \<and> frame w {} w' \<and>
    cwd w' = cwd w \<and> home w' = home w"
proof -
  obtain x w1 where st: "os_stat s w = (x, w1)" by (cases "os_stat s w")
  then have "cwd w1 = cwd w \<and> home w1 = home w"
    by (auto simp: os_stat_def syscall_def draw_def split: list.splits option.splits)
  with st os_stat_files [OF st] os_stat_frame [OF st, of "{}"] show ?thesis
    by (simp add: ParseRef_def io_simps)
qed

definition explicit_path :: "string \<Rightarrow> string \<Rightarrow> bool" where
  "explicit_path os s \<longleftrightarrow> HasPrefix s ''file://'' \<or> (looksLocal os s \<and> \<not> HasPrefix s ''oci://'')"

lemma ParseRef_explicit:
  "explicit_path (goos w) s \<Longrightarrow> \<exists>r. ParseRef s w = (Inr r, w) \<and> ref_Kind r = KindLocal"
  by (auto simp: ParseRef_def explicit_path_def prefix_def)

lemma AbsPath_abs: "IsAbs d \<Longrightarrow> IsAbs (AbsPath d p)"
  by (auto simp: AbsPath_def)

lemma Abs_run: "\<exists>p. Abs s w = (Inr p, w) \<and> (IsAbs (cwd w) \<longrightarrow> IsAbs p)"
  by (simp add: Abs_def AbsPath_abs)

section \<open>The fetcher's contract\<close>

text \<open>What the resolver needs of an OCI fetcher: under an invariant of the host that both
  the fetcher and a read-only call keep, a fetched component has the requested name and an
  absolute path at which there is something.\<close>

locale fetcher =
  fixes fetch :: fetch
    and inv :: "os \<Rightarrow> bool"
  assumes fetch_inv: "inv w \<Longrightarrow> fetch n r w = (x, w') \<Longrightarrow> inv w'"
    and fetch_ok: "inv w \<Longrightarrow> fetch n r w = (Inr c, w') \<Longrightarrow>
      comp_Name c = n \<and> IsAbs (comp_Path c) \<and> node_at (files w') (resolve w' (comp_Path c)) \<noteq> None"
    and readonly_inv: "inv w \<Longrightarrow> frame w {} w' \<Longrightarrow> inv w'"
begin

lemma resolve_inv:
  assumes "inv w" "Resolve (Some fetch) name ref w = (x, w')"
  shows "inv w'"
proof (cases "ref = []")
  case True
  with assms show ?thesis by (simp add: Resolve_def)
next
  case False
  obtain r w1 where p: "ParseRef ref w = (Inr r, w1)" "frame w {} w1"
    using ParseRef_total [of ref w] by blast
  have i1: "inv w1" using readonly_inv [OF assms(1) p(2)] .
  show ?thesis
  proof (cases "ref_Kind r")
    case KindOCI
    with assms(2) False p i1 fetch_inv show ?thesis by (simp add: Resolve_def io_simps)
  next
    case KindLocal
    obtain a where a: "Abs (ref_Value r) w1 = (Inr a, w1)" using Abs_run by blast
    obtain y w2 where st: "os_stat a w1 = (y, w2)" by (cases "os_stat a w1")
    have "w' = w2"
      using assms(2) False p a st KindLocal
      by (auto simp: Resolve_def io_simps split: sum.splits)
    with readonly_inv [OF i1 os_stat_frame [OF st]] show ?thesis by simp
  qed
qed

text \<open>A resolved component, local or fetched, is named as asked and exists.\<close>

lemma resolve_ok:
  assumes "inv w" "IsAbs (cwd w)" "Resolve (Some fetch) name ref w = (Inr c, w')"
  shows "comp_Name c = name \<and> IsAbs (comp_Path c) \<and> node_at (files w') (resolve w' (comp_Path c)) \<noteq> None"
proof -
  have ne: "ref \<noteq> []" using assms(3) by (auto simp: Resolve_def)
  obtain r w1 where p: "ParseRef ref w = (Inr r, w1)" "frame w {} w1" "cwd w1 = cwd w"
    using ParseRef_total [of ref w] by blast
  have i1: "inv w1" using readonly_inv [OF assms(1) p(2)] .
  show ?thesis
  proof (cases "ref_Kind r")
    case KindOCI
    with assms(3) ne p have "fetch name (ref_Value r) w1 = (Inr c, w')" by (simp add: Resolve_def io_simps)
    with fetch_ok [OF i1] show ?thesis by blast
  next
    case KindLocal
    obtain a where a: "Abs (ref_Value r) w1 = (Inr a, w1)" "IsAbs a"
      using Abs_run [of "ref_Value r" w1] assms(2) p(3) by auto
    obtain y w2 where st: "os_stat a w1 = (y, w2)" by (cases "os_stat a w1")
    have "w' = w2" "c = \<lparr>comp_Name = name, comp_Title = Base a, comp_Path = a, comp_Digest = []\<rparr>"
      and y: "\<exists>n. y = Inr n"
      using assms(3) ne p a st KindLocal
      by (auto simp: Resolve_def io_simps split: sum.splits)
    with os_stat_ok st os_stat_files [OF st] a frame_resolve [OF os_stat_frame [OF st, of "{}"]]
    show ?thesis by auto
  qed
qed

end

section \<open>Properties\<close>

text \<open>An explicit path (\<open>file://\<close>, \<open>/\<close>, \<open>./\<close>, \<open>../\<close>, \<open>~\<close>, or a drive letter on
  Windows) never reaches a registry: resolving it does not depend on the fetcher, and
  succeeds only with a component that has no digest.\<close>

theorem explicit_path_never_fetched:
  assumes "explicit_path (goos w) ref"
  shows "Resolve f name ref w = Resolve g name ref w \<and>
    (\<forall>c w'. Resolve f name ref w = (Inr c, w') \<longrightarrow> comp_Digest c = [] \<and> comp_Name c = name)"
proof -
  from ParseRef_explicit [OF assms] obtain r where r: "ParseRef ref w = (Inr r, w)" "ref_Kind r = KindLocal"
    by blast
  obtain a where a: "Abs (ref_Value r) w = (Inr a, w)" using Abs_run by blast
  obtain y w2 where st: "os_stat a w = (y, w2)" by (cases "os_stat a w")
  from r a st show ?thesis by (cases y) (auto simp: Resolve_def io_simps)
qed

theorem explicit_path_never_fetched_witness:
  "Resolve None ''kernel'' ''./vmlinuz'' host0 = Resolve (Some (\<lambda>n r. fail_io (Sys EIO))) ''kernel'' ''./vmlinuz'' host0"
  using explicit_path_never_fetched [of host0 "''./vmlinuz''" None "''kernel''" "Some (\<lambda>n r. fail_io (Sys EIO))"]
  by (simp add: explicit_path_def looksLocal_def)

text \<open>An \<open>oci://\<close> reference goes to the fetcher with its scheme stripped, without
  looking at the file system, and fails when there is no fetcher.\<close>

theorem oci_scheme_always_fetched:
  "Resolve (Some f) name (''oci://'' @ r) w = f name r w \<and>
   (\<exists>e. Resolve None name (''oci://'' @ r) w = (Inl e, w))"
  by (simp add: Resolve_def ParseRef_def io_simps TrimPrefix_def)

end
