(* ===== verification/OCI_Puller.thy ===== *)
theory OCI_Puller
  imports Blob_Cache Component_Ref
begin

text \<open>
  Package \<open>internal/oci\<close>: choosing a manifest and a payload layer (\<open>manifest.go\<close>) and
  pulling a component into the cache (\<open>pull.go\<close>). The registry (oras-go) and the JSON
  decoding of the third-party manifest types are the parameter \<open>registry\<close>, a record of
  functions; what the puller does with their answers is modelled.
\<close>

section \<open>Manifests\<close>

record ociPlatform =
  plat_Architecture :: string
  plat_OS :: string

record Descriptor =
  MediaType :: string
  desc_Digest :: string
  desc_Size :: int
  Annotations :: "(string \<times> string) list"
  desc_Platform :: "ociPlatform option"

record Manifest = Layers :: "Descriptor list"
record Index = Manifests :: "Descriptor list"

definition AnnotationTitle :: string where
  "AnnotationTitle = ''org.opencontainers.image.title''"

text \<open>Indexing a Go map gives the zero value, here the empty string, for a missing key.\<close>

definition title_of :: "Descriptor \<Rightarrow> string" where
  "title_of l = (case map_of (Annotations l) AnnotationTitle of None \<Rightarrow> [] | Some t \<Rightarrow> t)"

definition isSidecar :: "Descriptor \<Rightarrow> bool" where
  "isSidecar l \<longleftrightarrow>
     HasPrefix (MediaType l) ''text/plain'' \<or>
     Contains (MediaType l) ''provenance'' \<or>
     HasSuffix (title_of l) ''.sha256'' \<or> HasSuffix (title_of l) ''.provenance.json''"

definition expectedMediaTypes :: "(string \<times> string list) list" where
  "expectedMediaTypes =
    [(''kernel'', [''application/vnd.linux.vmlinux.v1+binary'', ''application/vnd.linux.kernel.v1+binary'']),
     (''initrd'', [''application/vnd.linux.initrd.v1+binary'']),
     (''rootfs'', [''application/vnd.linux.disk.qcow2.v1+binary'',
                   ''application/vnd.linux.disk.ext4.v1+binary'',
                   ''application/vnd.linux.rootfs.qcow2.v1+binary'',
                   ''application/vnd.linux.rootfs.ext4.v1+binary''])]"

text \<open>The fallback loop: the accumulator is \<open>best\<close>, \<open>None\<close> while \<open>found\<close> is false.\<close>

fun largest_layer :: "Descriptor option \<Rightarrow> Descriptor list \<Rightarrow> Descriptor option" where
  "largest_layer best [] = best"
| "largest_layer best (l # ls) =
     (if isSidecar l then largest_layer best ls
      else (case best of
              None \<Rightarrow> largest_layer (Some l) ls
            | Some b \<Rightarrow> if desc_Size l > desc_Size b then largest_layer (Some l) ls
                        else largest_layer best ls))"

definition expected_layer :: "string \<Rightarrow> Manifest \<Rightarrow> Descriptor option" where
  "expected_layer name m = (case map_of expectedMediaTypes name of
     None \<Rightarrow> None
   | Some want \<Rightarrow> List.find (\<lambda>l. MediaType l \<in> set want) (Layers m))"

definition selectPrimaryLayer :: "string \<Rightarrow> Manifest \<Rightarrow> Descriptor option" where
  "selectPrimaryLayer name m = (case expected_layer name m of
     Some l \<Rightarrow> Some l
   | None \<Rightarrow> largest_layer None (Layers m))"

definition platform_matches :: "string \<Rightarrow> Descriptor \<Rightarrow> bool" where
  "platform_matches arch m = (case desc_Platform m of
     None \<Rightarrow> False
   | Some p \<Rightarrow> plat_Architecture p = arch \<and> (plat_OS p = [] \<or> plat_OS p = ''linux''))"

definition selectPlatformManifest :: "Index \<Rightarrow> string \<Rightarrow> Descriptor option" where
  "selectPlatformManifest idx arch = List.find (platform_matches arch) (Manifests idx)"

definition sidecarSha256 :: "string \<Rightarrow> string" where
  "sidecarSha256 content = (case Fields content of
     [] \<Rightarrow> []
   | f # fs \<Rightarrow> (let tok = TrimSpace f in if length tok = 64 then ToLower tok else []))"

section \<open>The registry, as the program sees it\<close>

record reference =
  Registry :: string
  Repository :: string
  Reference :: string

record 'r registry =
  ParseReference :: "string \<Rightarrow> reference result"
  RefString :: "reference \<Rightarrow> string"
  NewRepository :: "string \<Rightarrow> 'r result"
  RepoResolve :: "'r \<Rightarrow> string \<Rightarrow> Descriptor result"
  RepoFetch :: "'r \<Rightarrow> Descriptor \<Rightarrow> reader result"
  ReadAll :: "reader \<Rightarrow> Descriptor \<Rightarrow> string result"
  UnmarshalIndex :: "string \<Rightarrow> Index result"
  UnmarshalManifest :: "string \<Rightarrow> Manifest result"

record Puller =
  pull_cache :: cache
  pull_arch :: string

definition New_puller :: "os \<Rightarrow> cache \<Rightarrow> string \<Rightarrow> Puller" where
  "New_puller w c arch = \<lparr>pull_cache = c, pull_arch = (if arch = [] then goarch w else arch)\<rparr>"

definition newRepository :: "'r registry \<Rightarrow> string \<Rightarrow> ('r \<times> string) result" where
  "newRepository reg ref =
     bind_res (wrap_err ''parse reference %q: %w'' [ref] (ParseReference reg ref)) (\<lambda>r.
     let r' = (if Registry r = ''docker.io'' then r\<lparr>Registry := ''registry-1.docker.io''\<rparr> else r) in
     bind_res (wrap_err ''open repository %q: %w'' [ref] (NewRepository reg (RefString reg r'))) (\<lambda>repo.
     Inr (repo, Reference r')))"

definition index_types :: "string list" where
  "index_types = [''application/vnd.oci.image.index.v1+json'',
                  ''application/vnd.docker.distribution.manifest.list.v2+json'']"

definition resolvePlatform :: "'r registry \<Rightarrow> Puller \<Rightarrow> 'r \<Rightarrow> Descriptor \<Rightarrow> Descriptor result" where
  "resolvePlatform reg p repo desc =
     (if MediaType desc \<notin> set index_types then Inr desc
      else bind_res (wrap_err ''fetch index: %w'' [] (RepoFetch reg repo desc)) (\<lambda>rc.
           bind_res (wrap_err ''read index: %w'' [] (ReadAll reg rc desc)) (\<lambda>data.
           bind_res (wrap_err ''parse index: %w'' [] (UnmarshalIndex reg data)) (\<lambda>idx.
           (case selectPlatformManifest idx (pull_arch p) of
              None \<Rightarrow> Inl (Errorf ''no %s/linux manifest in multi-arch index'' [pull_arch p])
            | Some sub \<Rightarrow> Inr sub)))))"

definition fetchManifest :: "'r registry \<Rightarrow> 'r \<Rightarrow> Descriptor \<Rightarrow> Manifest result" where
  "fetchManifest reg repo desc =
     bind_res (wrap_err ''fetch manifest: %w'' [] (RepoFetch reg repo desc)) (\<lambda>rc.
     bind_res (wrap_err ''read manifest: %w'' [] (ReadAll reg rc desc)) (\<lambda>data.
     wrap_err ''parse manifest: %w'' [] (UnmarshalManifest reg data)))"

text \<open>The sidecar check looks at the first layer titled \<open><title>.sha256\<close> only, and is
  best effort: failing to fetch, read or parse it is no error.\<close>

definition check_sidecar :: "'r registry \<Rightarrow> 'r \<Rightarrow> Descriptor \<Rightarrow> string \<Rightarrow> unit result" where
  "check_sidecar reg repo l digest = (case RepoFetch reg repo l of
     Inl e \<Rightarrow> Inr ()
   | Inr rc \<Rightarrow> (case ReadAll reg rc l of
       Inl e \<Rightarrow> Inr ()
     | Inr data \<Rightarrow> (let sum = sidecarSha256 data in
         if sum = [] then Inr ()
         else if ''sha256:'' @ sum \<noteq> digest
         then Inl (Errorf ''checksum sidecar mismatch: sidecar=sha256:%s layer=%s'' [sum, digest])
         else Inr ())))"

definition verifySidecar ::
    "'r registry \<Rightarrow> 'r \<Rightarrow> Manifest \<Rightarrow> string \<Rightarrow> string \<Rightarrow> unit result" where
  "verifySidecar reg repo man title digest =
     (case List.find (\<lambda>l. title_of l = title @ ''.sha256'') (Layers man) of
        None \<Rightarrow> Inr ()
      | Some l \<Rightarrow> check_sidecar reg repo l digest)"

text \<open>\<open>Fetch\<close> up to the selected and checked layer, and its tail over the cache.\<close>

definition fetch_layer ::
    "'r registry \<Rightarrow> Puller \<Rightarrow> string \<Rightarrow> string \<Rightarrow> ('r \<times> Descriptor \<times> string) result" where
  "fetch_layer reg p name ref =
     bind_res (newRepository reg ref) (\<lambda>(repo, reference).
     if reference = [] then Inl (Errorf ''%s: reference %q has no tag or digest'' [name, ref])
     else bind_res (wrap_err ''%s: resolve %q: %w'' [name, ref] (RepoResolve reg repo reference)) (\<lambda>manDesc0.
     bind_res (wrap_err ''%s: %w'' [name] (resolvePlatform reg p repo manDesc0)) (\<lambda>manDesc.
     bind_res (wrap_err ''%s: %w'' [name] (fetchManifest reg repo manDesc)) (\<lambda>man.
     (case selectPrimaryLayer name man of
        None \<Rightarrow> Inl (Errorf ''%s: no payload layer found in %q'' [name, ref])
      | Some layer \<Rightarrow>
          (let digest = desc_Digest layer;
               title = (if title_of layer = [] then name else title_of layer)
           in bind_res (wrap_err ''%s: %w'' [name] (verifySidecar reg repo man title digest)) (\<lambda>_.
              Inr (repo, layer, title))))))))"

definition Fetch :: "'r registry \<Rightarrow> Puller \<Rightarrow> string \<Rightarrow> string \<Rightarrow> Component io" where
  "Fetch reg p name ref =
     bind_io (lift_res (fetch_layer reg p name ref)) (\<lambda>(repo, layer, title).
     let digest = desc_Digest layer in
     bind_io (Has (pull_cache p) digest) (\<lambda>hit.
     if hit
     then bind_io (lift_res (BlobPath (pull_cache p) digest)) (\<lambda>path. return_io
            \<lparr>comp_Name = name, comp_Title = title, comp_Path = path, comp_Digest = digest\<rparr>)
     else bind_io (wrap_io ''%s: fetch blob: %w'' [name] (lift_res (RepoFetch reg repo layer))) (\<lambda>rc.
          bind_io (wrap_io ''%s: store blob: %w'' [name] (PutStream (pull_cache p) digest rc)) (\<lambda>path.
          return_io
            \<lparr>comp_Name = name, comp_Title = title, comp_Path = path, comp_Digest = digest\<rparr>))))"

section \<open>Choosing a layer\<close>

definition better :: "Descriptor option \<Rightarrow> Descriptor \<Rightarrow> bool" where
  "better best l \<longleftrightarrow> (case best of None \<Rightarrow> True | Some b \<Rightarrow> desc_Size b < desc_Size l)"

text \<open>What the loop returns: the accumulator when no layer beats it, else the first layer
  of the largest size among those that are no sidecars.\<close>

lemma largest_layer_None:
  "largest_layer best ls = None \<longleftrightarrow> best = None \<and> list_all isSidecar ls"
  by (induction best ls rule: largest_layer.induct) (auto split: option.split)

lemma largest_layer_max:
  "largest_layer best ls = Some b \<Longrightarrow>
   (\<forall>l \<in> set ls. \<not> isSidecar l \<longrightarrow> desc_Size l \<le> desc_Size b) \<and>
   (\<forall>b0. best = Some b0 \<longrightarrow> desc_Size b0 \<le> desc_Size b)"
  by (induction best ls rule: largest_layer.induct) (fastforce split: if_splits option.splits)+

definition picks :: "Descriptor list \<Rightarrow> Descriptor \<Rightarrow> bool" where
  "picks ls b \<longleftrightarrow> (\<exists>us vs. ls = us @ b # vs \<and> \<not> isSidecar b \<and>
     (\<forall>u \<in> set us. \<not> isSidecar u \<longrightarrow> desc_Size u < desc_Size b))"

lemma picks_here: "\<not> isSidecar l \<Longrightarrow> picks (l # ls) l"
  unfolding picks_def by (intro exI [of _ "[]"] exI [of _ ls]) simp

lemma picks_Cons:
  assumes "picks ls b" "\<not> isSidecar l \<longrightarrow> desc_Size l < desc_Size b"
  shows "picks (l # ls) b"
proof -
  from assms(1) obtain us vs where "ls = us @ b # vs" "\<not> isSidecar b"
    "\<forall>u \<in> set us. \<not> isSidecar u \<longrightarrow> desc_Size u < desc_Size b" by (auto simp: picks_def)
  with assms(2) show ?thesis unfolding picks_def by (intro exI [of _ "l # us"] exI [of _ vs]) auto
qed

lemma largest_layer_mem:
  "largest_layer best ls = Some b \<Longrightarrow> best = Some b \<or> (better best b \<and> picks ls b)"
proof (induction best ls rule: largest_layer.induct)
  case (2 best l ls)
  show ?case
  proof (cases "isSidecar l")
    case True
    with "2.IH"(1) "2.prems" show ?thesis by (auto intro: picks_Cons)
  next
    case False
    show ?thesis
    proof (cases best)
      case None
      with False "2.prems" have r: "largest_layer (Some l) ls = Some b" by simp
      from "2.IH"(2) [OF False None r] False None show ?thesis
        by (auto simp: better_def intro: picks_here picks_Cons)
    next
      case (Some b0)
      show ?thesis
      proof (cases "desc_Size l > desc_Size b0")
        case True
        with False Some "2.prems" have r: "largest_layer (Some l) ls = Some b" by simp
        from "2.IH"(3) [OF False Some True r] False Some True show ?thesis
          by (auto simp: better_def intro: picks_here picks_Cons)
      next
        case le: False
        with False Some "2.prems" have r: "largest_layer best ls = Some b" by simp
        from "2.IH"(4) [OF False Some le] r Some le show ?thesis
          by (auto simp: better_def intro: picks_Cons)
      qed
    qed
  qed
qed simp

lemma largest_layer_first:
  "largest_layer None ls = Some b \<longleftrightarrow>
   (\<exists>us vs. ls = us @ b # vs \<and> \<not> isSidecar b \<and>
     (\<forall>u \<in> set us. \<not> isSidecar u \<longrightarrow> desc_Size u < desc_Size b) \<and>
     (\<forall>v \<in> set vs. \<not> isSidecar v \<longrightarrow> desc_Size v \<le> desc_Size b))" (is "?L = ?R")
proof
  assume ?L
  with largest_layer_mem [OF this] largest_layer_max [OF this] show ?R
    by (fastforce simp: picks_def)
next
  assume r: ?R
  then obtain us vs where e: "ls = us @ b # vs" "\<not> isSidecar b"
    and u: "\<forall>u \<in> set us. \<not> isSidecar u \<longrightarrow> desc_Size u < desc_Size b"
    and v: "\<forall>v \<in> set vs. \<not> isSidecar v \<longrightarrow> desc_Size v \<le> desc_Size b" by blast
  have keep: "largest_layer (Some b) vs = Some b"
    using v by (induction vs) auto
  have "better best b \<Longrightarrow> largest_layer best (us @ b # vs) = Some b" for best
    using u
  proof (induction us arbitrary: best)
    case Nil
    with keep e show ?case by (auto simp: better_def split: option.splits)
  next
    case (Cons a us)
    then show ?case by (auto simp: better_def split: option.splits)
  qed
  then show ?L using e by (simp add: better_def)
qed

lemma expected_layer_Some:
  "expected_layer name m = Some l \<longleftrightarrow>
   (\<exists>want us vs. map_of expectedMediaTypes name = Some want \<and> Layers m = us @ l # vs \<and>
      MediaType l \<in> set want \<and> (\<forall>u \<in> set us. MediaType u \<notin> set want))"
  by (auto simp: expected_layer_def find_Some_split split: option.split)

section \<open>The puller as a fetcher\<close>

lemma Fetch_cases:
  assumes "Fetch reg p name ref w = (Inr c, w')"
  obtains repo layer title where "fetch_layer reg p name ref = Inr (repo, layer, title)"
    "bind_io (Has (pull_cache p) (desc_Digest layer)) (\<lambda>hit. if hit
       then bind_io (lift_res (BlobPath (pull_cache p) (desc_Digest layer))) (\<lambda>path. return_io
         \<lparr>comp_Name = name, comp_Title = title, comp_Path = path, comp_Digest = desc_Digest layer\<rparr>)
       else bind_io (wrap_io ''%s: fetch blob: %w'' [name] (lift_res (RepoFetch reg repo layer))) (\<lambda>rc.
         bind_io (wrap_io ''%s: store blob: %w'' [name] (PutStream (pull_cache p) (desc_Digest layer) rc)) (\<lambda>path.
         return_io \<lparr>comp_Name = name, comp_Title = title, comp_Path = path, comp_Digest = desc_Digest layer\<rparr>))) w
     = (Inr c, w')"
  using assms unfolding Fetch_def by (auto simp: bind_io_ok [of "lift_res _"] Let_def)

lemma Fetch_keeps_cache_ok:
  assumes "cache_ok (pull_cache p) w" "Fetch reg p name ref w = (x, w')"
  shows "cache_ok (pull_cache p) w'"
proof -
  have "keeps (cache_ok (pull_cache p)) (Fetch reg p name ref)"
    unfolding Fetch_def Let_def
    by (intro keep_intros keepsI)
       (metis bc.has_inv bc.put_inv prod.exhaust_sel)+
  from keeps_run [OF this assms(2,1)] show ?thesis .
qed

lemma Fetch_no_sha:
  assumes "cache_ok (pull_cache p) w" "Fetch reg p name ref w = (Inr c, w')"
  shows "comp_Name c = name \<and> BlobPath (pull_cache p) (comp_Digest c) = Inr (comp_Path c) \<and>
    node_at (files w') (resolve w' (comp_Path c)) \<noteq> None"
  using assms(2)
proof (cases rule: Fetch_cases)
  case (1 repo layer title)
  let ?d = "desc_Digest layer"
  obtain hit w1 where h: "Has (pull_cache p) ?d w = (Inr hit, w1)" using Has_total by blast
  show ?thesis
  proof (cases hit)
    case True
    with Has_true [of "pull_cache p" ?d w w1] Has_files [OF h] h "1"(2) show ?thesis
      by (auto simp: bind_io_ok [of "Has _ _"] io_simps frame_resolve)
  next
    case False
    have i1: "cache_ok (pull_cache p) w1" using bc.has_inv [OF assms(1) h] .
    from False h "1"(2) obtain rc path where
      "PutStream (pull_cache p) ?d rc w1 = (Inr path, w')" "c = \<lparr>comp_Name = name, comp_Title = title, comp_Path = path, comp_Digest = ?d\<rparr>"
      by (auto simp: bind_io_ok wrap_io_ok)
    with bc.put_ok [OF i1] show ?thesis by (fastforce simp: file_at_Some)
  qed
qed

lemma BlobPath_abs: "IsAbs (Root c) \<Longrightarrow> BlobPath c d = Inr p \<Longrightarrow> IsAbs p"
  by (auto simp: BlobPath_def bind_res_eq_Inr)

lemma cache_ok_frame: "cache_ok c w \<Longrightarrow> frame w {} w' \<Longrightarrow> cache_ok c w'"
  by (simp add: cache_ok_def frame_def)

interpretation oci_fetcher: fetcher "Fetch reg p" "cache_ok (pull_cache p)" for reg p
proof unfold_locales
  show "cache_ok (pull_cache p) w \<Longrightarrow> Fetch reg p n r w = (x, w') \<Longrightarrow> cache_ok (pull_cache p) w'" for w n r x w'
    by (rule Fetch_keeps_cache_ok)
  show "comp_Name c = n \<and> IsAbs (comp_Path c) \<and> node_at (files w') (resolve w' (comp_Path c)) \<noteq> None"
    if "cache_ok (pull_cache p) w" "Fetch reg p n r w = (Inr c, w')" for w n r c w'
    using Fetch_no_sha [OF that] that(1) BlobPath_abs by (auto simp: cache_ok_def)
  show "cache_ok (pull_cache p) w \<Longrightarrow> frame w {} w' \<Longrightarrow> cache_ok (pull_cache p) w'" for w w'
    by (rule cache_ok_frame)
qed


section \<open>Properties\<close>


definition layer0 :: "string \<Rightarrow> string \<Rightarrow> string \<Rightarrow> int \<Rightarrow> Descriptor" where
  "layer0 mt title digest n = \<lparr>MediaType = mt, desc_Digest = digest, desc_Size = n,
     Annotations = [(AnnotationTitle, title)], desc_Platform = None\<rparr>"


text \<open>C3. Integrity of a pull, through the blob store's contract: a component fetched with a
  sha256 digest is a file in the cache whose content has that digest, whatever the registry
  sent and whatever calls failed; it carries the requested name.\<close>

theorem fetch_integrity:
  assumes "cache_ok (pull_cache p) w" "Fetch reg p name ref w = (Inr c, w')"
    "prefix ''sha256:'' (comp_Digest c)"
  shows "comp_Name c = name \<and> cache_ok (pull_cache p) w' \<and>
    (\<exists>b. file_at w' (comp_Path c) = Some b \<and> comp_Digest c = digest_of b)"
  using assms(2)
proof (cases rule: Fetch_cases)
  case (1 repo layer title)
  have d: "comp_Digest c = desc_Digest layer"
    using "1"(2) by (auto simp: bind_io_ok wrap_io_ok split: if_splits)
  have sha: "prefix ''sha256:'' (desc_Digest layer)" using assms(3) d by simp
  have net: "cache_ok (pull_cache p) w1"
    if "cache_ok (pull_cache p) w0" "wrap_io ''%s: fetch blob: %w'' [name] (lift_res (RepoFetch reg repo layer)) w0 = (x, w1)"
    for w0 w1 x using that by (auto simp: io_simps)
  show ?thesis
  proof (rule bc.lookup_or_put [OF assms(1) sha _ "1"(2)])
    show "cache_ok (pull_cache p) w1"
      if "cache_ok (pull_cache p) w0"
        "wrap_io ''%s: fetch blob: %w'' [name] (lift_res (RepoFetch reg repo layer)) w0 = (x, w1)"
      for w0 w1 x using net [OF that] .
  next
    fix path w1
    assume "cache_ok (pull_cache p) w1" "\<exists>b. file_at w1 path = Some b \<and> desc_Digest layer = digest_of b"
      "return_io \<lparr>comp_Name = name, comp_Title = title, comp_Path = path, comp_Digest = desc_Digest layer\<rparr> w1
        = (Inr c, w')"
    then show ?thesis by auto
  qed
qed

definition man0 :: Manifest where
  "man0 = \<lparr>Layers = [layer0 ''application/vnd.linux.vmlinux.v1+binary'' ''vmlinux'' (digest_of ''hi'') 2]\<rparr>"

definition reg0 :: "unit registry" where
  "reg0 = \<lparr>ParseReference = (\<lambda>s. Inr \<lparr>Registry = ''ghcr.io'', Repository = s, Reference = ''v1''\<rparr>),
     RefString = Repository, NewRepository = (\<lambda>s. Inr ()),
     RepoResolve = (\<lambda>r t. Inr (layer0 ''application/vnd.oci.image.manifest.v1+json'' [] ''sha256:aa'' 1)),
     RepoFetch = (\<lambda>r d. Inr (''hi'', None)), ReadAll = (\<lambda>r d. Inr (fst r)),
     UnmarshalIndex = (\<lambda>b. Inl (Sys EINVAL)), UnmarshalManifest = (\<lambda>b. Inr man0)\<rparr>"

definition puller0 :: Puller where
  "puller0 = \<lparr>pull_cache = cache0, pull_arch = ''amd64''\<rparr>"

lemma sel0 [simp]:
  "desc_Digest (layer0 mt t d n) = d" "MediaType (layer0 mt t d n) = mt" "title_of (layer0 mt t d n) = t"
  "pull_cache puller0 = cache0" "pull_arch puller0 = ''amd64''" "RepoFetch reg0 r l = Inr (''hi'', None)"
  by (simp_all add: layer0_def puller0_def reg0_def title_of_def)

lemma fetch_layer0:
  "fetch_layer reg0 puller0 ''kernel'' ''x'' =
     Inr ((), layer0 ''application/vnd.linux.vmlinux.v1+binary'' ''vmlinux'' (digest_of ''hi'') 2, ''vmlinux'')"
  by (simp add: fetch_layer_def newRepository_def reg0_def resolvePlatform_def fetchManifest_def
      index_types_def man0_def selectPrimaryLayer_def expected_layer_def expectedMediaTypes_def
      layer0_def title_of_def verifySidecar_def Let_def)

lemma fetch0: "\<exists>c w'. Fetch reg0 puller0 ''kernel'' ''x'' host0 = (Inr c, w') \<and> comp_Digest c = digest_of ''hi''"
proof -
  obtain p w' where run: "PutStream cache0 (digest_of ''hi'') (''hi'', None) host0 = (Inr p, w')"
    using cache0_put by blast
  have "Has cache0 (digest_of ''hi'') host0 = (Inr False, host0)"
    using Has_no_fault [of host0 cache0 "digest_of ''hi''"] BlobPath_sha256 [of "digest_of ''hi''"]
      blob_paths [of cache0 "digest_of ''hi''" "sha256_hex ''hi''"]
    by (auto simp: resolve_abs blob_cell_def cache0_def IsAbs_def)
  with run show ?thesis
    by (simp add: Fetch_def fetch_layer0 io_simps Let_def)
qed

theorem fetch_integrity_witness:
  "\<exists>c w'. Fetch reg0 puller0 ''kernel'' ''x'' host0 = (Inr c, w') \<and> comp_Name c = ''kernel'' \<and>
     (\<exists>b. file_at w' (comp_Path c) = Some b \<and> comp_Digest c = digest_of b)"
proof -
  obtain c w' where c: "Fetch reg0 puller0 ''kernel'' ''x'' host0 = (Inr c, w')" "comp_Digest c = digest_of ''hi''"
    using fetch0 by blast
  have ok: "cache_ok (pull_cache puller0) host0" using cache0_ok by (simp add: puller0_def)
  have "prefix ''sha256:'' (comp_Digest c)" using c(2) by (simp add: digest_of_def)
  from fetch_integrity [OF ok c(1) this] c(1) show ?thesis by blast
qed



text \<open>Cross-architecture tags: a descriptor that is no index is used as it is; for an
  index the result is its first entry for the puller's architecture (on linux, or with no
  operating system), and with no such entry the pull fails.\<close>

theorem resolve_platform_arch:
  assumes "resolvePlatform reg p repo desc = Inr sub"
  shows "(MediaType desc \<notin> set index_types \<and> sub = desc) \<or>
    (MediaType desc \<in> set index_types \<and> platform_matches (pull_arch p) sub \<and>
      (\<exists>data idx us vs. UnmarshalIndex reg data = Inr idx \<and> Manifests idx = us @ sub # vs \<and> (\<forall>u \<in> set us. \<not> platform_matches (pull_arch p) u)))"
proof (cases "MediaType desc \<in> set index_types")
  case False
  with assms show ?thesis by (simp add: resolvePlatform_def)
next
  case True
  with assms obtain data idx where u: "UnmarshalIndex reg data = Inr idx"
    and "selectPlatformManifest idx (pull_arch p) = Some sub"
    by (auto simp: resolvePlatform_def bind_res_eq_Inr split: option.splits)
  then obtain us vs where "Manifests idx = us @ sub # vs" "platform_matches (pull_arch p) sub"
    "\<forall>u \<in> set us. \<not> platform_matches (pull_arch p) u"
    by (auto simp: selectPlatformManifest_def find_Some_split)
  with True u show ?thesis by blast
qed

definition amd0 :: Descriptor where
  "amd0 = (layer0 ''m'' [] ''sha256:bb'' 5)\<lparr>desc_Platform := Some \<lparr>plat_Architecture = ''amd64'', plat_OS = ''linux''\<rparr>\<rparr>"

theorem resolve_platform_arch_witness:
  "platform_matches ''amd64'' amd0 \<and>
   resolvePlatform (reg0\<lparr>UnmarshalIndex := \<lambda>b. Inr \<lparr>Manifests = [layer0 ''m'' [] ''sha256:cc'' 5, amd0]\<rparr>\<rparr>)
     puller0 () (layer0 ''application/vnd.oci.image.index.v1+json'' [] ''sha256:aa'' 1) = Inr amd0"
proof -
  let ?reg = "reg0\<lparr>UnmarshalIndex := \<lambda>b. Inr \<lparr>Manifests = [layer0 ''m'' [] ''sha256:cc'' 5, amd0]\<rparr>\<rparr>"
  let ?desc = "layer0 ''application/vnd.oci.image.index.v1+json'' [] ''sha256:aa'' 1"
  have run: "resolvePlatform ?reg puller0 () ?desc = Inr amd0"
    by (simp add: resolvePlatform_def reg0_def puller0_def index_types_def layer0_def amd0_def
        selectPlatformManifest_def platform_matches_def)
  have "MediaType ?desc \<in> set index_types" by (simp add: layer0_def index_types_def)
  with resolve_platform_arch [OF run] run show ?thesis by (auto simp: puller0_def)
qed

text \<open>A cached component costs no download: when the selected layer's blob is in the
  cache and no call fails, \<open>Fetch\<close> returns it without fetching the blob or touching the host.\<close>

theorem fetch_hit_readonly:
  assumes "fetch_layer reg p name ref = Inr (repo, layer, title)" "faults w = []"
    "BlobPath (pull_cache p) (desc_Digest layer) = Inr path" "file_at w path = Some b"
  shows "Fetch reg p name ref w =
    (Inr \<lparr>comp_Name = name, comp_Title = title, comp_Path = path, comp_Digest = desc_Digest layer\<rparr>, w)"
  using assms Has_no_fault [OF assms(2), of "pull_cache p" "desc_Digest layer"]
  by (simp add: Fetch_def io_simps Let_def file_at_Some)

theorem fetch_hit_readonly_witness:
  "\<exists>w path. file_at w path = Some ''hi'' \<and> Fetch reg0 puller0 ''kernel'' ''x'' w =
    (Inr \<lparr>comp_Name = ''kernel'', comp_Title = ''vmlinux'', comp_Path = path, comp_Digest = digest_of ''hi''\<rparr>, w)"
proof -
  obtain path where path: "BlobPath cache0 (digest_of ''hi'') = Inr path"
    using BlobPath_sha256 [OF splitDigest_sha256] by blast
  have abs: "comps path \<noteq> []" "IsAbs path"
    using path BlobPath_sha256 [OF splitDigest_sha256, of cache0 "''hi''"]
      blob_paths [of cache0 "digest_of ''hi''" "sha256_hex ''hi''"]
    by (simp_all add: cache0_def IsAbs_def blob_cell_def)
  let ?w = "host0\<lparr>files := fs_put (comps path) (File ''hi'') []\<rparr>"
  have f: "file_at ?w path = Some ''hi''" using abs by (simp add: file_at_Some resolve_abs)
  have p: "BlobPath (pull_cache puller0)
      (desc_Digest (layer0 ''application/vnd.linux.vmlinux.v1+binary'' ''vmlinux'' (digest_of ''hi'') 2)) = Inr path"
    using path by (simp add: puller0_def layer0_def)
  from fetch_hit_readonly [OF fetch_layer0 _ p f] f show ?thesis by (auto simp: layer0_def)
qed

end
