(* ===== verification/Qemu_Command.thy ===== *)
theory Qemu_Command
  imports Go_Strings
begin

text \<open>
  Package \<open>internal/qemu\<close>, the part that builds a command line: accelerator candidates
  (\<open>accel*.go\<close>), control-channel addresses (\<open>control.go\<close>), user-mode networking
  (\<open>network.go\<close>) and the argument list (\<open>command.go\<close>). The \<open>Backend\<close> interface is the
  locale \<open>net_backend\<close>.
\<close>

section \<open>Accelerators\<close>

definition DefaultAccelPreference :: "string \<Rightarrow> string list" where
  "DefaultAccelPreference os =
     (if os = ''windows'' then [''whpx'', ''tcg'']
      else if os = ''linux'' then [''kvm'', ''tcg'']
      else if os = ''darwin'' then [''hvf'', ''tcg'']
      else [''tcg''])"

text \<open>One \<open>accelAvailable\<close> per target; on Linux \<open>kvm\<close> says whether \<open>/dev/kvm\<close> opens.\<close>

definition accelAvailable_darwin :: "string \<Rightarrow> bool" where
  "accelAvailable_darwin name \<longleftrightarrow> name = ''hvf''"

definition accelAvailable_linux :: "bool \<Rightarrow> string \<Rightarrow> bool" where
  "accelAvailable_linux kvm name = (if name = ''kvm'' then kvm else False)"

definition accelAvailable_windows :: "string \<Rightarrow> bool" where
  "accelAvailable_windows name \<longleftrightarrow> name = ''whpx''"

definition accelAvailable :: "string \<Rightarrow> bool \<Rightarrow> string \<Rightarrow> bool" where
  "accelAvailable os kvm name =
     (if os = ''darwin'' then accelAvailable_darwin name
      else if os = ''linux'' then accelAvailable_linux kvm name
      else if os = ''windows'' then accelAvailable_windows name else False)"

text \<open>The loop of \<open>AccelCandidates\<close>; an accelerator is marked \<open>seen\<close> when it is appended.\<close>

fun accel_loop :: "(string \<Rightarrow> bool) \<Rightarrow> string list \<Rightarrow> string list \<Rightarrow> string list \<Rightarrow> string list \<times> string list" where
  "accel_loop avail out seen [] = (out, seen)"
| "accel_loop avail out seen (a # pref) =
     (if a \<in> set seen then accel_loop avail out seen pref
      else if a \<noteq> ''tcg'' \<and> \<not> avail a then accel_loop avail out seen pref
      else accel_loop avail (out @ [a]) (a # seen) pref)"

definition AccelCandidates :: "string \<Rightarrow> bool \<Rightarrow> string list \<Rightarrow> string list" where
  "AccelCandidates os kvm pref =
     (let pref' = (if pref = [] then DefaultAccelPreference os else pref);
          (out, seen) = accel_loop (accelAvailable os kvm) [] [] pref'
      in if ''tcg'' \<notin> set seen then out @ [''tcg''] else out)"

section \<open>Control channels\<close>

record ControlAddr =
  ctl_Net :: string
  ctl_Addr :: string

definition QMPArg :: "ControlAddr \<Rightarrow> string" where
  "QMPArg c = (if ctl_Net c = ''tcp'' then ''tcp:'' @ ctl_Addr c @ '',server=on,wait=off''
               else ''unix:'' @ ctl_Addr c @ '',server=on,wait=off'')"

text \<open>\<open>net.SplitHostPort\<close>; on an error both results are empty.\<close>

definition SplitHostPort :: "string \<Rightarrow> string \<times> string" where
  "SplitHostPort hp = (let i = LastIndex hp CHR '':'' in
     if i < 0 then ([], [])
     else if HasPrefix hp ''['' then
       (let e = IndexByte hp CHR '']'' in
        if e < 0 \<or> e + 1 \<noteq> i then ([], [])
        else if IndexByte (drop 1 hp) CHR ''['' \<ge> 0 \<or> IndexByte (drop (nat (e + 1)) hp) CHR '']'' \<ge> 0
        then ([], [])
        else (take (nat (e - 1)) (drop 1 hp), drop (nat (i + 1)) hp))
     else (let host = take (nat i) hp in
        if IndexByte host CHR '':'' \<ge> 0 \<or> IndexByte hp CHR ''['' \<ge> 0 \<or> IndexByte hp CHR '']'' \<ge> 0
        then ([], [])
        else (host, drop (nat (i + 1)) hp)))"

definition SerialChardevArg :: "ControlAddr \<Rightarrow> string \<Rightarrow> string" where
  "SerialChardevArg c ident =
     (if ctl_Net c = ''tcp''
      then (case SplitHostPort (ctl_Addr c) of (host, port) \<Rightarrow>
        ''socket,id='' @ ident @ '',host='' @ host @ '',port='' @ port @ '',server=on,wait=off'')
      else ''socket,id='' @ ident @ '',path='' @ ctl_Addr c @ '',server=on,wait=off'')"

section \<open>Networking backends\<close>

definition SlirpGuestIP :: string where "SlirpGuestIP = ''10.0.2.15''"
definition SlirpGateway :: string where "SlirpGateway = ''10.0.2.2''"
definition SlirpDNS :: string where "SlirpDNS = ''10.0.2.3''"
definition SlirpNetmask :: string where "SlirpNetmask = ''255.255.255.0''"

record PortForward =
  pf_Proto :: string
  pf_HostIP :: string
  pf_HostPort :: int
  pf_GuestPort :: int

record Backend =
  NicArgs :: "PortForward list \<Rightarrow> string list"
  KernelIPParam :: "string \<Rightarrow> string \<Rightarrow> string"

definition hostfwd :: "PortForward \<Rightarrow> string" where
  "hostfwd p =
     (let proto = (if pf_Proto p = [] then ''tcp'' else pf_Proto p);
          hostIP = (if pf_HostIP p = [] then ''127.0.0.1'' else pf_HostIP p)
      in ''hostfwd='' @ proto @ '':'' @ hostIP @ '':'' @ Itoa (pf_HostPort p) @ ''-:'' @ Itoa (pf_GuestPort p))"

definition UserNet_NicArgs :: "PortForward list \<Rightarrow> string list" where
  "UserNet_NicArgs ports =
     (let parts = [''user'', ''model=virtio-net-pci''] @ map hostfwd ports
      in [''-nic'', Join parts '',''])"

definition UserNet_KernelIPParam :: "string \<Rightarrow> string \<Rightarrow> string" where
  "UserNet_KernelIPParam mode iface =
     (if mode = ''kernel-dhcp'' then ''ip=dhcp''
      else if mode = ''kernel-static'' then
        (let iface' = (if iface = [] then ''eth0'' else iface)
         in ''ip='' @ SlirpGuestIP @ ''::'' @ SlirpGateway @ '':'' @ SlirpNetmask @ ''::'' @ iface' @
            '':off:'' @ SlirpDNS)
      else [])"

definition UserNet :: Backend where
  "UserNet = \<lparr>NicArgs = UserNet_NicArgs, KernelIPParam = UserNet_KernelIPParam\<rparr>"

section \<open>The command line\<close>

definition SystemBinaryName :: "string \<Rightarrow> string" where
  "SystemBinaryName guestArch =
     (if guestArch = ''arm64'' \<or> guestArch = ''aarch64'' then ''qemu-system-aarch64''
      else ''qemu-system-x86_64'')"

definition x86CPUModel :: "string \<Rightarrow> string" where
  "x86CPUModel accel =
     (if accel = ''hvf'' \<or> accel = ''kvm'' then ''host''
      else if accel = ''whpx'' then ''qemu64'' else ''max'')"

text \<open>Machine, cpu model, console device and root device.\<close>

definition archParams :: "string \<Rightarrow> string \<Rightarrow> string \<times> string \<times> string \<times> string" where
  "archParams guestArch accel =
     (let (machine, cpu, console) =
        (if guestArch = ''arm64'' \<or> guestArch = ''aarch64''
         then (''virt'', if accel = ''hvf'' \<or> accel = ''kvm'' then ''host'' else ''max'', ''ttyAMA0'')
         else (''q35'', x86CPUModel accel, ''ttyS0''));
          machine' = (if accel \<noteq> [] then machine @ '',accel='' @ accel else machine)
      in (machine', cpu, console, ''/dev/vda1''))"

record Spec =
  sp_QEMUBin :: string
  sp_GuestArch :: string
  sp_MemoryMB :: int
  sp_CPUs :: int
  sp_Accel :: string
  sp_KernelPath :: string
  sp_InitrdPath :: string
  sp_KernelCmdline :: string
  sp_ExtraCmdline :: "string list"
  sp_DrivePath :: string
  sp_SeedPath :: string
  sp_Net :: "Backend option"
  sp_Ports :: "PortForward list"
  sp_SerialControl :: ControlAddr
  sp_QMPControl :: ControlAddr
  sp_Display :: string
  sp_ExtraArgs :: "string list"

definition KernelCmdlineString :: "Spec \<Rightarrow> string" where
  "KernelCmdlineString s = (case archParams (sp_GuestArch s) (sp_Accel s) of (_, _, console, rootDev) \<Rightarrow>
     let cmd = (if sp_KernelCmdline s = []
                then ''console='' @ console @ '' root='' @ rootDev @ '' rw''
                else sp_KernelCmdline s);
         frags = sp_ExtraCmdline s
     in if 0 < length frags then cmd @ '' '' @ Join frags '' '' else cmd)"

definition BuildArgs :: "Spec \<Rightarrow> string list result" where
  "BuildArgs s =
     (if sp_QEMUBin s = [] then Inl (Errorf ''qemu binary path is empty'' [])
      else if sp_KernelPath s = [] \<or> sp_InitrdPath s = [] \<or> sp_DrivePath s = []
      then Inl (Errorf ''kernel, initrd and drive paths are all required'' [])
      else (case sp_Net s of
        None \<Rightarrow> Inl (Errorf ''network backend is nil'' [])
      | Some net \<Rightarrow>
        (case archParams (sp_GuestArch s) (sp_Accel s) of (machine, cpu, _, _) \<Rightarrow>
         let disp = (if sp_Display s = [] then ''none'' else sp_Display s) in
         Inr (
           [''-machine'', machine,
            ''-cpu'', cpu,
            ''-smp'', Itoa (sp_CPUs s),
            ''-m'', Itoa (sp_MemoryMB s),
            ''-kernel'', sp_KernelPath s,
            ''-initrd'', sp_InitrdPath s,
            ''-append'', KernelCmdlineString s,
            ''-drive'', ''file='' @ sp_DrivePath s @ '',if=virtio,format=qcow2''] @
           (if sp_SeedPath s \<noteq> [] then [''-drive'', ''file='' @ sp_SeedPath s @ '',if=virtio,format=raw'']
            else []) @
           NicArgs net (sp_Ports s) @
           [''-display'', disp] @
           (if ctl_Addr (sp_SerialControl s) \<noteq> []
            then [''-chardev'', SerialChardevArg (sp_SerialControl s) ''ser0'', ''-serial'', ''chardev:ser0'']
            else [''-serial'', ''null'']) @
           (if ctl_Addr (sp_QMPControl s) \<noteq> [] then [''-qmp'', QMPArg (sp_QMPControl s)] else []) @
           sp_ExtraArgs s))))"

definition Spec_String :: "(error \<Rightarrow> string) \<Rightarrow> Spec \<Rightarrow> string" where
  "Spec_String err_string s = (case BuildArgs s of
     Inl e \<Rightarrow> sp_QEMUBin s @ '' <invalid: '' @ err_string e @ ''>''
   | Inr args \<Rightarrow> sp_QEMUBin s @ '' '' @ Join args '' '')"

section \<open>Accelerator candidates\<close>

text \<open>Keep the first occurrence of each element.\<close>

definition nub :: "'a list \<Rightarrow> 'a list" where
  "nub xs = rev (remdups (rev xs))"

lemma nub_snoc: "nub (xs @ [x]) = (if x \<in> set xs then nub xs else nub xs @ [x])"
  by (simp add: nub_def)

lemma set_nub [simp]: "set (nub xs) = set xs"
  by (simp add: nub_def)

lemma distinct_nub [simp]: "distinct (nub xs)"
  by (simp add: nub_def)

definition usable :: "(string \<Rightarrow> bool) \<Rightarrow> string \<Rightarrow> bool" where
  "usable avail a \<longleftrightarrow> a = ''tcg'' \<or> avail a"

lemma accel_loop_nub:
  "accel_loop avail out seen pref = (out', seen') \<Longrightarrow> out = nub (filter (usable avail) done) \<Longrightarrow>
   set seen = set out \<Longrightarrow>
   out' = nub (filter (usable avail) (done @ pref)) \<and> set seen' = set out'"
proof (induction pref arbitrary: out seen "done")
  case Nil
  then show ?case by simp
next
  case (Cons a pref)
  have mem: "a \<in> set seen \<longleftrightarrow> usable avail a \<and> a \<in> set done" using Cons.prems by auto
  show ?case
  proof (cases "a \<in> set seen \<or> \<not> usable avail a")
    case True
    then have "out = nub (filter (usable avail) (done @ [a]))"
      using Cons.prems(2) mem by (auto simp: nub_snoc)
    moreover have "accel_loop avail out seen pref = (out', seen')"
      using True Cons.prems(1) by (auto simp: usable_def split: if_splits)
    ultimately show ?thesis using Cons.IH [of out seen "done @ [a]"] Cons.prems(3) by simp
  next
    case False
    then have u: "usable avail a" and n: "a \<notin> set seen" by simp_all
    have "out @ [a] = nub (filter (usable avail) (done @ [a]))"
      using u n Cons.prems(2) mem by (simp add: nub_snoc)
    moreover have "accel_loop avail (out @ [a]) (a # seen) pref = (out', seen')"
      using u n Cons.prems(1) by (auto simp: usable_def split: if_splits)
    moreover have "set (a # seen) = set (out @ [a])" using Cons.prems(3) by simp
    ultimately show ?thesis using Cons.IH [of "out @ [a]" "a # seen" "done @ [a]"] by simp
  qed
qed

lemma AccelCandidates_nub:
  "AccelCandidates os kvm pref =
   nub (filter (usable (accelAvailable os kvm))
     ((if pref = [] then DefaultAccelPreference os else pref) @ [''tcg'']))"
proof -
  let ?p = "if pref = [] then DefaultAccelPreference os else pref"
  obtain out seen where l: "accel_loop (accelAvailable os kvm) [] [] ?p = (out, seen)"
    by (cases "accel_loop (accelAvailable os kvm) [] [] ?p")
  have "out = nub (filter (usable (accelAvailable os kvm)) ?p) \<and> set seen = set out"
    using accel_loop_nub [OF l, of "[]"] by (simp add: nub_def)
  then show ?thesis
    by (simp add: AccelCandidates_def l nub_snoc usable_def [of _ "''tcg''"])
qed

text \<open>C26. The candidates are the preferred accelerators (the host's default preference when
  none is configured) in their order, each once, without those the host cannot run, and with
  software emulation \<open>tcg\<close> always among them, last unless it was asked for earlier.\<close>

theorem accel_candidates_spec:
  "AccelCandidates os kvm pref =
     nub (filter (\<lambda>a. a = ''tcg'' \<or> accelAvailable os kvm a)
       ((if pref = [] then DefaultAccelPreference os else pref) @ [''tcg''])) \<and>
   distinct (AccelCandidates os kvm pref) \<and> ''tcg'' \<in> set (AccelCandidates os kvm pref)"
proof -
  have u: "usable (accelAvailable os kvm) = (\<lambda>a. a = ''tcg'' \<or> accelAvailable os kvm a)"
    by (simp add: usable_def fun_eq_iff)
  show ?thesis using AccelCandidates_nub [of os kvm pref] by (simp add: u)
qed

section \<open>Forwards in the -nic value\<close>

text \<open>What the forward of a list looks like once the defaults are filled in, and a reader
  of one \<open>hostfwd=\<close> field, written from the field's documented shape.\<close>

definition fwd_norm :: "PortForward \<Rightarrow> PortForward" where
  "fwd_norm p = p\<lparr>pf_Proto := (if pf_Proto p = [] then ''tcp'' else pf_Proto p),
    pf_HostIP := (if pf_HostIP p = [] then ''127.0.0.1'' else pf_HostIP p)\<rparr>"

definition read_fwd :: "string \<Rightarrow> PortForward option" where
  "read_fwd f = (case Split f CHR '':'' of
     [a, ip, h, g] \<Rightarrow>
       (case (Atoi (butlast h), Atoi g) of
          (Some hp, Some gp) \<Rightarrow>
            if HasPrefix a ''hostfwd='' \<and> HasSuffix h ''-''
            then Some \<lparr>pf_Proto = drop 8 a, pf_HostIP = ip, pf_HostPort = hp, pf_GuestPort = gp\<rparr>
            else None
        | _ \<Rightarrow> None)
   | _ \<Rightarrow> None)"

definition fwd_clean :: "PortForward \<Rightarrow> bool" where
  "fwd_clean p \<longleftrightarrow> CHR '':'' \<notin> set (pf_Proto p) \<and> CHR '','' \<notin> set (pf_Proto p) \<and>
     CHR '':'' \<notin> set (pf_HostIP p) \<and> CHR '','' \<notin> set (pf_HostIP p) \<and> in_int64 (pf_HostPort p) \<and> in_int64 (pf_GuestPort p)"

lemma hostfwd_fields:
  assumes "fwd_clean p"
  shows "Split (hostfwd p) CHR '':'' =
    [''hostfwd='' @ pf_Proto (fwd_norm p), pf_HostIP (fwd_norm p),
     Itoa (pf_HostPort p) @ ''-'', Itoa (pf_GuestPort p)]"
proof -
  let ?fs = "[''hostfwd='' @ pf_Proto (fwd_norm p), pf_HostIP (fwd_norm p),
     Itoa (pf_HostPort p) @ ''-'', Itoa (pf_GuestPort p)]"
  have "hostfwd p = Join ?fs [CHR '':'']" by (simp add: hostfwd_def fwd_norm_def)
  moreover have "list_all (\<lambda>x. CHR '':'' \<notin> set x) ?fs"
    using assms by (simp add: fwd_clean_def fwd_norm_def)
  then have "Split (Join ?fs [CHR '':'']) CHR '':'' = ?fs"
    by (intro Split_Join) (simp_all only: list_all_iff list.distinct simp_thms)
  ultimately show ?thesis by simp
qed

lemma read_hostfwd: "fwd_clean p \<Longrightarrow> read_fwd (hostfwd p) = Some (fwd_norm p)"
  by (simp add: read_fwd_def hostfwd_fields Atoi_Itoa)
    (simp add: fwd_clean_def Atoi_Itoa fwd_norm_def suffix_def)

lemma hostfwd_no_comma: "fwd_clean p \<Longrightarrow> CHR '','' \<notin> set (hostfwd p)"
  by (simp add: hostfwd_def fwd_clean_def)

text \<open>C25. No forward is lost, merged or altered on the way into QEMU's \<open>-nic\<close> value: split
  at commas the value is the backend, the device and then one field per forward, in order,
  each reading back as the forward with \<open>tcp\<close> and \<open>127.0.0.1\<close> filled in.\<close>

theorem nic_args_roundtrip:
  assumes "list_all fwd_clean ports"
  shows "\<exists>v. UserNet_NicArgs ports = [''-nic'', v] \<and>
    take 2 (Split v CHR '','') = [''user'', ''model=virtio-net-pci''] \<and>
    map read_fwd (drop 2 (Split v CHR '','')) = map (\<lambda>p. Some (fwd_norm p)) ports"
proof -
  let ?parts = "[''user'', ''model=virtio-net-pci''] @ map hostfwd ports"
  have "Split (Join ?parts [CHR '','']) CHR '','' = ?parts"
    using assms by (intro Split_Join) (auto simp: list_all_iff hostfwd_no_comma)
  moreover have "map read_fwd (map hostfwd ports) = map (\<lambda>p. Some (fwd_norm p)) ports"
    using assms by (induction ports) (simp_all add: read_hostfwd)
  ultimately show ?thesis by (simp add: UserNet_NicArgs_def del: Join.simps)
qed

theorem nic_args_roundtrip_witness:
  "\<exists>v. UserNet_NicArgs [\<lparr>pf_Proto = ''udp'', pf_HostIP = [], pf_HostPort = 53, pf_GuestPort = 5353\<rparr>] = [''-nic'', v] \<and>
    map read_fwd (drop 2 (Split v CHR '','')) =
      [Some \<lparr>pf_Proto = ''udp'', pf_HostIP = ''127.0.0.1'', pf_HostPort = 53, pf_GuestPort = 5353\<rparr>]"
  using nic_args_roundtrip [of "[\<lparr>pf_Proto = ''udp'', pf_HostIP = [], pf_HostPort = 53, pf_GuestPort = 5353\<rparr>]"]
  by (auto simp: fwd_clean_def in_int64_def fwd_norm_def)

section \<open>The backend interface and the argument list\<close>

text \<open>The values a \<open>-key value\<close> argument list gives an option.\<close>

fun opt_values :: "string \<Rightarrow> string list \<Rightarrow> string list" where
  "opt_values k (a # v # xs) = (if a = k then v # opt_values k xs else opt_values k xs)"
| "opt_values k _ = []"

lemma opt_values_append:
  "even (length xs) \<Longrightarrow> opt_values k (xs @ ys) = opt_values k xs @ opt_values k ys"
  by (induction k xs rule: opt_values.induct) simp_all

text \<open>What \<open>BuildArgs\<close> and the kernel command line need of a networking backend: its
  arguments are one \<open>-nic\<close> option, and its fragment for the kernel is one word.\<close>

locale net_backend =
  fixes b :: Backend
  assumes nic_option: "\<exists>v. NicArgs b ports = [''-nic'', v]"
    and ip_word: "CHR '' '' \<notin> set iface \<Longrightarrow> CHR '' '' \<notin> set (KernelIPParam b mode iface)"
begin

lemma build_args_options:
  assumes "BuildArgs s = Inr args" "sp_Net s = Some b"
  shows "\<exists>pre. args = pre @ sp_ExtraArgs s \<and> even (length pre) \<and>
    opt_values ''-drive'' pre =
      (''file='' @ sp_DrivePath s @ '',if=virtio,format=qcow2'') #
      (if sp_SeedPath s = [] then [] else [''file='' @ sp_SeedPath s @ '',if=virtio,format=raw'']) \<and>
    opt_values ''-nic'' pre = tl (NicArgs b (sp_Ports s)) \<and>
    opt_values ''-append'' pre = [KernelCmdlineString s] \<and>
    opt_values ''-m'' pre = [Itoa (sp_MemoryMB s)] \<and>
    opt_values ''-smp'' pre = [Itoa (sp_CPUs s)] \<and>
    opt_values ''-display'' pre = [if sp_Display s = [] then ''none'' else sp_Display s] \<and>
    opt_values ''-qmp'' pre = (if ctl_Addr (sp_QMPControl s) = [] then [] else [QMPArg (sp_QMPControl s)])"
proof -
  obtain v where v: "NicArgs b (sp_Ports s) = [''-nic'', v]" using nic_option by blast
  obtain m c k r where ap: "archParams (sp_GuestArch s) (sp_Accel s) = (m, c, k, r)"
    by (cases "archParams (sp_GuestArch s) (sp_Accel s)")
  show ?thesis
    using assms
    by (cases "sp_SeedPath s = []"; cases "ctl_Addr (sp_SerialControl s) = []";
        cases "ctl_Addr (sp_QMPControl s) = []")
      (auto simp: BuildArgs_def ap v Let_def split: if_splits)
qed

text \<open>The fragment for the kernel stays one word of the command line.\<close>

lemma cmdline_words:
  assumes "sp_KernelCmdline s \<noteq> []" "sp_ExtraCmdline s = [KernelIPParam b mode ''eth0'']"
  shows "Split (KernelCmdlineString s) CHR '' '' =
    Split (sp_KernelCmdline s) CHR '' '' @ [KernelIPParam b mode ''eth0'']"
proof -
  obtain m c k r where ap: "archParams (sp_GuestArch s) (sp_Accel s) = (m, c, k, r)"
    by (cases "archParams (sp_GuestArch s) (sp_Accel s)")
  have "CHR '' '' \<notin> set (KernelIPParam b mode ''eth0'')" by (rule ip_word) simp
  then show ?thesis using assms
    by (simp add: KernelCmdlineString_def ap Split_append Split_none)
qed

end

interpretation user_net: net_backend UserNet
proof
  show "\<exists>v. NicArgs UserNet ports = [''-nic'', v]" for ports
    by (simp add: UserNet_def UserNet_NicArgs_def)
  show "CHR '' '' \<notin> set iface \<Longrightarrow> CHR '' '' \<notin> set (KernelIPParam UserNet mode iface)" for iface mode
    by (simp add: UserNet_def UserNet_KernelIPParam_def SlirpGuestIP_def SlirpGateway_def
        SlirpNetmask_def SlirpDNS_def)
qed


definition spec0 :: Spec where
  "spec0 = \<lparr>sp_QEMUBin = ''/q/qemu-system-x86_64'', sp_GuestArch = ''x86_64'', sp_MemoryMB = 2048,
    sp_CPUs = 2, sp_Accel = ''kvm'', sp_KernelPath = ''/k'', sp_InitrdPath = ''/i'',
    sp_KernelCmdline = [], sp_ExtraCmdline = [], sp_DrivePath = ''/s/state.qcow2'',
    sp_SeedPath = ''/s/seed.img'', sp_Net = Some UserNet, sp_Ports = [],
    sp_SerialControl = \<lparr>ctl_Net = ''unix'', ctl_Addr = ''/s/serial.sock''\<rparr>,
    sp_QMPControl = \<lparr>ctl_Net = ''unix'', ctl_Addr = ''/s/qmp.sock''\<rparr>,
    sp_Display = ''none'', sp_ExtraArgs = [''-snapshot'']\<rparr>"


text \<open>Without one of these parts no command line is built: the error names what is missing.\<close>

theorem build_args_errors:
  "(\<exists>e. BuildArgs s = Inl e) \<longleftrightarrow>
    sp_QEMUBin s = [] \<or> sp_KernelPath s = [] \<or> sp_InitrdPath s = [] \<or> sp_DrivePath s = [] \<or>
    sp_Net s = None"
  by (cases "archParams (sp_GuestArch s) (sp_Accel s)")
    (auto simp: BuildArgs_def Let_def split: option.split)

text \<open>In the kernel modes the guest gets one \<open>ip=\<close> word after the configured command
  line, which is left as it was; the static one is the fixed SLIRP addressing.\<close>

theorem kernel_ip_word:
  assumes "sp_KernelCmdline s \<noteq> []" "mode = ''kernel-dhcp'' \<or> mode = ''kernel-static''"
    "sp_ExtraCmdline s = [UserNet_KernelIPParam mode ''eth0'']"
  shows "Split (KernelCmdlineString s) CHR '' '' = Split (sp_KernelCmdline s) CHR '' '' @
    [if mode = ''kernel-dhcp'' then ''ip=dhcp''
     else ''ip=10.0.2.15::10.0.2.2:255.255.255.0::eth0:off:10.0.2.3'']"
  using user_net.cmdline_words [of s mode] assms
  by (auto simp: UserNet_def UserNet_KernelIPParam_def SlirpGuestIP_def SlirpGateway_def
      SlirpNetmask_def SlirpDNS_def)

theorem kernel_ip_word_witness:
  "Split (KernelCmdlineString (spec0\<lparr>sp_KernelCmdline := ''quiet rw'',
     sp_ExtraCmdline := [UserNet_KernelIPParam ''kernel-dhcp'' ''eth0'']\<rparr>)) CHR '' '' =
   [''quiet'', ''rw'', ''ip=dhcp'']"
  using kernel_ip_word [of "spec0\<lparr>sp_KernelCmdline := ''quiet rw'',
     sp_ExtraCmdline := [UserNet_KernelIPParam ''kernel-dhcp'' ''eth0'']\<rparr>" "''kernel-dhcp''"]
  by (simp add: Split_def)

end
