(* ===== verification/Qemu_Download.thy ===== *)
theory Qemu_Download
  imports Qemu_Command Go_Net Go_Sha256
begin

text \<open>
  Package \<open>internal/qemu\<close>, \<open>download.go\<close>: fetching, verifying, unpacking and caching the
  static QEMU build. The web server is the parameter \<open>h\<close>; \<open>untar\<close> stands for the gzip and
  tar readers, which turn the bytes of an archive into its entries and how the stream ended.
  File modes are not modelled.
\<close>

section \<open>The release\<close>

definition qemuRepo :: string where "qemuRepo = ''spurin/dvm''"
definition qemuAssetRelease :: string where "qemuAssetRelease = ''v0.0.1''"
definition qemuVersion :: string where "qemuVersion = ''11.0.1''"

definition hostTarball :: "string \<Rightarrow> string option" where
  "hostTarball target =
     (if target = ''darwin/arm64'' then Some ''darwin-arm64''
      else if target = ''linux/amd64'' then Some ''linux-amd64''
      else if target = ''linux/arm64'' then Some ''linux-arm64''
      else if target = ''windows/amd64'' then Some ''windows-amd64'' else None)"

section \<open>Downloading and checking\<close>

definition httpGet :: "http \<Rightarrow> string \<Rightarrow> reader result" where
  "httpGet h url =
     bind_res (NewRequest h url) (\<lambda>_.
     bind_res (Do_request h url) (\<lambda>resp.
     if StatusCode resp \<noteq> 200 then Inl (Errorf ''GET %s: %s'' [url, Status_line resp])
     else Inr (Body resp)))"

definition fetchText :: "http \<Rightarrow> string \<Rightarrow> string result" where
  "fetchText h url = bind_res (httpGet h url) (ReadAllLimit (2 ^ 20))"

definition downloadToTemp :: "http \<Rightarrow> string \<Rightarrow> string \<Rightarrow> string io" where
  "downloadToTemp h url dir =
     bind_io (os_mkdir_all dir) (\<lambda>_.
     bind_io (os_create_temp dir ''qemu-dl-'' ''.tar.gz'') (\<lambda>f.
     (case httpGet h url of
        Inl e \<Rightarrow> catch_io (os_remove f) (\<lambda>_. fail_io e)
      | Inr body \<Rightarrow> catch_io (io_copy f body) (\<lambda>r. (case r of
          Inl e \<Rightarrow> catch_io (os_remove f) (\<lambda>_. fail_io e)
        | Inr _ \<Rightarrow> return_io f)))))"

definition verifySHA256 :: "string \<Rightarrow> string \<Rightarrow> unit io" where
  "verifySHA256 path want =
     (if length want \<noteq> 64 then fail_io (Errorf ''bad checksum sidecar for %s'' [Base path])
      else bind_io (os_read path) (\<lambda>b.
        let got = sha256_hex b in
        if \<not> EqualFold got want
        then fail_io (Errorf ''QEMU checksum mismatch: got %s, want %s'' [got, want])
        else return_io ()))"

fun sums_lookup :: "string list \<Rightarrow> string \<Rightarrow> string" where
  "sums_lookup [] filename = []"
| "sums_lookup (line # ls) filename =
     (let f = Fields line in
      if 2 \<le> length f \<and> last f = filename \<and> length (hd f) = 64 then ToLower (hd f)
      else sums_lookup ls filename)"

definition checksumFromSums :: "string \<Rightarrow> string \<Rightarrow> string" where
  "checksumFromSums sums filename = sums_lookup (Split sums (CHR 0x0A)) filename"

section \<open>Unpacking\<close>

datatype typeflag = TypeDir | TypeReg | TypeOther

record tar_entry =
  hdr_Name :: string
  hdr_Typeflag :: typeflag
  hdr_body :: reader

text \<open>\<open>gzip.NewReader\<close> may refuse the bytes; otherwise the tar reader yields entries and
  ends with end of file (\<open>None\<close>) or an error.\<close>

type_synonym untar = "string \<Rightarrow> (tar_entry list \<times> error option) result"

definition extract_entry :: "string \<Rightarrow> tar_entry \<Rightarrow> unit io" where
  "extract_entry dest hdr =
     (let clean = Clean (hdr_Name hdr) in
      if clean = ''.'' then return_io ()
      else if HasPrefix clean ''../'' \<or> clean = ''..''
      then fail_io (Errorf ''unsafe path in archive: %s'' [hdr_Name hdr])
      else let target = JoinPath [dest, clean] in
        (case hdr_Typeflag hdr of
           TypeDir \<Rightarrow> os_mkdir_all target
         | TypeReg \<Rightarrow>
             bind_io (os_mkdir_all (Dir target)) (\<lambda>_.
             bind_io (os_create target) (\<lambda>_.
             bind_io (io_copy target (hdr_body hdr)) (\<lambda>_.
             catch_io (os_close target) (\<lambda>_. return_io ()))))
         | TypeOther \<Rightarrow> return_io ()))"

fun extract_entries :: "string \<Rightarrow> tar_entry list \<Rightarrow> error option \<Rightarrow> unit io" where
  "extract_entries dest [] e = (case e of None \<Rightarrow> return_io () | Some x \<Rightarrow> fail_io x)"
| "extract_entries dest (hdr # hs) e =
     bind_io (extract_entry dest hdr) (\<lambda>_. extract_entries dest hs e)"

definition extractTarGz :: "untar \<Rightarrow> string \<Rightarrow> string \<Rightarrow> unit io" where
  "extractTarGz untar tgz dest =
     bind_io (os_read tgz) (\<lambda>bytes.
     bind_io (lift_res (untar bytes)) (\<lambda>(entries, e).
     bind_io (os_mkdir_all dest) (\<lambda>_.
     extract_entries dest entries e)))"

section \<open>EnsureQEMU\<close>

text \<open>From the verified archive to the cached directory: unpack beside it, swap, mark.\<close>

definition install_qemu :: "untar \<Rightarrow> string \<Rightarrow> string \<Rightarrow> string \<Rightarrow> string \<Rightarrow> unit io" where
  "install_qemu untar tmpTgz dest marker wantSum =
     (let stage = dest @ ''.tmp'' in
      catch_io (os_remove_all stage) (\<lambda>_.
      catch_io (extractTarGz untar tmpTgz stage) (\<lambda>r. (case r of
        Inl e \<Rightarrow> catch_io (os_remove_all stage) (\<lambda>_. fail_io (Wrapf ''extract QEMU: %w'' [] e))
      | Inr _ \<Rightarrow>
          catch_io (os_remove_all dest) (\<lambda>_.
          bind_io (os_mkdir_all (Dir dest)) (\<lambda>_.
          bind_io (os_rename stage dest) (\<lambda>_.
          os_write_file marker (wantSum @ [CHR 0x0A]))))))))"

definition asset_name :: "string \<Rightarrow> string" where
  "asset_name plat = ''qemu-'' @ plat @ ''-'' @ qemuVersion @ ''.tar.gz''"

definition relBase :: string where
  "relBase = ''https://github.com/'' @ qemuRepo @ ''/releases/download/'' @ qemuAssetRelease"

definition asset_url :: "string \<Rightarrow> string" where
  "asset_url name = relBase @ ''/'' @ name"

definition check_and_install :: "http \<Rightarrow> untar \<Rightarrow> string \<Rightarrow> string \<Rightarrow> string \<Rightarrow> string \<Rightarrow> unit io" where
  "check_and_install h untar tmpTgz name dest marker =
     bind_io (wrap_io ''fetch SHA256SUMS: %w'' [] (lift_res (fetchText h (asset_url ''SHA256SUMS'')))) (\<lambda>sums.
     let wantSum = checksumFromSums sums name in
     if wantSum = [] then fail_io (Errorf ''no checksum for %s in SHA256SUMS'' [name])
     else bind_io (verifySHA256 tmpTgz wantSum) (\<lambda>_.
       install_qemu untar tmpTgz dest marker wantSum))"

definition qemu_dest :: "string \<Rightarrow> string \<Rightarrow> string" where
  "qemu_dest cacheRoot plat = JoinPath [cacheRoot, ''qemu'', qemuAssetRelease, plat]"

definition EnsureQEMU :: "http \<Rightarrow> untar \<Rightarrow> string \<Rightarrow> string io" where
  "EnsureQEMU h untar cacheRoot = (\<lambda>w.
     (case hostTarball (goos w @ ''/'' @ goarch w) of
        None \<Rightarrow> fail_io (Errorf ''no prebuilt QEMU for %s/%s; install QEMU and pass --qemu-dir, or use --engine vz on macOS''
                  [goos w, goarch w])
      | Some plat \<Rightarrow>
          let dest = qemu_dest cacheRoot plat;
              binDir = (if goos w = ''windows'' then dest else JoinPath [dest, ''bin'']);
              marker = JoinPath [dest, ''.extracted''];
              name = asset_name plat
          in catch_io (os_stat marker) (\<lambda>r. (case r of
               Inr _ \<Rightarrow> return_io binDir
             | Inl _ \<Rightarrow>
                 bind_io (wrap_io ''download QEMU: %w'' [] (downloadToTemp h (asset_url name) cacheRoot)) (\<lambda>tmpTgz.
                 defer_io (os_remove tmpTgz)
                   (bind_io (check_and_install h untar tmpTgz name dest marker) (\<lambda>_. return_io binDir)))))) w)"

section \<open>Containment of the archive\<close>

text \<open>Which cells a call changed outside a directory: at most missing ancestors of it,
  which become directories.\<close>

definition contained :: "fpath \<Rightarrow> os \<Rightarrow> os \<Rightarrow> bool" where
  "contained d w w' \<longleftrightarrow> resolve w' = resolve w \<and>
     (\<forall>q. \<not> prefix d q \<longrightarrow> node_at (files w') q = node_at (files w) q \<or>
        (strict_prefix q d \<and> node_at (files w) q = None \<and> node_at (files w') q = Some Directory))"

lemma contained_refl [simp]: "contained d w w"
  by (simp add: contained_def)

lemma contained_trans: "contained d w w' \<Longrightarrow> contained d w' w'' \<Longrightarrow> contained d w w''"
  unfolding contained_def by (metis option.distinct(1))

lemma contained_frame: "frame w {q. prefix d q} w' \<Longrightarrow> contained d w w'"
  by (simp add: contained_def frame_def)

lemma contained_mkdir:
  assumes "os_mkdir_all p w = (r, w')" "prefix d (resolve w p)"
  shows "contained d w w'"
proof -
  have f: "frame w {q. prefix q (resolve w p)} w'" by (rule os_mkdir_all_frame [OF assms(1)])
  show ?thesis unfolding contained_def
  proof (intro conjI allI impI)
    show "resolve w' = resolve w" by (rule frame_resolve [OF f])
    fix q assume n: "\<not> prefix d q"
    show "node_at (files w') q = node_at (files w) q \<or>
        (strict_prefix q d \<and> node_at (files w) q = None \<and> node_at (files w') q = Some Directory)"
    proof (cases "prefix q (resolve w p)")
      case False
      then show ?thesis using frame_node [OF f] by simp
    next
      case True
      then have "strict_prefix q d"
        using n assms(2) by (metis prefix_order.le_imp_less_or_eq prefix_same_cases)
      then show ?thesis using os_mkdir_all_node [OF assms(1)] by blast
    qed
  qed
qed

text \<open>The parent of an entry's target: inside the destination, or above it when the entry is
  the destination itself.\<close>

lemma Dir_target_root:
  assumes "IsAbs dest" "target = Clean (dest @ CHR ''/'' # clean)" "comps target = comps dest"
  shows "prefix (resolve w (Dir target)) (comps dest)"
proof -
  have a: "IsAbs (dest @ CHR ''/'' # clean)" using assms(1) by simp
  have e: "comps (dest @ CHR ''/'' # clean) = comps dest" using assms(3) a by (simp add: assms(2))
  show ?thesis
  proof (cases "comps dest" rule: rev_cases)
    case Nil
    then have "target = ''/''" using a e by (simp add: assms(2) Clean_abs)
    then have "Dir target = ''/''" by (simp add: Dir_def Clean_def IsAbs_def Split_def LastIndex_def)
    then show ?thesis by (simp add: resolve_def IsAbs_def comps_def Split_def)
  next
    case (snoc ds x)
    with Dir_Clean [OF a, of ds x] e show ?thesis by (simp add: assms(2) resolve_abs)
  qed
qed

lemma mkdir_target_contained:
  assumes "os_mkdir_all (Dir target) w = (r1, w1)" "IsAbs dest" "target = JoinPath [dest, clean]"
    "comps target = comps dest @ cs"
  shows "contained (comps dest) w w1"
proof -
  have clean_target: "target = Clean (dest @ CHR ''/'' # clean)"
    using assms(2) by (simp add: assms(3) JoinPath_abs)
  show ?thesis
  proof (cases "cs = []")
    case False
    then obtain ds x where snoc: "cs = ds @ [x]" by (metis rev_exhaust)
    have a: "IsAbs (dest @ CHR ''/'' # clean)" using assms(2) by simp
    have "comps (dest @ CHR ''/'' # clean) = (comps dest @ ds) @ [x]"
      using assms(4) a by (simp add: clean_target snoc)
    from Dir_Clean [OF a this] have "resolve w (Dir target) = comps dest @ ds"
      by (simp add: clean_target resolve_abs)
    with contained_mkdir [OF assms(1)] show ?thesis by simp
  next
    case True
    then have p: "prefix (resolve w (Dir target)) (comps dest)"
      using Dir_target_root [OF assms(2) clean_target] assms(4) by simp
    have f: "frame w {q. prefix q (resolve w (Dir target))} w1" by (rule os_mkdir_all_frame [OF assms(1)])
    show ?thesis unfolding contained_def
      using frame_resolve [OF f] frame_node [OF f] os_mkdir_all_node [OF assms(1)] p
      by (metis (mono_tags, lifting) mem_Collect_eq prefix_order.antisym_conv2 prefix_order.dual_order.trans)
  qed
qed

lemma extract_entry_contained:
  assumes "extract_entry dest hdr w = (r, w')" "IsAbs dest"
  shows "contained (comps dest) w w'"
proof -
  define clean where "clean = Clean (hdr_Name hdr)"
  define target where "target = JoinPath [dest, clean]"
  note def = extract_entry_def [of dest hdr, folded clean_def, unfolded Let_def, folded target_def]
  show ?thesis
  proof (cases "clean = ''.'' \<or> HasPrefix clean ''../'' \<or> clean = ''..''")
    case True
    with assms(1) show ?thesis by (auto simp: def split: if_splits)
  next
    case False
    then obtain cs where cs: "list_all plain cs" "comps target = comps dest @ cs"
      using Clean_safe_join [OF assms(2), of "hdr_Name hdr"] by (auto simp: target_def clean_def)
    have ta: "IsAbs target" using assms(2) by (simp add: target_def)
    then have res: "resolve x target = comps dest @ cs" for x using cs by (simp add: resolve_abs)
    show ?thesis
    proof (cases "hdr_Typeflag hdr")
      case TypeDir
      with False assms(1) have "os_mkdir_all target w = (r, w')" by (simp add: def)
      then show ?thesis by (rule contained_mkdir) (simp add: res)
    next
      case TypeOther
      with False assms(1) show ?thesis by (simp add: def)
    next
      case TypeReg
      obtain r1 w1 where m: "os_mkdir_all (Dir target) w = (r1, w1)" by (cases "os_mkdir_all (Dir target) w")
      obtain r2 w2 where c: "os_create target w1 = (r2, w2)" by (cases "os_create target w1")
      obtain r3 w3 where cp: "io_copy target (hdr_body hdr) w2 = (r3, w3)"
        by (cases "io_copy target (hdr_body hdr) w2")
      obtain r4 w4 where cl: "os_close target w3 = (r4, w4)" by (cases "os_close target w3")
      have fin: "w' = w1 \<or> w' = w2 \<or> w' = w3 \<or> w' = w4"
        using assms(1) False TypeReg m c cp cl by (auto simp: def io_simps split: sum.splits)
      have c1: "contained (comps dest) w w1"
        by (rule mkdir_target_contained [OF m assms(2) target_def cs(2)])
      have r1: "resolve w1 = resolve w" using c1 by (simp add: contained_def)
      have f2: "frame w1 {q. prefix (comps dest) q} w2"
        by (rule frame_mono [OF os_create_frame [OF c]]) (simp add: res)
      have f3: "frame w2 {q. prefix (comps dest) q} w3"
        by (rule frame_mono [OF io_copy_frame [OF cp]]) (simp add: res)
      have f4: "frame w3 {q. prefix (comps dest) q} w4" by (rule os_close_frame [OF cl])
      show ?thesis
        using fin c1 contained_trans [OF c1] contained_frame f2 frame_comp [OF f2 f3]
          frame_comp [OF frame_comp [OF f2 f3] f4] by metis
    qed
  qed
qed

lemma extract_entries_contained:
  "extract_entries dest hs e w = (r, w') \<Longrightarrow> IsAbs dest \<Longrightarrow> contained (comps dest) w w'"
proof (induction hs arbitrary: w)
  case Nil
  then show ?case by (auto split: option.splits)
next
  case (Cons hdr hs)
  obtain r1 w1 where x: "extract_entry dest hdr w = (r1, w1)" by (cases "extract_entry dest hdr w")
  have c: "contained (comps dest) w w1" by (rule extract_entry_contained [OF x Cons.prems(2)])
  with Cons x show ?case
    by (auto simp: io_simps split: sum.splits intro: contained_trans)
qed

text \<open>C6. No archive escapes: whatever entries it has (absolute names, \<open>..\<close>, links) and
  whatever faults occur, unpacking changes nothing outside the target directory except that
  missing parent directories of it are made.\<close>

theorem extract_contained:
  assumes "extractTarGz untar tgz dest w = (r, w')" "IsAbs dest"
  shows "contained (comps dest) w w'"
proof -
  obtain r1 w1 where rd: "os_read tgz w = (r1, w1)" by (cases "os_read tgz w")
  have c1: "contained (comps dest) w w1" by (rule contained_frame [OF os_read_frame [OF rd]])
  show ?thesis
  proof (cases "\<exists>b x. r1 = Inr b \<and> untar b = Inr x")
    case False
    with assms(1) rd c1 show ?thesis
      by (auto simp: extractTarGz_def io_simps split: sum.splits)
  next
    case True
    then obtain b hs e where u: "r1 = Inr b" "untar b = Inr (hs, e)" by auto
    obtain r2 w2 where m: "os_mkdir_all dest w1 = (r2, w2)" by (cases "os_mkdir_all dest w1")
    have c2: "contained (comps dest) w w2"
      using c1 contained_mkdir [OF m, of "comps dest"] assms(2) by (auto simp: resolve_abs intro: contained_trans)
    with assms u rd m extract_entries_contained show ?thesis
      by (auto simp: extractTarGz_def io_simps split: sum.splits intro: contained_trans)
  qed
qed

text \<open>A concrete archive: a directory, a file in it, a link, and a name that climbs out.\<close>

definition tar0 :: untar where
  "tar0 b = Inr ([\<lparr>hdr_Name = ''bin/'', hdr_Typeflag = TypeDir, hdr_body = ([], None)\<rparr>,
     \<lparr>hdr_Name = ''bin/qemu-img'', hdr_Typeflag = TypeReg, hdr_body = (''ELF'', None)\<rparr>,
     \<lparr>hdr_Name = ''bin/l'', hdr_Typeflag = TypeOther, hdr_body = ([], None)\<rparr>,
     \<lparr>hdr_Name = ''a/../../evil'', hdr_Typeflag = TypeReg, hdr_body = (''x'', None)\<rparr>], None)"

definition tar_host :: os where
  "tar_host = host0\<lparr>files := [([''c''], Directory), ([''c'', ''t''], File ''gz'')]\<rparr>"

lemma extract_run0:
  "case extractTarGz tar0 ''/c/t'' ''/c/x'' tar_host of
     (r, w') \<Rightarrow> r = Inl (Errorf ''unsafe path in archive: %s'' [''a/../../evil'']) \<and>
       file_at w' ''/c/x/bin/qemu-img'' = Some ''ELF''"
  by code_simp

theorem extract_contained_witness:
  "\<exists>r w'. extractTarGz tar0 ''/c/t'' ''/c/x'' tar_host = (r, w') \<and>
     file_at w' ''/c/x/bin/qemu-img'' = Some ''ELF'' \<and> contained (comps ''/c/x'') tar_host w'"
proof -
  obtain r w' where e: "extractTarGz tar0 ''/c/t'' ''/c/x'' tar_host = (r, w')"
    by (cases "extractTarGz tar0 ''/c/t'' ''/c/x'' tar_host")
  have "IsAbs ''/c/x''" by code_simp
  from extract_contained [OF e this] e extract_run0 show ?thesis by auto
qed

section \<open>The download\<close>

text \<open>Cells the download may touch: ancestors of the cache root, the root, and the
  temporary file in it.\<close>

definition dl_region :: "string \<Rightarrow> fpath set" where
  "dl_region root = {q. prefix q (comps root)} \<union>
     {q. \<exists>n. q = comps root @ [''qemu-dl-'' @ nat_str n @ ''.tar.gz'']}"

lemma plain_dl: "plain (''qemu-dl-'' @ nat_str n @ ''.tar.gz'')"
  by (rule plain_prefix_digits) simp_all

text \<open>Filling the temporary file: only that file changes, and on success it holds the body.\<close>

lemma download_fill_frame:
  assumes "(case httpGet h url of
      Inl e \<Rightarrow> catch_io (os_remove f) (\<lambda>_. fail_io e)
    | Inr body \<Rightarrow> catch_io (io_copy f body) (\<lambda>r. (case r of
        Inl e \<Rightarrow> catch_io (os_remove f) (\<lambda>_. fail_io e)
      | Inr _ \<Rightarrow> return_io f))) w = (r, w')"
    "node_at (files w) (resolve w f) = Some (File [])"
  shows "frame w {resolve w f} w' \<and> (\<forall>p. r = Inr p \<longrightarrow> p = f \<and>
     (\<exists>b. httpGet h url = Inr (b, None) \<and> node_at (files w') (resolve w f) = Some (File b)))"
proof (cases "httpGet h url")
  case (Inl e)
  obtain r1 w1 where rm: "os_remove f w = (r1, w1)" by (cases "os_remove f w")
  with assms(1) Inl os_remove_frame [OF rm] show ?thesis by (auto simp: io_simps)
next
  case (Inr body)
  obtain r1 w1 where cp: "io_copy f body w = (r1, w1)" by (cases "io_copy f body w")
  note f1 = io_copy_frame [OF cp]
  show ?thesis
  proof (cases r1)
    case (Inl e)
    obtain r2 w2 where rm: "os_remove f w1 = (r2, w2)" by (cases "os_remove f w1")
    have "frame w1 {resolve w f} w2"
      using os_remove_frame [OF rm] frame_resolve [OF f1] by simp
    with f1 have "frame w {resolve w f} w2" by (rule frame_comp)
    with assms(1) Inr cp Inl rm show ?thesis by (auto simp: io_simps)
  next
    case r1: (Inr u)
    with assms(1) Inr cp have "r = Inr f" "w' = w1" by (simp_all add: io_simps)
    with f1 io_copy_ok [OF cp [unfolded r1]] assms(2) Inr show ?thesis by (cases body) auto
  qed
qed

lemma downloadToTemp_frame:
  assumes "downloadToTemp h url root w = (r, w')" "IsAbs root"
  shows "frame w (dl_region root) w' \<and>
    (\<forall>p. r = Inr p \<longrightarrow> resolve w p \<in> dl_region root \<and>
       (\<exists>b. httpGet h url = Inr (b, None) \<and> node_at (files w') (resolve w p) = Some (File b)))"
proof -
  let ?R = "dl_region root"
  obtain r1 w1 where m: "os_mkdir_all root w = (r1, w1)" by (cases "os_mkdir_all root w")
  have f1: "frame w ?R w1"
    by (rule frame_mono [OF os_mkdir_all_frame [OF m]]) (auto simp: dl_region_def resolve_abs assms(2))
  show ?thesis
  proof (cases r1)
    case (Inl e)
    with assms(1) m f1 show ?thesis by (auto simp: downloadToTemp_def io_simps)
  next
    case (Inr u1)
    obtain r2 w2 where t: "os_create_temp root ''qemu-dl-'' ''.tar.gz'' w1 = (r2, w2)"
      by (cases "os_create_temp root ''qemu-dl-'' ''.tar.gz'' w1")
    show ?thesis
    proof (cases r2)
      case (Inl e)
      have "frame w1 {} w2" using os_create_temp_frame [OF t] Inl by simp
      then have "frame w ?R w2" using f1 frame_comp frame_mono by blast
      with assms(1) m \<open>r1 = Inr u1\<close> t Inl show ?thesis by (auto simp: downloadToTemp_def io_simps)
    next
      case r2: (Inr f)
      note tok = os_create_temp_ok [OF t [unfolded r2]]
      obtain n where fp: "f = JoinPath [root, ''qemu-dl-'' @ nat_str n @ ''.tar.gz'']" using tok(3) by blast
      have fa: "IsAbs f" "comps f = comps root @ [''qemu-dl-'' @ nat_str n @ ''.tar.gz'']"
        unfolding fp using assms(2) plain_dl [of n] by (simp_all del: append_Cons)
      then have fr: "resolve x f \<in> ?R" for x by (auto simp: dl_region_def resolve_abs)
      have f2: "frame w1 ?R w2"
        by (rule frame_mono [OF os_create_temp_frame [OF t]]) (use r2 fr in auto)
      have rr: "resolve w2 = resolve w" using frame_resolve [OF f1] frame_resolve [OF f2] by simp
      have e: "node_at (files w2) (resolve w2 f) = Some (File [])"
        using tok(2) frame_resolve [OF f2] by simp
      have run: "(case httpGet h url of
          Inl e \<Rightarrow> catch_io (os_remove f) (\<lambda>_. fail_io e)
        | Inr body \<Rightarrow> catch_io (io_copy f body) (\<lambda>r. (case r of
            Inl e \<Rightarrow> catch_io (os_remove f) (\<lambda>_. fail_io e)
          | Inr _ \<Rightarrow> return_io f))) w2 = (r, w')"
        using assms(1) m \<open>r1 = Inr u1\<close> t r2 by (simp add: downloadToTemp_def io_simps)
      note fill = download_fill_frame [OF run e]
      have "frame w2 ?R w'" by (rule frame_mono [OF conjunct1 [OF fill]]) (use fr in auto)
      with f1 f2 have "frame w ?R w'" by (meson frame_comp)
      with fill fr rr show ?thesis by auto
    qed
  qed
qed

section \<open>The checksum\<close>

lemma lower_hex_char [simp]: "d < 16 \<Longrightarrow> lower_char (hex_char d) = hex_char d"
  by (auto simp: lower_char_def hex_char_def Let_def)

lemma ToLower_hex_encode [simp]: "ToLower (hex_encode b) = hex_encode b"
proof (induction b)
  case (Cons c b)
  have "of_char c < (256::nat)" by (rule nat_of_char_less_256)
  then have "of_char c div 16 < (16::nat)" by (intro less_mult_imp_div_less) simp
  with Cons show ?case by (simp add: ToLower_def)
qed (simp add: ToLower_def)

lemma checksum_lower: "ToLower (sums_lookup ls n) = sums_lookup ls n"
  by (induction ls) (simp_all add: Let_def, simp add: ToLower_def)

lemma verifySHA256_ok:
  assumes "verifySHA256 p want w = (Inr u, w')" "ToLower want = want"
  shows "\<exists>b. node_at (files w) (resolve w p) = Some (File b) \<and> sha256_hex b = want \<and> files w' = files w \<and>
    frame w {} w'"
proof -
  obtain b where rd: "os_read p w = (Inr b, w')" and e: "EqualFold (sha256_hex b) want"
    using assms(1) by (auto simp: verifySHA256_def bind_io_ok Let_def split: if_splits)
  have "sha256_hex b = want" using e assms(2) by (simp add: EqualFold_def sha256_hex_def)
  with os_read_ok [OF rd] os_read_files [OF rd] os_read_frame [OF rd] show ?thesis by blast
qed

lemma verifySHA256_frame: "verifySHA256 p want w = (r, w') \<Longrightarrow> frame w {} w'"
  by (cases "os_read p w") (auto simp: verifySHA256_def io_simps Let_def
      dest: os_read_frame split: if_splits sum.splits)

text \<open>The bytes the sums list vouches for.\<close>

definition vouched :: "http \<Rightarrow> string \<Rightarrow> string \<Rightarrow> bool" where
  "vouched h name b \<longleftrightarrow> httpGet h (asset_url name) = Inr (b, None) \<and>
     (\<exists>sums. fetchText h (asset_url ''SHA256SUMS'') = Inr sums \<and>
        checksumFromSums sums name = sha256_hex b)"

lemma check_and_install_rejects:
  assumes "check_and_install h untar t name dest marker w = (r, w')"
    "node_at (files w) (resolve w t) = Some (File b)" "httpGet h (asset_url name) = Inr (b, None)"
    "\<not> vouched h name b"
  shows "(\<exists>e. r = Inl e) \<and> frame w {} w'"
proof (cases "fetchText h (asset_url ''SHA256SUMS'')")
  case (Inl e)
  with assms(1) show ?thesis by (auto simp: check_and_install_def io_simps)
next
  case (Inr sums)
  let ?want = "checksumFromSums sums name"
  have low: "ToLower ?want = ?want" by (simp add: checksumFromSums_def checksum_lower)
  obtain r1 w1 where v: "verifySHA256 t ?want w = (r1, w1)" by (cases "verifySHA256 t ?want w")
  have "\<exists>e. r1 = Inl e"
  proof (rule ccontr)
    assume "\<nexists>e. r1 = Inl e"
    then obtain u where "r1 = Inr u" by (cases r1) auto
    with verifySHA256_ok [of t ?want w u w1] v low assms(2) have "?want = sha256_hex b" by auto
    with assms(3,4) Inr show False by (simp add: vouched_def)
  qed
  with assms(1) Inr v verifySHA256_frame [OF v] show ?thesis
    by (auto simp: check_and_install_def io_simps Let_def split: if_splits)
qed

section \<open>The cached directory\<close>

lemma hostTarball_plain: "hostTarball t = Some p \<Longrightarrow> plain p \<and> plain (p @ ''.tmp'')"
  by (auto simp: hostTarball_def plain_def split: if_splits)

lemma plain_release [simp]: "plain ''qemu''" "plain qemuAssetRelease" "plain ''.extracted''" "plain ''bin''"
  by (simp_all add: plain_def qemuAssetRelease_def)

lemma qemu_dest_path:
  assumes "IsAbs root" "plain plat"
  shows "IsAbs (qemu_dest root plat)"
    "comps (qemu_dest root plat) = comps root @ [''qemu'', qemuAssetRelease, plat]"
    "IsAbs (JoinPath [qemu_dest root plat, ''.extracted''])"
    "comps (JoinPath [qemu_dest root plat, ''.extracted'']) =
       comps root @ [''qemu'', qemuAssetRelease, plat, ''.extracted'']"
  using assms by (simp_all add: qemu_dest_def)

lemma not_dl_region:
  "comps root @ x # y # zs \<notin> dl_region root"
  by (auto simp: dl_region_def)

lemma EnsureQEMU_rejects:
  assumes "EnsureQEMU h untar root w = (r, w')" "IsAbs root"
    "hostTarball (goos w @ ''/'' @ goarch w) = Some plat"
    "os_stat (JoinPath [qemu_dest root plat, ''.extracted'']) w = (Inl e0, w0)"
    "\<nexists>b. vouched h (asset_name plat) b"
  shows "(\<exists>e. r = Inl e) \<and> frame w (dl_region root) w'"
proof -
  define marker where "marker = JoinPath [qemu_dest root plat, ''.extracted'']"
  define url where "url = asset_url (asset_name plat)"
  note st = assms(4) [folded marker_def]
  have f0: "frame w (dl_region root) w0" by (rule os_stat_frame [OF st])
  obtain r1 w1 where dl: "downloadToTemp h url root w0 = (r1, w1)" by (cases "downloadToTemp h url root w0")
  note dlf = downloadToTemp_frame [OF dl assms(2)]
  have f1: "frame w (dl_region root) w1" using f0 dlf by (blast intro: frame_comp)
  show ?thesis
  proof (cases r1)
    case (Inl e)
    with assms(1,3) st dl f1 show ?thesis
      by (auto simp: EnsureQEMU_def Let_def io_simps marker_def [symmetric] url_def [symmetric])
  next
    case (Inr t)
    with dlf obtain b where b: "httpGet h url = Inr (b, None)" "node_at (files w1) (resolve w1 t) = Some (File b)"
      "resolve w0 t \<in> dl_region root"
      using frame_resolve by metis
    obtain r2 w2 where ci: "check_and_install h untar t (asset_name plat) (qemu_dest root plat) marker w1 = (r2, w2)"
      by (cases "check_and_install h untar t (asset_name plat) (qemu_dest root plat) marker w1")
    have rej: "(\<exists>e. r2 = Inl e) \<and> frame w1 {} w2"
      using check_and_install_rejects [OF ci b(2)] b(1) assms(5) unfolding url_def by blast
    obtain r3 w3 where rm: "os_remove t w2 = (r3, w3)" by (cases "os_remove t w2")
    have "resolve w2 t = resolve w0 t"
      using rej dlf frame_resolve by metis
    then have "frame w2 (dl_region root) w3"
      using frame_mono [OF os_remove_frame [OF rm]] b(3) by simp
    moreover have "frame w1 (dl_region root) w2" using rej frame_mono by blast
    ultimately have "frame w (dl_region root) w3" using f1 by (meson frame_comp)
    with assms(1,3) st dl Inr ci rej rm show ?thesis
      by (auto simp: EnsureQEMU_def Let_def io_simps marker_def [symmetric] url_def [symmetric])
  qed
qed

text \<open>C5. Unverified bytes never reach the cached QEMU directory. Whatever the server answers
  and whatever faults occur: if the directory's marker was not there before, it is there
  afterwards, or any cell of the directory changed, or the call succeeded, then the whole
  archive was downloaded and its SHA-256 is the one \<open>SHA256SUMS\<close> lists for its name.\<close>

theorem ensure_qemu_verified:
  assumes "EnsureQEMU h untar root w = (r, w')" "IsAbs root"
    "hostTarball (goos w @ ''/'' @ goarch w) = Some plat" "d = comps (qemu_dest root plat)"
    "node_at (files w) (d @ [''.extracted'']) = None"
    "(\<exists>p. r = Inr p) \<or> (\<exists>q. prefix d q \<and> node_at (files w') q \<noteq> node_at (files w) q)"
  shows "\<exists>b. vouched h (asset_name plat) b"
proof (rule ccontr)
  assume nv: "\<nexists>b. vouched h (asset_name plat) b"
  have pl: "plain plat" using hostTarball_plain [OF assms(3)] by simp
  note dp = qemu_dest_path [OF assms(2) pl]
  let ?m = "JoinPath [qemu_dest root plat, ''.extracted'']"
  obtain r0 w0 where st: "os_stat ?m w = (r0, w0)" by (cases "os_stat ?m w")
  have "\<exists>e. r0 = Inl e"
  proof (rule ccontr)
    assume "\<nexists>e. r0 = Inl e"
    then obtain n where "r0 = Inr n" by (cases r0) auto
    with os_stat_ok [of ?m w n w0] st assms(4,5) dp show False by (simp add: resolve_abs)
  qed
  with EnsureQEMU_rejects [OF assms(1-3) _ nv] st
  have "(\<exists>e. r = Inl e) \<and> frame w (dl_region root) w'" by blast
  moreover have "q \<notin> dl_region root" if "prefix d q" for q
    using that assms(4) dp(2) not_dl_region by (auto simp: prefix_def)
  ultimately show False using assms(6) frame_node by blast
qed

text \<open>A concrete server and host: the archive is two bytes with no entries, the sums list has
  one line.\<close>

definition sums0 :: string where
  "sums0 = sha256_hex ''gz'' @ '' '' @ asset_name ''linux-amd64''"

definition web0 :: "string \<Rightarrow> http" where
  "web0 sums = \<lparr>NewRequest = (\<lambda>_. Inr ()),
     Do_request = (\<lambda>url. Inr \<lparr>StatusCode = 200, Status_line = ''200 OK'',
       Body = (if url = asset_url ''SHA256SUMS'' then (sums, None) else (''gz'', None))\<rparr>)\<rparr>"

definition empty_tar :: untar where
  "empty_tar b = Inr ([], None)"

definition dl_host :: os where
  "dl_host = host0\<lparr>files := [([''c''], Directory)]\<rparr>"

definition dl_host1 :: os where
  "dl_host1 = host0\<lparr>files := [([''c''], Directory), ([], Directory), ([''c'', ''qemu-dl-7.tar.gz''], File ''gz'')], rands := [8, 9]\<rparr>"

lemma is_space_not_hex: "d < 16 \<Longrightarrow> \<not> is_space (hex_char d)"
proof -
  assume "d < 16"
  then have "hex_val (hex_char d) = Some d" by simp
  then show ?thesis by (auto simp: is_space_def hex_val_def Let_def)
qed

lemma hex_no_space: "c \<in> set (hex_encode b) \<Longrightarrow> \<not> is_space c"
proof (induction b)
  case (Cons a b)
  have "of_char a < (256::nat)" by (rule nat_of_char_less_256)
  then have "of_char a div 16 < (16::nat)" by (intro less_mult_imp_div_less) simp
  with Cons show ?case using is_space_not_hex by auto
qed simp

lemma checksum_line:
  assumes "\<forall>c \<in> set hx. \<not> is_space c" "length hx = 64" "ToLower hx = hx"
    "\<forall>c \<in> set n. \<not> is_space c" "n \<noteq> []"
  shows "checksumFromSums (hx @ CHR 0x20 # n) n = hx"
proof -
  have sp: "is_space (CHR 0x20)" "is_space (CHR 0x0A)" by code_simp+
  have nl: "CHR 0x0A \<notin> set (hx @ CHR 0x20 # n)" using assms(1,4) sp(2) by auto
  have ne: "hx \<noteq> []" using assms(2) by auto
  have "split_by is_space (hx @ CHR 0x20 # n) = [hx, n]"
    using split_by_append [of is_space "CHR 0x20" hx n] sp(1) split_by_none [OF assms(1)] split_by_none [OF assms(4)] by simp
  then have "Fields (hx @ CHR 0x20 # n) = [hx, n]" using ne assms(5) by (simp add: Fields_def)
  with assms(2,3) show ?thesis by (simp add: checksumFromSums_def Split_none [OF nl])
qed

lemma checksum_sums0: "checksumFromSums sums0 (asset_name ''linux-amd64'') = sha256_hex ''gz''"
proof -
  have n: "\<forall>c \<in> set (asset_name ''linux-amd64''). \<not> is_space c" "asset_name ''linux-amd64'' \<noteq> []"
    by code_simp+
  have e: "sums0 = sha256_hex ''gz'' @ CHR 0x20 # asset_name ''linux-amd64''" by (simp add: sums0_def)
  show ?thesis unfolding e
    by (rule checksum_line) (use n hex_no_space in \<open>auto simp: sha256_hex_def\<close>)
qed

lemma dl0_run: "downloadToTemp (web0 sums) (asset_url (asset_name ''linux-amd64'')) ''/c'' dl_host =
    (Inr ''/c/qemu-dl-7.tar.gz'', dl_host1)"
  by code_simp

lemma install0_run:
  "\<exists>w'. install_qemu empty_tar ''/c/qemu-dl-7.tar.gz'' (qemu_dest ''/c'' ''linux-amd64'')
     (JoinPath [qemu_dest ''/c'' ''linux-amd64'', ''.extracted'']) x dl_host1 = (Inr (), w')"
proof -
  have "fst (install_qemu empty_tar ''/c/qemu-dl-7.tar.gz'' (qemu_dest ''/c'' ''linux-amd64'')
     (JoinPath [qemu_dest ''/c'' ''linux-amd64'', ''.extracted'']) x dl_host1) = Inr ()"
    by code_simp
  then show ?thesis by (metis prod.collapse)
qed

lemma ensure0_run: "\<exists>p w'. EnsureQEMU (web0 sums0) empty_tar ''/c'' dl_host = (Inr p, w')"
proof -
  let ?n = "asset_name ''linux-amd64''" and ?t = "''/c/qemu-dl-7.tar.gz''"
  let ?m = "JoinPath [qemu_dest ''/c'' ''linux-amd64'', ''.extracted'']"
  have t: "hostTarball (goos dl_host @ ''/'' @ goarch dl_host) = Some ''linux-amd64''" by code_simp
  have st: "os_stat ?m dl_host = (Inl (Sys ENOENT), dl_host)" by code_simp
  have rd: "os_read ?t dl_host1 = (Inr ''gz'', dl_host1)" by code_simp
  have len: "length sums0 < 2 ^ 20" by (simp add: sums0_def sha256_hex_def asset_name_def qemuVersion_def)
  have ft: "fetchText (web0 sums0) (asset_url ''SHA256SUMS'') = Inr sums0"
    using len by (simp add: fetchText_def httpGet_def web0_def ReadAllLimit_def)
  have v: "verifySHA256 ?t (sha256_hex ''gz'') dl_host1 = (Inr (), dl_host1)"
    using rd by (simp add: verifySHA256_def io_simps EqualFold_def)
  obtain w2 where ins: "install_qemu empty_tar ?t (qemu_dest ''/c'' ''linux-amd64'') ?m (sha256_hex ''gz'') dl_host1 = (Inr (), w2)"
    using install0_run by blast
  have "check_and_install (web0 sums0) empty_tar ?t ?n (qemu_dest ''/c'' ''linux-amd64'') ?m dl_host1 = (Inr (), w2)"
    using ft v ins checksum_sums0 by (simp add: check_and_install_def io_simps Let_def length_greater_0_conv [symmetric])
  with t st dl0_run [of sums0] show ?thesis by (simp add: EnsureQEMU_def Let_def io_simps)
qed

theorem ensure_qemu_verified_witness:
  "vouched (web0 sums0) (asset_name ''linux-amd64'') ''gz''"
proof -
  have t: "hostTarball (goos dl_host @ ''/'' @ goarch dl_host) = Some ''linux-amd64''" by code_simp
  have a: "IsAbs ''/c''" by code_simp
  have n: "node_at (files dl_host) (comps (qemu_dest ''/c'' ''linux-amd64'') @ [''.extracted'']) = None" by code_simp
  obtain p w' where r: "EnsureQEMU (web0 sums0) empty_tar ''/c'' dl_host = (Inr p, w')" using ensure0_run by blast
  from ensure_qemu_verified [OF r a t refl n] obtain b where v: "vouched (web0 sums0) (asset_name ''linux-amd64'') b"
    by blast
  have "asset_url (asset_name ''linux-amd64'') \<noteq> asset_url ''SHA256SUMS''" by code_simp
  with v have "b = ''gz''" by (simp add: vouched_def httpGet_def web0_def)
  with v show ?thesis by simp
qed

text \<open>A cached copy is used as it is: with the marker present the answer does not depend on
  the server or the archive and nothing changes on disk.\<close>

theorem ensure_qemu_cached:
  assumes "hostTarball (goos w @ ''/'' @ goarch w) = Some plat" "IsAbs root" "faults w = []"
    "node_at (files w) (comps (qemu_dest root plat) @ [''.extracted'']) \<noteq> None"
  shows "EnsureQEMU h untar root w =
    (Inr (if goos w = ''windows'' then qemu_dest root plat else JoinPath [qemu_dest root plat, ''bin'']), w)"
proof -
  have pl: "plain plat" using hostTarball_plain [OF assms(1)] by simp
  note dp = qemu_dest_path [OF assms(2) pl]
  obtain n where "node_at (files w) (comps (qemu_dest root plat) @ [''.extracted'']) = Some n"
    using assms(4) by blast
  then have "os_stat (JoinPath [qemu_dest root plat, ''.extracted'']) w = (Inr n, w)"
    using assms(3) dp by (simp add: os_stat_def syscall_none resolve_abs)
  with assms(1) show ?thesis by (simp add: EnsureQEMU_def Let_def io_simps)
qed

theorem ensure_qemu_cached_witness:
  "fst (EnsureQEMU h untar ''/c'' (host0\<lparr>files := [([''c'', ''qemu'', ''v0.0.1'', ''linux-amd64'', ''.extracted''], File [])]\<rparr>)) =
     Inr ''/c/qemu/v0.0.1/linux-amd64/bin''"
proof -
  let ?w = "host0\<lparr>files := [([''c'', ''qemu'', ''v0.0.1'', ''linux-amd64'', ''.extracted''], File [])]\<rparr>"
  have t: "hostTarball (goos ?w @ ''/'' @ goarch ?w) = Some ''linux-amd64''" by code_simp
  have d: "comps (qemu_dest ''/c'' ''linux-amd64'') = [''c'', ''qemu'', ''v0.0.1'', ''linux-amd64'']" by code_simp
  have a: "IsAbs ''/c''" by code_simp
  have b: "JoinPath [qemu_dest ''/c'' ''linux-amd64'', ''bin''] = ''/c/qemu/v0.0.1/linux-amd64/bin''" by code_simp
  show ?thesis
    using ensure_qemu_cached [OF t a, of h untar] d b by (simp add: node_at_def)
qed

end
