(* ===== verification/VM_State.thy ===== *)
theory VM_State
  imports Platform Qemu_Command
begin

text \<open>
  Package \<open>internal/vm\<close>: the directory of a VM instance (\<open>state.go\<close>), its pid file, its
  lock, and the control channels (\<open>control_unix.go\<close>, \<open>control_windows.go\<close>). The lock is
  modelled twice: \<open>AcquireLock\<close> runs undisturbed, \<open>lock_step\<close> is the same code one system
  call at a time, so that several launchers can be interleaved; \<open>lock_steps_acquire\<close> says
  that the two agree.
\<close>

section \<open>Paths\<close>

record State =
  st_Dir :: string

definition NewState :: "string \<Rightarrow> State io" where
  "NewState dir =
     (if dir = [] then fail_io (Errorf ''state dir must not be empty'' [])
      else bind_io (os_mkdir_all (JoinPath [dir, ''logs''])) (\<lambda>_. return_io \<lparr>st_Dir = dir\<rparr>))"

definition OverlayPath :: "State \<Rightarrow> string" where
  "OverlayPath s = JoinPath [st_Dir s, ''state.qcow2'']"
definition SeedPath :: "State \<Rightarrow> string" where
  "SeedPath s = JoinPath [st_Dir s, ''seed.img'']"
definition QMPSocket :: "State \<Rightarrow> string" where
  "QMPSocket s = JoinPath [st_Dir s, ''qmp.sock'']"
definition SerialSocket :: "State \<Rightarrow> string" where
  "SerialSocket s = JoinPath [st_Dir s, ''serial.sock'']"
definition PIDPath :: "State \<Rightarrow> string" where
  "PIDPath s = JoinPath [st_Dir s, ''qemu.pid'']"
definition LockPath :: "State \<Rightarrow> string" where
  "LockPath s = JoinPath [st_Dir s, ''lock'']"
definition LauncherLog :: "State \<Rightarrow> string" where
  "LauncherLog s = JoinPath [st_Dir s, ''logs'', ''launcher.log'']"
definition QEMULog :: "State \<Rightarrow> string" where
  "QEMULog s = JoinPath [st_Dir s, ''logs'', ''qemu.log'']"
definition SerialLog :: "State \<Rightarrow> string" where
  "SerialLog s = JoinPath [st_Dir s, ''logs'', ''serial.log'']"

lemmas state_path_defs = OverlayPath_def SeedPath_def QMPSocket_def SerialSocket_def PIDPath_def
  LockPath_def LauncherLog_def QEMULog_def SerialLog_def

lemma plain_state_names [simp]:
  "plain ''state.qcow2''" "plain ''seed.img''" "plain ''qmp.sock''" "plain ''serial.sock''"
  "plain ''qemu.pid''" "plain ''lock''" "plain ''logs''" "plain ''launcher.log''" "plain ''qemu.log''"
  "plain ''serial.log''" "plain ''disk.img''"
  by (simp_all add: plain_def)

lemma state_paths_abs [simp]:
  assumes "IsAbs (st_Dir s)"
  shows "IsAbs (OverlayPath s)" "IsAbs (SeedPath s)" "IsAbs (QMPSocket s)" "IsAbs (SerialSocket s)"
    "IsAbs (PIDPath s)" "IsAbs (LockPath s)" "IsAbs (QEMULog s)" "IsAbs (SerialLog s)"
    "IsAbs (LauncherLog s)"
  using assms by (simp_all add: state_path_defs)

lemma state_paths_comps [simp]:
  assumes "IsAbs (st_Dir s)"
  shows "comps (OverlayPath s) = comps (st_Dir s) @ [''state.qcow2'']"
    "comps (SeedPath s) = comps (st_Dir s) @ [''seed.img'']"
    "comps (QMPSocket s) = comps (st_Dir s) @ [''qmp.sock'']"
    "comps (SerialSocket s) = comps (st_Dir s) @ [''serial.sock'']"
    "comps (PIDPath s) = comps (st_Dir s) @ [''qemu.pid'']"
    "comps (LockPath s) = comps (st_Dir s) @ [''lock'']"
    "comps (LauncherLog s) = comps (st_Dir s) @ [''logs'', ''launcher.log'']"
    "comps (QEMULog s) = comps (st_Dir s) @ [''logs'', ''qemu.log'']"
    "comps (SerialLog s) = comps (st_Dir s) @ [''logs'', ''serial.log'']"
  using assms by (simp_all add: state_path_defs)

section \<open>Control channels\<close>

definition ControlChannels :: "State \<Rightarrow> ControlAddr \<times> ControlAddr" where
  "ControlChannels s =
     (\<lparr>ctl_Net = ''unix'', ctl_Addr = QMPSocket s\<rparr>, \<lparr>ctl_Net = ''unix'', ctl_Addr = SerialSocket s\<rparr>)"

text \<open>On Windows the two addresses are what the listener \<open>net.Listen(tcp, 127.0.0.1:0)\<close> got,
  called twice with the first listener still open: \<open>listen open\<close> is its answer when the
  addresses \<open>open\<close> are taken.\<close>

definition ControlChannels_windows ::
    "(string list \<Rightarrow> string result) \<Rightarrow> (ControlAddr \<times> ControlAddr) result" where
  "ControlChannels_windows listen =
     bind_res (wrap_err ''allocate QMP port: %w'' [] (listen [])) (\<lambda>l1.
     bind_res (wrap_err ''allocate serial port: %w'' [] (listen [l1])) (\<lambda>l2.
     Inr (\<lparr>ctl_Net = ''tcp'', ctl_Addr = l1\<rparr>, \<lparr>ctl_Net = ''tcp'', ctl_Addr = l2\<rparr>)))"

section \<open>The pid file\<close>

text \<open>\<open>processAlive\<close> per target: on POSIX \<open>os.FindProcess\<close> always succeeds and a null signal
  must reach the process, on Windows \<open>FindProcess\<close> fails for a process that is gone. \<open>procs\<close>
  of the host are the processes the launcher may signal or open.\<close>

definition FindProcess :: "os \<Rightarrow> int \<Rightarrow> int result" where
  "FindProcess w pid = (if goos w = ''windows'' \<and> \<not> process_exists w pid then Inl (Sys EINVAL) else Inr pid)"

definition null_signal :: "os \<Rightarrow> int \<Rightarrow> error option" where
  "null_signal w p = (if process_exists w p then None else Some (Sys ESRCH))"

definition processAlive_unix :: "os \<Rightarrow> int \<Rightarrow> bool" where
  "processAlive_unix w pid = (case FindProcess w pid of Inl e \<Rightarrow> False | Inr p \<Rightarrow> null_signal w p = None)"

definition processAlive_windows :: "os \<Rightarrow> int \<Rightarrow> bool" where
  "processAlive_windows w pid = (case FindProcess w pid of Inl e \<Rightarrow> False | Inr p \<Rightarrow> True)"

definition processAlive :: "os \<Rightarrow> int \<Rightarrow> bool" where
  "processAlive w pid = (if goos w = ''windows'' then processAlive_windows w pid else processAlive_unix w pid)"

text \<open>Both ways of looking find exactly the processes that exist.\<close>

lemma processAlive_iff: "processAlive w pid = process_exists w pid"
  by (simp add: processAlive_def processAlive_unix_def processAlive_windows_def FindProcess_def null_signal_def)

definition parse_pid :: "string \<Rightarrow> int" where
  "parse_pid d = (case Atoi (TrimSpace d) of None \<Rightarrow> 0 | Some pid \<Rightarrow> pid)"

definition readPID :: "string \<Rightarrow> int io" where
  "readPID path = catch_io (os_read path) (\<lambda>r. return_io (case r of
     Inl e \<Rightarrow> 0 | Inr d \<Rightarrow> parse_pid d))"

definition pid_line :: "int \<Rightarrow> string" where
  "pid_line pid = Itoa pid @ [CHR 0x0A]"

definition WritePID :: "State \<Rightarrow> int \<Rightarrow> unit io" where
  "WritePID s pid = os_write_file (PIDPath s) (pid_line pid)"

definition ReadPID :: "State \<Rightarrow> int io" where
  "ReadPID s = readPID (PIDPath s)"

definition ClearPID :: "State \<Rightarrow> unit io" where
  "ClearPID s = catch_io (os_remove (PIDPath s)) (\<lambda>_. return_io ())"

section \<open>The lock\<close>

text \<open>\<open>AcquireLock\<close> returns the path its release function removes. Errors of writing the
  pid and of closing the file are dropped, as in the code.\<close>

definition write_lock :: "string \<Rightarrow> unit io" where
  "write_lock path = (\<lambda>w.
     catch_io (os_append path (pid_line (self_pid w))) (\<lambda>_.
     catch_io (os_close path) (\<lambda>_. return_io ())) w)"

definition lock_held_error :: "State \<Rightarrow> int \<Rightarrow> error" where
  "lock_held_error s pid =
     Errorf (''dvm is already running for this state directory.'' @ [CHR 0x0A] @ ''State: %s (pid %d)'') [st_Dir s, Itoa pid]"

fun lock_attempts :: "nat \<Rightarrow> State \<Rightarrow> string io" where
  "lock_attempts 0 s = fail_io (Errorf ''could not acquire lock at %s'' [LockPath s])"
| "lock_attempts (Suc n) s =
     catch_io (os_create_excl (LockPath s)) (\<lambda>r. case r of
       Inr _ \<Rightarrow> bind_io (write_lock (LockPath s)) (\<lambda>_. return_io (LockPath s))
     | Inl e \<Rightarrow>
         if \<not> IsExist e then fail_io e
         else bind_io (readPID (LockPath s)) (\<lambda>pid w.
           if 0 < pid \<and> processAlive w pid then fail_io (lock_held_error s pid) w
           else bind_io (wrap_io ''remove stale lock: %w'' [] (os_remove (LockPath s))) (\<lambda>_.
                lock_attempts n s) w))"

definition AcquireLock :: "State \<Rightarrow> string io" where
  "AcquireLock s = lock_attempts 2 s"

definition release_lock :: "string \<Rightarrow> unit io" where
  "release_lock path = catch_io (os_remove path) (\<lambda>_. return_io ())"

section \<open>Lemmas on paths and pids\<close>

lemma state_dir_resolve: "IsAbs (st_Dir s) \<Longrightarrow> resolve w (LockPath s) = comps (st_Dir s) @ [''lock'']"
  "IsAbs (st_Dir s) \<Longrightarrow> resolve w (PIDPath s) = comps (st_Dir s) @ [''qemu.pid'']"
  by (simp_all add: resolve_abs)

lemma parse_pid_line [simp]: "in_int64 pid \<Longrightarrow> parse_pid (pid_line pid) = pid"
  by (simp add: parse_pid_def pid_line_def TrimSpace_Itoa_line Atoi_Itoa)

lemma parse_pid_empty [simp]: "parse_pid [] = 0"
  by (simp add: parse_pid_def TrimSpace_def trim_by_def Atoi_def)

lemma readPID_run: "\<exists>p w'. readPID path w = (Inr p, w') \<and> files w' = files w \<and> frame w {} w'"
proof -
  obtain r w1 where r: "os_read path w = (r, w1)" by (cases "os_read path w")
  then show ?thesis
    using os_read_files [OF r] os_read_frame [OF r, of "{}"] by (simp add: readPID_def io_simps)
qed

text \<open>The content of the lock file a path holds, without faults.\<close>

lemma readPID_none:
  "faults w = [] \<Longrightarrow> readPID path w =
     (Inr (case file_at w path of None \<Rightarrow> 0 | Some d \<Rightarrow> parse_pid d), w)"
  by (simp add: readPID_def os_read_def syscall_none io_simps file_at_def
      split: option.split node.split)

text \<open>The pid file is a round trip: what \<open>WritePID\<close> stored is what \<open>ReadPID\<close> returns
  while nothing else touched it, and after \<open>ClearPID\<close> there is none.\<close>

theorem pid_file_roundtrip:
  assumes "WritePID s pid w = (Inr u, w1)" "in_int64 pid" "faults w1 = []" "IsAbs (st_Dir s)"
  shows "ReadPID s w1 = (Inr pid, w1) \<and> (\<exists>w2. ClearPID s w1 = (Inr (), w2) \<and>
    (fs_children (comps (PIDPath s)) (files w1) = [] \<longrightarrow> ReadPID s w2 = (Inr 0, w2)))"
proof -
  have res: "resolve w1 = resolve w"
    using assms(1) frame_resolve os_write_file_frame unfolding WritePID_def by blast
  have c: "node_at (files w1) (comps (PIDPath s)) = Some (File (pid_line pid))"
    using os_write_file_ok [OF assms(1) [unfolded WritePID_def]] assms(4) by (simp add: resolve_abs)
  have rd: "ReadPID s w1 = (Inr pid, w1)"
    using c assms by (simp add: ReadPID_def readPID_none file_at_def resolve_abs)
  show ?thesis
    using rd c assms(3,4)
    by (auto simp: ClearPID_def io_simps os_remove_def syscall_none Let_def resolve_abs
        ReadPID_def readPID_none file_at_def)
qed

end
