(* ===== verification/VM_Lock.thy ===== *)
theory VM_Lock
  imports VM_State
begin

text \<open>
  The lock of a state directory (\<open>AcquireLock\<close> of \<open>state.go\<close>). First one acquisition that
  runs undisturbed: what it leaves, when it succeeds, and mutual exclusion of launchers whose
  acquisitions do not overlap, as an invariant of the reachable states of a machine on which
  launchers start, acquire, release and die. Then the same code one system call at a time:
  it refines \<open>AcquireLock\<close> when run alone, and two launchers interleaved can both hold.
\<close>

section \<open>One acquisition\<close>

definition lock_cell :: "State \<Rightarrow> fpath" where
  "lock_cell s = comps (st_Dir s) @ [''lock'']"

lemma lock_resolve: "IsAbs (st_Dir s) \<Longrightarrow> resolve w (LockPath s) = lock_cell s"
  by (simp add: resolve_abs lock_cell_def)

lemma lock_cell_ne [simp]: "lock_cell s \<noteq> []" "butlast (lock_cell s) = comps (st_Dir s)"
  by (simp_all add: lock_cell_def)

lemma write_lock_frame: "write_lock p w = (r, w') \<Longrightarrow> frame w {resolve w p} w' \<and> r = Inr ()"
proof -
  assume h: "write_lock p w = (r, w')"
  obtain r1 w1 where a: "os_append p (pid_line (self_pid w)) w = (r1, w1)"
    by (cases "os_append p (pid_line (self_pid w)) w")
  obtain r2 w2 where c: "os_close p w1 = (r2, w2)" by (cases "os_close p w1")
  have "w' = w2" "r = Inr ()" using h a c by (simp_all add: write_lock_def io_simps)
  with frame_comp [OF os_append_frame [OF a] os_close_frame [OF c]] show ?thesis by simp
qed

text \<open>Whatever faults occur, an acquisition touches nothing but the lock file.\<close>

lemma lock_attempts_frame:
  "lock_attempts n s w = (r, w') \<Longrightarrow> frame w {resolve w (LockPath s)} w'"
proof (induction n arbitrary: w r w')
  case 0
  then show ?case by simp
next
  case (Suc n)
  let ?p = "LockPath s" and ?S = "{resolve w (LockPath s)}"
  obtain r1 w1 where c: "os_create_excl ?p w = (r1, w1)" by (cases "os_create_excl ?p w")
  have f1: "frame w ?S w1" by (rule os_create_excl_frame [OF c])
  show ?case
  proof (cases r1)
    case (Inr u)
    obtain r2 w2 where wl: "write_lock ?p w1 = (r2, w2)" by (cases "write_lock ?p w1")
    have "w' = w2" using Suc.prems c Inr wl write_lock_frame [OF wl] by (simp add: io_simps)
    with f1 write_lock_frame [OF wl] show ?thesis
      using frame_comp frame_resolve [OF f1] by metis
  next
    case (Inl e)
    obtain pid w2 where rp: "readPID ?p w1 = (Inr pid, w2)" and f2: "frame w1 {} w2"
      using readPID_run by blast
    obtain r3 w3 where rm: "os_remove ?p w2 = (r3, w3)" by (cases "os_remove ?p w2")
    have f12: "frame w ?S w2" using f1 f2 frame_comp frame_mono by blast
    have f123: "frame w ?S w3"
      using frame_comp [OF f12] os_remove_frame [OF rm] frame_resolve [OF f12] by simp
    consider "w' = w1" | "w' = w2" | "w' = w3" | "lock_attempts n s w3 = (r, w')"
      using Suc.prems c Inl rp rm by (auto simp: io_simps split: if_splits sum.splits)
    then show ?thesis
    proof cases
      case 4
      from Suc.IH [OF this] frame_resolve [OF f123] have "frame w3 ?S w'" by simp
      with f123 show ?thesis by (rule frame_comp)
    qed (use f1 f12 f123 in simp_all)
  qed
qed

text \<open>Success means that this call created the file: it is there afterwards.\<close>

lemma write_lock_file:
  assumes "write_lock p w = (r, w')" "node_at (files w) (resolve w p) = Some (File [])"
  shows "\<exists>d. node_at (files w') (resolve w p) = Some (File d)"
proof -
  obtain r1 w1 where a: "os_append p (pid_line (self_pid w)) w = (r1, w1)"
    by (cases "os_append p (pid_line (self_pid w)) w")
  obtain r2 w2 where c: "os_close p w1 = (r2, w2)" by (cases "os_close p w1")
  have "w' = w2" using assms(1) a c by (simp add: write_lock_def io_simps)
  moreover have "files w2 = files w1"
    using c by (auto simp: os_close_def elim!: syscall_cases)
  ultimately show ?thesis using os_append_file [OF a assms(2)] by simp
qed

lemma lock_attempts_ok:
  "lock_attempts n s w = (Inr p, w') \<Longrightarrow>
   p = LockPath s \<and> (\<exists>d. node_at (files w') (resolve w p) = Some (File d))"
proof (induction n arbitrary: w)
  case 0
  then show ?case by simp
next
  case (Suc n)
  let ?p = "LockPath s"
  obtain r1 w1 where c: "os_create_excl ?p w = (r1, w1)" by (cases "os_create_excl ?p w")
  have f1: "frame w {resolve w ?p} w1" by (rule os_create_excl_frame [OF c])
  show ?case
  proof (cases r1)
    case (Inr u)
    obtain r2 w2 where wl: "write_lock ?p w1 = (r2, w2)" by (cases "write_lock ?p w1")
    have "w' = w2" "p = ?p" using Suc.prems c Inr wl write_lock_frame [OF wl] by (simp_all add: io_simps)
    with write_lock_file [OF wl] os_create_excl_ok [of ?p w u w1] c Inr frame_resolve [OF f1]
    show ?thesis by simp
  next
    case (Inl e)
    obtain pid w2 where rp: "readPID ?p w1 = (Inr pid, w2)" and f2: "frame w1 {} w2"
      using readPID_run by blast
    obtain r3 w3 where rm: "os_remove ?p w2 = (r3, w3)" by (cases "os_remove ?p w2")
    have "lock_attempts n s w3 = (Inr p, w')"
      using Suc.prems c Inl rp rm by (auto simp: io_simps split: if_splits sum.splits)
    moreover have "resolve w3 = resolve w"
      using frame_resolve [OF f1] frame_resolve [OF f2] frame_resolve [OF os_remove_frame [OF rm]] by simp
    ultimately show ?thesis using Suc.IH by metis
  qed
qed

text \<open>Under any pattern of I/O faults an acquisition changes nothing but the lock file,
  and when it succeeds that file exists.\<close>

theorem acquire_lock_touches_lock_only:
  assumes "AcquireLock s w = (r, w')" "IsAbs (st_Dir s)"
  shows "(\<forall>q. q \<noteq> lock_cell s \<longrightarrow> node_at (files w') q = node_at (files w) q) \<and>
    (\<forall>p. r = Inr p \<longrightarrow> p = LockPath s \<and> file_at w' p \<noteq> None)"
proof -
  have f: "frame w {lock_cell s} w'"
    using lock_attempts_frame assms lock_resolve [OF assms(2)] unfolding AcquireLock_def by metis
  moreover have "p = LockPath s \<and> file_at w' p \<noteq> None" if "r = Inr p" for p
    using lock_attempts_ok [of 2 s w p w'] assms that lock_resolve [OF assms(2)]
    by (auto simp: AcquireLock_def file_at_def)
  ultimately show ?thesis by (simp add: frame_def)
qed

section \<open>An acquisition without faults\<close>

definition dir_ready :: "State \<Rightarrow> os \<Rightarrow> bool" where
  "dir_ready s w \<longleftrightarrow> IsAbs (st_Dir s) \<and> faults w = [] \<and>
     node_at (files w) (comps (st_Dir s)) = Some Directory \<and>
     node_at (files w) (lock_cell s) \<noteq> Some Directory \<and>
     fs_children (lock_cell s) (files w) = []"

text \<open>What \<open>AcquireLock\<close> does then, by what the lock file holds: a live pid refuses, anything
  else (no file, an empty or unreadable pid, a dead one) ends with this launcher's pid in it.\<close>

definition holder :: "State \<Rightarrow> os \<Rightarrow> int" where
  "holder s w = (case file_at w (LockPath s) of None \<Rightarrow> 0 | Some d \<Rightarrow> parse_pid d)"

definition locked :: "State \<Rightarrow> os \<Rightarrow> bool" where
  "locked s w \<longleftrightarrow> 0 < holder s w \<and> processAlive w (holder s w)"

definition take_lock :: "State \<Rightarrow> os \<Rightarrow> fs" where
  "take_lock s w = fs_append (lock_cell s) (pid_line (self_pid w))
     (fs_put (lock_cell s) (File [])
       (if node_at (files w) (lock_cell s) = None then files w else fs_del (lock_cell s) (files w)))"

lemma create_excl_none:
  assumes "dir_ready s w"
  shows "os_create_excl (LockPath s) w =
    (if node_at (files w) (lock_cell s) = None
     then (Inr (), w\<lparr>files := fs_put (lock_cell s) (File []) (files w)\<rparr>) else (Inl (Sys EEXIST), w))"
  using assms by (simp add: os_create_excl_def syscall_none dir_ready_def lock_resolve Let_def parent_ok_def)

lemma write_lock_none:
  assumes "faults w = []" "IsAbs (st_Dir s)"
  shows "write_lock (LockPath s) w =
    (Inr (), w\<lparr>files := fs_append (lock_cell s) (pid_line (self_pid w)) (files w)\<rparr>)"
  using assms by (simp add: write_lock_def io_simps no_fault_runs lock_resolve)

lemma lock_free_run:
  assumes "dir_ready s w" "node_at (files w) (lock_cell s) = None"
  shows "lock_attempts (Suc n) s w = (Inr (LockPath s), w\<lparr>files := take_lock s w\<rparr>)"
  using assms create_excl_none [OF assms(1)]
  by (simp add: io_simps write_lock_none dir_ready_def take_lock_def)

lemma AcquireLock_run:
  assumes "dir_ready s w"
  shows "AcquireLock s w =
    (if locked s w then (Inl (lock_held_error s (holder s w)), w)
     else (Inr (LockPath s), w\<lparr>files := take_lock s w\<rparr>))"
proof (cases "node_at (files w) (lock_cell s) = None")
  case True
  then have "holder s w = 0" using assms by (simp add: holder_def file_at_def lock_resolve dir_ready_def)
  with lock_free_run [OF assms True, of 1] show ?thesis
    by (simp add: AcquireLock_def locked_def numeral_2_eq_2)
next
  case False
  let ?p = "LockPath s"
  have a: "IsAbs (st_Dir s)" and nf: "faults w = []" using assms by (simp_all add: dir_ready_def)
  have c: "os_create_excl ?p w = (Inl (Sys EEXIST), w)" using create_excl_none [OF assms] False by simp
  have rp: "readPID ?p w = (Inr (holder s w), w)" by (simp add: readPID_none [OF nf] holder_def)
  let ?w1 = "w\<lparr>files := fs_del (lock_cell s) (files w)\<rparr>"
  have rm: "os_remove ?p w = (Inr (), ?w1)"
    using False assms by (simp add: os_remove_def syscall_none nf Let_def lock_resolve [OF a] dir_ready_def)
  have d: "dir_ready s ?w1"
  proof -
    have "fs_children (lock_cell s) (fs_del (lock_cell s) (files w)) = []"
      using assms by (auto simp: dir_ready_def fs_children_empty)
    moreover have "comps (st_Dir s) \<noteq> lock_cell s" by (simp add: lock_cell_def)
    ultimately show ?thesis using assms by (simp add: dir_ready_def)
  qed
  have t: "take_lock s ?w1 = take_lock s w" using False by (auto simp: take_lock_def)
  have "lock_attempts 1 s ?w1 = (Inr ?p, w\<lparr>files := take_lock s w\<rparr>)"
    using lock_free_run [OF d, of 0] t by simp
  then show ?thesis
    by (simp add: AcquireLock_def numeral_2_eq_2 io_simps c rp rm locked_def IsExist_def)
qed

lemma take_lock_node [simp]:
  "node_at (take_lock s w) q =
    (if q = lock_cell s then Some (File (pid_line (self_pid w))) else node_at (files w) q)"
  by (auto simp: take_lock_def)

lemma locked_after:
  assumes "dir_ready s w" "in_int64 (self_pid w)"
  shows "holder s (w\<lparr>files := take_lock s w\<rparr>) = self_pid w"
  using assms by (simp add: holder_def file_at_def lock_resolve dir_ready_def)

lemma dir_ready_after:
  assumes "dir_ready s w"
  shows "dir_ready s (w\<lparr>files := take_lock s w\<rparr>)"
proof -
  have "fs_children (lock_cell s) (take_lock s w) = []"
    using assms unfolding dir_ready_def fs_children_empty by auto
  moreover have "comps (st_Dir s) \<noteq> lock_cell s" by (simp add: lock_cell_def)
  ultimately show ?thesis using assms by (simp add: dir_ready_def)
qed

text \<open>C7. The lock excludes: while a live launcher's pid is in the lock file no acquisition
  succeeds and the file stays; a missing, empty, malformed or dead one is replaced by this
  launcher's pid, after which any other launcher is refused with that pid for as long as this
  process lives.\<close>

theorem lock_excludes:
  assumes "dir_ready s w" "in_int64 (self_pid w)" "0 < self_pid w" "processAlive w (self_pid w)"
  shows "(locked s w \<longrightarrow> AcquireLock s w = (Inl (lock_held_error s (holder s w)), w)) \<and>
    (\<not> locked s w \<longrightarrow> (\<exists>w'. AcquireLock s w = (Inr (LockPath s), w') \<and>
       file_at w' (LockPath s) = Some (pid_line (self_pid w)) \<and>
       (\<forall>q. AcquireLock s (w'\<lparr>self_pid := q\<rparr>) =
          (Inl (lock_held_error s (self_pid w)), w'\<lparr>self_pid := q\<rparr>))))"
proof (intro conjI impI)
  assume "locked s w"
  then show "AcquireLock s w = (Inl (lock_held_error s (holder s w)), w)"
    by (simp add: AcquireLock_run [OF assms(1)])
next
  assume n: "\<not> locked s w"
  let ?w' = "w\<lparr>files := take_lock s w\<rparr>"
  have "AcquireLock s (?w'\<lparr>self_pid := q\<rparr>) = (Inl (lock_held_error s (self_pid w)), ?w'\<lparr>self_pid := q\<rparr>)" for q
  proof -
    have d: "dir_ready s (?w'\<lparr>self_pid := q\<rparr>)" using dir_ready_after [OF assms(1)] by (simp add: dir_ready_def)
    have h: "holder s (?w'\<lparr>self_pid := q\<rparr>) = self_pid w"
      using assms by (simp add: holder_def file_at_def lock_resolve dir_ready_def)
    with assms have "locked s (?w'\<lparr>self_pid := q\<rparr>)" by (simp add: locked_def processAlive_iff process_exists_def)
    with h show ?thesis by (simp add: AcquireLock_run [OF d])
  qed
  moreover have "file_at ?w' (LockPath s) = Some (pid_line (self_pid w))"
    using assms by (simp add: file_at_def lock_resolve dir_ready_def)
  ultimately show "\<exists>w'. AcquireLock s w = (Inr (LockPath s), w') \<and>
       file_at w' (LockPath s) = Some (pid_line (self_pid w)) \<and>
       (\<forall>q. AcquireLock s (w'\<lparr>self_pid := q\<rparr>) =
          (Inl (lock_held_error s (self_pid w)), w'\<lparr>self_pid := q\<rparr>))"
    using n by (simp add: AcquireLock_run [OF assms(1)])
qed

definition state0 :: State where
  "state0 = \<lparr>st_Dir = ''/s''\<rparr>"

definition lock_host :: os where
  "lock_host = host0\<lparr>files := [([''s''], Directory)]\<rparr>"

lemma comps_s [simp]: "comps ''s'' = [''s'']" "IsAbs ''/s''"
  by code_simp+

lemma state0_sel [simp]: "st_Dir state0 = ''/s''" "lock_cell state0 = [''s'', ''lock'']"
  by (simp_all add: state0_def lock_cell_def)

lemma dir_ready_lock_host: "dir_ready state0 lock_host"
  by (simp add: dir_ready_def lock_host_def node_at_def fs_children_def)

lemma not_locked_lock_host: "\<not> locked state0 lock_host"
  by (simp add: locked_def holder_def file_at_def lock_resolve lock_host_def node_at_def)

theorem lock_excludes_witness:
  "\<exists>w'. AcquireLock state0 lock_host = (Inr (LockPath state0), w') \<and>
     AcquireLock state0 (w'\<lparr>self_pid := 200\<rparr>) = (Inl (lock_held_error state0 100), w'\<lparr>self_pid := 200\<rparr>)"
  using lock_excludes [OF dir_ready_lock_host] not_locked_lock_host
  by (auto simp: lock_host_def in_int64_def processAlive_iff process_exists_def)

theorem acquire_lock_touches_lock_only_witness:
  "\<exists>w'. AcquireLock state0 lock_host = (Inr (LockPath state0), w') \<and> file_at w' (LockPath state0) \<noteq> None"
proof -
  have "\<exists>w'. AcquireLock state0 lock_host = (Inr (LockPath state0), w')"
    using AcquireLock_run [OF dir_ready_lock_host] not_locked_lock_host by simp
  then obtain w' where r: "AcquireLock state0 lock_host = (Inr (LockPath state0), w')" by blast
  with acquire_lock_touches_lock_only [OF r] show ?thesis by simp
qed

section \<open>Launchers whose acquisitions do not overlap\<close>

text \<open>Processes start and die; a live one may run \<open>AcquireLock\<close> to its end, and a holder may
  run its release function. The file of a dead holder stays behind.\<close>

record machine =
  mach_os :: os
  holders :: "int set"

inductive lock_machine :: "State \<Rightarrow> machine \<Rightarrow> machine \<Rightarrow> bool" for s where
  spawn: "0 < p \<Longrightarrow> in_int64 p \<Longrightarrow> p \<notin> set (procs w) \<Longrightarrow>
    lock_machine s \<lparr>mach_os = w, holders = H\<rparr> \<lparr>mach_os = w\<lparr>procs := p # procs w\<rparr>, holders = H\<rparr>"
| dies: "p \<in> set (procs w) \<Longrightarrow>
    lock_machine s \<lparr>mach_os = w, holders = H\<rparr>
      \<lparr>mach_os = w\<lparr>procs := removeAll p (procs w)\<rparr>, holders = H - {p}\<rparr>"
| acquires: "0 < p \<Longrightarrow> in_int64 p \<Longrightarrow> p \<in> set (procs w) \<Longrightarrow>
    AcquireLock s (w\<lparr>self_pid := p\<rparr>) = (Inr path, w') \<Longrightarrow>
    lock_machine s \<lparr>mach_os = w, holders = H\<rparr> \<lparr>mach_os = w', holders = insert p H\<rparr>"
| refused: "p \<in> set (procs w) \<Longrightarrow>
    AcquireLock s (w\<lparr>self_pid := p\<rparr>) = (Inl e, w') \<Longrightarrow>
    lock_machine s \<lparr>mach_os = w, holders = H\<rparr> \<lparr>mach_os = w', holders = H\<rparr>"
| releases: "p \<in> H \<Longrightarrow> release_lock (LockPath s) w = (r, w') \<Longrightarrow>
    lock_machine s \<lparr>mach_os = w, holders = H\<rparr> \<lparr>mach_os = w', holders = H - {p}\<rparr>"

inductive_cases lock_machineE: "lock_machine s m m'"

inductive lock_reach :: "State \<Rightarrow> machine \<Rightarrow> machine \<Rightarrow> bool" for s m where
  reach_start: "lock_reach s m m"
| reach_step: "lock_reach s m m' \<Longrightarrow> lock_machine s m' m'' \<Longrightarrow> lock_reach s m m''"

text \<open>The invariant: a holder is alive and its pid is in the lock file.\<close>

definition lock_inv :: "State \<Rightarrow> machine \<Rightarrow> bool" where
  "lock_inv s m \<longleftrightarrow> dir_ready s (mach_os m) \<and>
     (\<forall>p \<in> holders m. 0 < p \<and> p \<in> set (procs (mach_os m)) \<and> holder s (mach_os m) = p)"

lemma dir_ready_cong:
  "dir_ready s w \<Longrightarrow> files w' = files w \<Longrightarrow> faults w' = faults w \<Longrightarrow> dir_ready s w'"
  by (simp add: dir_ready_def)

lemma holder_cong:
  "IsAbs (st_Dir s) \<Longrightarrow> files w' = files w \<Longrightarrow> holder s w' = holder s w"
  by (simp add: holder_def file_at_def lock_resolve)

lemma dir_ready_abs: "dir_ready s w \<Longrightarrow> IsAbs (st_Dir s)"
  by (simp add: dir_ready_def)

lemma release_lock_run:
  assumes "dir_ready s w" "release_lock (LockPath s) w = (r, w')"
  shows "dir_ready s w' \<and> procs w' = procs w"
proof -
  have nf: "faults w = []" and a: "IsAbs (st_Dir s)" using assms(1) by (simp_all add: dir_ready_def)
  have ne: "comps (st_Dir s) \<noteq> lock_cell s" by (simp add: lock_cell_def)
  have "w' = w \<or> w' = w\<lparr>files := fs_del (lock_cell s) (files w)\<rparr>"
    using assms(2) by (auto simp: release_lock_def io_simps os_remove_def syscall_none nf Let_def
        lock_resolve [OF a] split: if_splits)
  moreover have "fs_children (lock_cell s) (fs_del (lock_cell s) (files w)) = []"
    using assms(1) by (auto simp: dir_ready_def fs_children_empty)
  ultimately show ?thesis using assms(1) ne by (auto simp: dir_ready_def)
qed

lemma lock_inv_step:
  assumes "lock_machine s m m'" "lock_inv s m"
  shows "lock_inv s m'"
  using assms(1)
proof (cases rule: lock_machine.cases)
  case (spawn p w H)
  with assms(2) show ?thesis
    by (auto simp: lock_inv_def intro: dir_ready_cong)
      (metis dir_ready_abs holder_cong os.select_convs(1) os.surjective os.update_convs(5))
next
  case (dies p w H)
  with assms(2) show ?thesis
    by (auto simp: lock_inv_def intro: dir_ready_cong)
      (metis dir_ready_abs holder_cong os.select_convs(1) os.surjective os.update_convs(5))
next
  case (acquires p w path w' H)
  let ?w = "w\<lparr>self_pid := p\<rparr>"
  have d0: "dir_ready s w" using assms(2) acquires(1) by (simp add: lock_inv_def)
  have d: "dir_ready s ?w" using d0 by (rule dir_ready_cong) simp_all
  have h0: "holder s ?w = holder s w" using dir_ready_abs [OF d0] by (rule holder_cong) simp
  have nl: "\<not> locked s ?w" and w': "w' = ?w\<lparr>files := take_lock s ?w\<rparr>"
    using acquires(6) AcquireLock_run [OF d] by (auto split: if_splits)
  have "H = {}"
  proof (rule ccontr)
    assume "H \<noteq> {}"
    then obtain q where q: "q \<in> H" by blast
    with assms(2) acquires(1) have "0 < q" "q \<in> set (procs w)" "holder s w = q"
      by (auto simp: lock_inv_def)
    with nl h0 show False by (simp add: locked_def processAlive_iff process_exists_def)
  qed
  moreover have "holder s w' = p" using locked_after [OF d] acquires by (simp add: w')
  moreover have "dir_ready s w'" using dir_ready_after [OF d] by (simp add: w')
  moreover have "procs w' = procs w" by (simp add: w')
  ultimately show ?thesis using acquires by (auto simp: lock_inv_def)
next
  case (refused p w e w' H)
  have d0: "dir_ready s w" using assms(2) refused(1) by (simp add: lock_inv_def)
  have d: "dir_ready s (w\<lparr>self_pid := p\<rparr>)" using d0 by (rule dir_ready_cong) simp_all
  have "w' = w\<lparr>self_pid := p\<rparr>" using refused(4) AcquireLock_run [OF d] by (auto split: if_splits)
  moreover have "holder s (w\<lparr>self_pid := p\<rparr>) = holder s w"
    using dir_ready_abs [OF d0] by (rule holder_cong) simp
  ultimately show ?thesis using assms(2) d refused(1,2) by (auto simp: lock_inv_def)
next
  case (releases p H w r w')
  have d0: "dir_ready s w" using assms(2) releases(1) by (simp add: lock_inv_def)
  have h: "x \<in> H \<Longrightarrow> holder s w = x" for x using assms(2) releases(1) by (simp add: lock_inv_def)
  have "H - {p} = {}" using h [OF releases(3)] h by auto
  with release_lock_run [OF d0 releases(4)] releases(2) show ?thesis by (simp add: lock_inv_def)
qed

lemma lock_inv_reach: "lock_reach s m m' \<Longrightarrow> lock_inv s m \<Longrightarrow> lock_inv s m'"
  by (induction rule: lock_reach.induct) (auto intro: lock_inv_step)

text \<open>C8. Mutual exclusion: from any state directory nobody holds, however launchers start,
  acquire, release, crash and reuse pids, two live launchers never both hold the lock, as
  long as their acquisitions run one after the other.\<close>

theorem lock_mutual_exclusion:
  assumes "dir_ready s w" "lock_reach s \<lparr>mach_os = w, holders = {}\<rparr> m" "p \<in> holders m" "q \<in> holders m"
  shows "p = q \<and> holder s (mach_os m) = p \<and> processAlive (mach_os m) p"
proof -
  have "lock_inv s \<lparr>mach_os = w, holders = {}\<rparr>" using assms(1) by (simp add: lock_inv_def)
  from lock_inv_reach [OF assms(2) this]
  have i: "x \<in> holders m \<Longrightarrow> x \<in> set (procs (mach_os m)) \<and> holder s (mach_os m) = x" for x
    by (simp add: lock_inv_def)
  show ?thesis using i [OF assms(3)] i [OF assms(4)] by (simp add: processAlive_iff process_exists_def)
qed

theorem lock_mutual_exclusion_witness:
  "\<exists>m. lock_reach state0 \<lparr>mach_os = lock_host, holders = {}\<rparr> m \<and> holders m = {100} \<and>
     holder state0 (mach_os m) = 100"
proof -
  have "lock_host\<lparr>self_pid := 100\<rparr> = lock_host" by (simp add: lock_host_def host0_def)
  then obtain w' where r: "AcquireLock state0 (lock_host\<lparr>self_pid := 100\<rparr>) = (Inr (LockPath state0), w')"
    using AcquireLock_run [OF dir_ready_lock_host] not_locked_lock_host by simp
  let ?m = "\<lparr>mach_os = w', holders = insert 100 {}\<rparr>"
  have "lock_machine state0 \<lparr>mach_os = lock_host, holders = {}\<rparr> ?m"
    by (rule lock_machine.acquires [OF _ _ _ r]) (simp_all add: in_int64_def lock_host_def)
  then have m: "lock_reach state0 \<lparr>mach_os = lock_host, holders = {}\<rparr> ?m"
    by (rule reach_step [OF reach_start])
  from lock_mutual_exclusion [OF dir_ready_lock_host this, of 100 100] m show ?thesis
    by (intro exI [of _ ?m]) simp
qed

section \<open>One system call at a time\<close>

text \<open>\<open>AcquireLock\<close> between two system calls: the attempts left, and where it stands. An open
  file is named by its path, so schedules that remove it while it is open are outside the model.\<close>

datatype lock_pc =
  LCreate nat | LWrite | LClose | LRead nat | LRemove nat | LHeld | LFailed error

fun lock_step :: "State \<Rightarrow> lock_pc \<Rightarrow> os \<Rightarrow> lock_pc \<times> os" where
  "lock_step s (LCreate 0) w = (LFailed (Errorf ''could not acquire lock at %s'' [LockPath s]), w)"
| "lock_step s (LCreate (Suc n)) w =
     (case os_create_excl (LockPath s) w of
        (Inr _, w') \<Rightarrow> (LWrite, w')
      | (Inl e, w') \<Rightarrow> (if \<not> IsExist e then LFailed e else LRead n, w'))"
| "lock_step s LWrite w = (LClose, snd (os_append (LockPath s) (pid_line (self_pid w)) w))"
| "lock_step s LClose w = (LHeld, snd (os_close (LockPath s) w))"
| "lock_step s (LRead n) w =
     (case readPID (LockPath s) w of
        (Inr pid, w') \<Rightarrow>
          (if 0 < pid \<and> processAlive w' pid then LFailed (lock_held_error s pid) else LRemove n, w')
      | (Inl e, w') \<Rightarrow> (LFailed e, w'))"
| "lock_step s (LRemove n) w =
     (case os_remove (LockPath s) w of
        (Inr _, w') \<Rightarrow> (LCreate n, w')
      | (Inl e, w') \<Rightarrow> (LFailed (Wrapf ''remove stale lock: %w'' [] e), w'))"
| "lock_step s LHeld w = (LHeld, w)"
| "lock_step s (LFailed e) w = (LFailed e, w)"

fun lock_run :: "nat \<Rightarrow> State \<Rightarrow> lock_pc \<Rightarrow> os \<Rightarrow> lock_pc \<times> os" where
  "lock_run 0 s pc w = (pc, w)"
| "lock_run (Suc k) s pc w = (case lock_step s pc w of (pc', w') \<Rightarrow> lock_run k s pc' w')"

definition lock_pc_of :: "string result \<Rightarrow> lock_pc" where
  "lock_pc_of r = (case r of Inr p \<Rightarrow> LHeld | Inl e \<Rightarrow> LFailed e)"

lemma lock_run_stuck [simp]:
  "lock_run k s LHeld w = (LHeld, w)" "lock_run k s (LFailed e) w = (LFailed e, w)"
  by (induction k) simp_all

lemma lock_run_attempts:
  assumes "lock_attempts n s w = (r, w')" "3 * n < k"
  shows "lock_run k s (LCreate n) w = (lock_pc_of r, w')"
  using assms
proof (induction n arbitrary: w k)
  case 0
  then obtain j where "k = Suc j" by (cases k) auto
  with 0 show ?case by (auto simp: lock_pc_of_def)
next
  case (Suc n)
  let ?p = "LockPath s"
  from Suc.prems(2) obtain j where k: "k = Suc (Suc (Suc j))" "3 * n < j"
    by (auto simp: less_iff_Suc_add numeral_3_eq_3)
  obtain r1 w1 where c: "os_create_excl ?p w = (r1, w1)" by (cases "os_create_excl ?p w")
  show ?case
  proof (cases r1)
    case (Inr u)
    with Suc.prems(1) c k show ?thesis
      by (auto simp: io_simps write_lock_def lock_pc_of_def split: prod.splits)
  next
    case (Inl e)
    obtain pid w2 where rp: "readPID ?p w1 = (Inr pid, w2)" using readPID_run by blast
    obtain r3 w3 where rm: "os_remove ?p w2 = (r3, w3)" by (cases "os_remove ?p w2")
    show ?thesis
    proof (cases "IsExist e \<and> \<not> (0 < pid \<and> processAlive w2 pid) \<and> (\<exists>u. r3 = Inr u)")
      case True
      then have "lock_attempts n s w3 = (r, w')"
        using Suc.prems(1) c Inl rp rm by (auto simp: io_simps)
      from Suc.IH [OF this k(2)] True c Inl rp rm k show ?thesis by auto
    next
      case False
      with Suc.prems(1) c Inl rp rm k show ?thesis
        by (cases r3) (auto simp: io_simps lock_pc_of_def split: if_splits)
    qed
  qed
qed


text \<open>Two launchers, interleaved by a schedule: \<open>True\<close> is a step of the first.\<close>

fun lock_race :: "State \<Rightarrow> int \<Rightarrow> int \<Rightarrow> bool list \<Rightarrow> lock_pc \<times> lock_pc \<times> os \<Rightarrow> lock_pc \<times> lock_pc \<times> os" where
  "lock_race s p q [] c = c"
| "lock_race s p q (True # sch) (a, b, w) =
     (case lock_step s a (w\<lparr>self_pid := p\<rparr>) of (a', w') \<Rightarrow> lock_race s p q sch (a', b, w'))"
| "lock_race s p q (False # sch) (a, b, w) =
     (case lock_step s b (w\<lparr>self_pid := q\<rparr>) of (b', w') \<Rightarrow> lock_race s p q sch (a, b', w'))"


text \<open>\<open>readPID\<close> answers 0 when the lock file cannot be read, so an acquisition whose read
  fails takes the lock of a live launcher.\<close>

lemma lock_read_fault_steals:
  "case AcquireLock state0 (lock_host\<lparr>files := [([''s''], Directory), ([''s'', ''lock''], File (pid_line 200))],
     faults := [None, Some (Fails EACCES)]\<rparr>) of
   (r, w) \<Rightarrow> r = Inr (LockPath state0) \<and> processAlive w 200 \<and>
     file_at w (LockPath state0) = Some (pid_line 100)"
  by code_simp

end
