(* ===== verification/VM_Disk.thy ===== *)
theory VM_Disk
  imports VM_State
begin

text \<open>
  Package \<open>internal/vm\<close>, \<open>overlay.go\<close> and \<open>prepareDisk\<close> of \<open>lifecycle.go\<close>: the writable
  qcow2 overlay over the read-only base image. Running \<open>qemu-img\<close> is the parameter \<open>cmd\<close>:
  what a command line answers (its error, its output) and does to the host.
\<close>

section \<open>Operations\<close>

type_synonym command = "string \<Rightarrow> string list \<Rightarrow> os \<Rightarrow> (error option \<times> string) \<times> os"

definition qcow2_magic :: string where
  "qcow2_magic = ''QFI'' @ [CHR 0xFB]"

definition diskFormat :: "string \<Rightarrow> string io" where
  "diskFormat base =
     bind_io (wrap_io ''open base image: %w'' [] (os_stat base)) (\<lambda>_.
     bind_io (wrap_io ''read base image %s: %w'' [base] (os_read base)) (\<lambda>b.
     if length b < 4 then fail_io (Wrapf ''read base image %s: %w'' [base] (Sys EOF))
     else return_io (if take 4 b = qcow2_magic then ''qcow2'' else ''raw'')))"

definition overlay_args :: "string \<Rightarrow> string \<Rightarrow> string \<Rightarrow> string list" where
  "overlay_args baseFmt base overlay =
     [''create'', ''-f'', ''qcow2'', ''-F'', baseFmt, ''-b'', base, overlay]"

definition run_qemu_img :: "command \<Rightarrow> string \<Rightarrow> string list \<Rightarrow> unit io" where
  "run_qemu_img cmd qemuImg args = (\<lambda>w. (case cmd qemuImg args w of
     ((None, out), w') \<Rightarrow> (Inr (), w')
   | ((Some e, out), w') \<Rightarrow> (Inl (Wrapf ''qemu-img create overlay: %w: %s'' [out] e), w')))"

definition CreateOverlay :: "command \<Rightarrow> string \<Rightarrow> string \<Rightarrow> string \<Rightarrow> unit io" where
  "CreateOverlay cmd qemuImg base overlay =
     catch_io (os_stat overlay) (\<lambda>r. (case r of
       Inr _ \<Rightarrow> return_io ()
     | Inl _ \<Rightarrow>
         if qemuImg = [] then fail_io (Errorf ''qemu-img path is empty'' [])
         else bind_io (diskFormat base) (\<lambda>baseFmt.
              run_qemu_img cmd qemuImg (overlay_args baseFmt base overlay))))"

definition RemoveOverlay :: "string \<Rightarrow> unit io" where
  "RemoveOverlay overlay = catch_io (os_remove overlay) (\<lambda>r. (case r of
     Inr _ \<Rightarrow> return_io ()
   | Inl e \<Rightarrow> if IsNotExist e then return_io () else fail_io e))"

definition prepareDisk :: "command \<Rightarrow> string \<Rightarrow> string \<Rightarrow> bool \<Rightarrow> bool \<Rightarrow> string \<Rightarrow> unit io" where
  "prepareDisk cmd qemuImg base persist reset overlay =
     bind_io (if reset \<or> \<not> persist then wrap_io ''reset overlay: %w'' [] (RemoveOverlay overlay)
              else return_io ()) (\<lambda>_.
     CreateOverlay cmd qemuImg base overlay)"

section \<open>Lemmas\<close>

lemma diskFormat_ok:
  assumes "diskFormat base w = (Inr f, w')"
  shows "files w' = files w \<and> frame w {} w' \<and>
    (\<exists>b. node_at (files w) (resolve w base) = Some (File b) \<and> 4 \<le> length b \<and>
       f = (if take 4 b = qcow2_magic then ''qcow2'' else ''raw''))"
proof -
  obtain n w1 b w2 where st: "os_stat base w = (Inr n, w1)" and rd: "os_read base w1 = (Inr b, w2)"
    and k: "4 \<le> length b" "f = (if take 4 b = qcow2_magic then ''qcow2'' else ''raw'')" "w' = w2"
    using assms by (auto simp: diskFormat_def bind_io_ok wrap_io_ok split: if_splits)
  have "files w1 = files w" "frame w {} w1" using os_stat_files [OF st] os_stat_frame [OF st] by auto
  moreover have "files w2 = files w1" "frame w1 {} w2" using os_read_files [OF rd] os_read_frame [OF rd] by auto
  ultimately show ?thesis
    using os_read_ok [OF rd] k frame_resolve [OF os_stat_frame [OF st, of "{}"]] frame_comp by metis
qed

lemma RemoveOverlay_frame: "RemoveOverlay p w = (r, w') \<Longrightarrow> frame w {resolve w p} w'"
  by (cases "os_remove p w")
    (auto simp: RemoveOverlay_def io_simps dest!: os_remove_frame split: sum.splits if_splits)

lemma RemoveOverlay_ok:
  assumes "RemoveOverlay p w = (Inr u, w')" "faults w = []"
  shows "node_at (files w') (resolve w p) = None"
  using assms
  by (auto simp: RemoveOverlay_def io_simps os_remove_def syscall_none Let_def IsNotExist_def
      split: sum.splits if_splits)

section \<open>Properties\<close>

text \<open>A persistent overlay survives a restart: unless a reset or an ephemeral run is asked
  for, an overlay that is there is kept as it is, whatever \<open>qemu-img\<close> and the base image are.\<close>

theorem persistent_overlay_kept:
  assumes "os_stat (OverlayPath s) w = (Inr n, w1)"
  shows "prepareDisk cmd qemuImg base True False (OverlayPath s) w = (Inr (), w1) \<and> files w1 = files w"
  using assms os_stat_files [OF assms] by (simp add: prepareDisk_def CreateOverlay_def io_simps)

theorem persistent_overlay_kept_witness:
  "prepareDisk (\<lambda>_ _ w. ((Some (Sys EIO), []), w)) [] ''/b'' True False
     (OverlayPath \<lparr>st_Dir = ''/s''\<rparr>) (host0\<lparr>files := [([''s'', ''state.qcow2''], File ''D'')]\<rparr>) =
   (Inr (), host0\<lparr>files := [([''s'', ''state.qcow2''], File ''D'')]\<rparr>)"
proof -
  let ?w = "host0\<lparr>files := [([''s'', ''state.qcow2''], File ''D'')]\<rparr>"
  have "os_stat (OverlayPath \<lparr>st_Dir = ''/s''\<rparr>) ?w = (Inr (File ''D''), ?w)" by code_simp
  from persistent_overlay_kept [OF this] show ?thesis by blast
qed

text \<open>C40. A reset or an ephemeral run starts from the base image: success means that
  \<open>qemu-img create\<close> ran where the overlay did not exist any more, with the base as backing
  file and the format its first four bytes say.\<close>

theorem fresh_overlay_created:
  assumes "prepareDisk cmd qemuImg base persist reset overlay w = (Inr u, w')" "reset \<or> \<not> persist"
    "faults w = []" "resolve w base \<noteq> resolve w overlay"
  shows "\<exists>b w1 out. node_at (files w) (resolve w base) = Some (File b) \<and>
    frame w {resolve w overlay} w1 \<and> node_at (files w1) (resolve w overlay) = None \<and>
    cmd qemuImg (overlay_args (if take 4 b = qcow2_magic then ''qcow2'' else ''raw'') base overlay) w1 =
      ((None, out), w')"
proof -
  obtain u1 w1 where rm: "RemoveOverlay overlay w = (Inr u1, w1)"
    and cr: "CreateOverlay cmd qemuImg base overlay w1 = (Inr u, w')"
    using assms(1,2) by (auto simp: prepareDisk_def bind_io_ok wrap_io_ok split: if_splits)
  have none: "node_at (files w1) (resolve w overlay) = None" by (rule RemoveOverlay_ok [OF rm assms(3)])
  have f1: "frame w {resolve w overlay} w1" by (rule RemoveOverlay_frame [OF rm])
  obtain r2 w2 where st: "os_stat overlay w1 = (r2, w2)" by (cases "os_stat overlay w1")
  have r2: "\<exists>e. r2 = Inl e"
    using os_stat_ok [of overlay w1 _ w2] st none frame_resolve [OF f1] by (cases r2) auto
  obtain fmt w3 where df: "diskFormat base w2 = (Inr fmt, w3)"
    and run: "run_qemu_img cmd qemuImg (overlay_args fmt base overlay) w3 = (Inr u, w')"
    using cr st r2 by (auto simp: CreateOverlay_def io_simps bind_io_ok split: if_splits prod.splits sum.splits)
  have f2: "files w2 = files w1" "frame w1 {} w2" using os_stat_files [OF st] os_stat_frame [OF st] by auto
  have res: "resolve w2 = resolve w" using frame_resolve [OF f1] frame_resolve [OF f2(2)] by simp
  from diskFormat_ok [OF df] obtain b where b: "files w3 = files w2" "frame w2 {} w3"
    "node_at (files w2) (resolve w base) = Some (File b)"
    "fmt = (if take 4 b = qcow2_magic then ''qcow2'' else ''raw'')" using res by auto
  have "node_at (files w) (resolve w base) = Some (File b)"
    using b(3) f2(1) frame_node [OF f1, of "resolve w base"] assms(4) by simp
  moreover have "frame w {resolve w overlay} w3"
    using f1 f2(2) b(2) by (meson empty_subsetI frame_comp frame_mono)
  moreover have "\<exists>out. cmd qemuImg (overlay_args fmt base overlay) w3 = ((None, out), w')"
    using run by (auto simp: run_qemu_img_def split: prod.splits option.splits)
  ultimately show ?thesis using b(1,4) f2(1) none by auto
qed

definition img0 :: command where
  "img0 bin args w = ((None, []), w\<lparr>files := fs_put (resolve w (last args)) (File ''new'') (files w)\<rparr>)"

definition disk_host :: os where
  "disk_host = host0\<lparr>files := [([''b''], File (qcow2_magic @ ''..'')), ([''o''], File ''old'')]\<rparr>"

theorem fresh_overlay_created_witness:
  "\<exists>w'. prepareDisk img0 ''/q'' ''/b'' False False ''/o'' disk_host = (Inr (), w') \<and>
     (\<exists>w1 out. img0 ''/q'' (overlay_args ''qcow2'' ''/b'' ''/o'') w1 = ((None, out), w') \<and>
        node_at (files w1) [''o''] = None)"
proof -
  have r: "fst (prepareDisk img0 ''/q'' ''/b'' False False ''/o'' disk_host) = Inr ()" by code_simp
  obtain w' where e: "prepareDisk img0 ''/q'' ''/b'' False False ''/o'' disk_host = (Inr (), w')"
    using r by (metis prod.collapse)
  have h: "resolve disk_host ''/b'' = [''b'']" "resolve disk_host ''/o'' = [''o'']" "faults disk_host = []"
    "node_at (files disk_host) [''b''] = Some (File (qcow2_magic @ ''..''))" by code_simp+
  have m: "take 4 (qcow2_magic @ ''..'') = qcow2_magic" by code_simp
  from fresh_overlay_created [OF e] e h m show ?thesis by auto
qed

text \<open>\<open>CreateOverlay\<close> takes every error of \<open>Stat\<close> for a missing file: one that is there is
  then created again.\<close>

lemma overlay_stat_fault_recreates:
  "case CreateOverlay img0 ''/q'' ''/b'' ''/o'' (disk_host\<lparr>faults := [Some (Fails EACCES)]\<rparr>) of
     (r, w) \<Rightarrow> r = Inr () \<and> file_at w ''/o'' = Some ''new''"
  by code_simp

end
