(* ===== verification/VM_Seed.thy ===== *)
theory VM_Seed
  imports Go_OS Go_Sha256 "HOL-Library.Multiset"
begin

text \<open>
  Package \<open>internal/vm\<close>, \<open>seed.go\<close>: the cloud-init NoCloud seed. The three documents are
  text; writing them into a FAT32 image is the library \<open>go-diskfs\<close>, the parameter \<open>dfs\<close>,
  and \<open>order\<close> is the order in which Go's map iteration yields the files.
\<close>

section \<open>Parameters and documents\<close>

record SeedParams =
  seed_Hostname :: string
  seed_InstanceID :: string
  seed_Username :: string
  seed_Password :: string
  seed_SSHKey :: string
  seed_IncludeNetworkConfig :: bool

abbreviation nl :: char where "nl \<equiv> CHR 0x0A"

definition InstanceIDFor :: "string \<Rightarrow> string" where
  "InstanceIDFor seed = ''dvm-'' @ take 12 (hex_encode (sha256_sum seed))"

definition metaData :: "SeedParams \<Rightarrow> string" where
  "metaData p = ''instance-id: '' @ seed_InstanceID p @ [nl] @ ''local-hostname: '' @ seed_Hostname p @ [nl]"

definition userData :: "SeedParams \<Rightarrow> string" where
  "userData p =
     ''#cloud-config'' @ [nl] @
     ''hostname: '' @ seed_Hostname p @ [nl] @
     (if seed_Password p \<noteq> []
      then ''ssh_pwauth: true'' @ [nl] @
           ''chpasswd:'' @ [nl] @ ''  expire: false'' @ [nl] @ ''  users:'' @ [nl] @
           ''    - name: '' @ seed_Username p @ [nl] @ ''      password: '' @ seed_Password p @ [nl] @
           ''      type: text'' @ [nl]
      else []) @
     (if seed_SSHKey p \<noteq> []
      then ''ssh_authorized_keys:'' @ [nl] @ ''  - '' @ TrimSpace (seed_SSHKey p) @ [nl]
      else [])"

definition networkConfig :: string where
  "networkConfig =
     ''version: 2'' @ [nl] @ ''ethernets:'' @ [nl] @ ''  alleth:'' @ [nl] @ ''    match:'' @ [nl] @
     ''      name: '' @ [CHR 0x22] @ ''e*'' @ [CHR 0x22] @ [nl] @ ''    dhcp4: true'' @ [nl]"

section \<open>Writing the image\<close>

definition seedImageSize :: int where
  "seedImageSize = 64 * 1024 * 1024"

record diskfs =
  dfs_Create :: "string \<Rightarrow> int \<Rightarrow> unit io"
  dfs_Format :: "string \<Rightarrow> string \<Rightarrow> unit io"
  dfs_OpenFile :: "string \<Rightarrow> string \<Rightarrow> unit io"
  dfs_Write :: "string \<Rightarrow> string \<Rightarrow> string \<Rightarrow> unit io"

definition writeFSFile :: "diskfs \<Rightarrow> string \<Rightarrow> string \<Rightarrow> string \<Rightarrow> unit io" where
  "writeFSFile dfs path name content =
     bind_io (dfs_OpenFile dfs path name) (\<lambda>_. dfs_Write dfs path name content)"

definition seed_defaults :: "string \<Rightarrow> SeedParams \<Rightarrow> SeedParams" where
  "seed_defaults path p =
     (let p1 = (if seed_Username p = [] then p\<lparr>seed_Username := ''ubuntu''\<rparr> else p);
          p2 = (if seed_Hostname p1 = [] then p1\<lparr>seed_Hostname := ''dvm''\<rparr> else p1)
      in if seed_InstanceID p2 = [] then p2\<lparr>seed_InstanceID := InstanceIDFor path\<rparr> else p2)"

definition seed_files :: "SeedParams \<Rightarrow> (string \<times> string) list" where
  "seed_files p =
     [(''/meta-data'', metaData p), (''/user-data'', userData p)] @
     (if seed_IncludeNetworkConfig p then [(''/network-config'', networkConfig)] else [])"

fun write_files :: "diskfs \<Rightarrow> string \<Rightarrow> (string \<times> string) list \<Rightarrow> unit io" where
  "write_files dfs path [] = return_io ()"
| "write_files dfs path ((name, content) # fs) =
     bind_io (wrap_io ''write %s: %w'' [name] (writeFSFile dfs path name content)) (\<lambda>_.
     write_files dfs path fs)"

definition WriteSeed ::
    "diskfs \<Rightarrow> ((string \<times> string) list \<Rightarrow> (string \<times> string) list) \<Rightarrow> string \<Rightarrow> SeedParams \<Rightarrow> unit io" where
  "WriteSeed dfs order path p0 =
     (let p = seed_defaults path p0 in
      catch_io (os_remove path) (\<lambda>_.
      bind_io (wrap_io ''create seed image: %w'' [] (dfs_Create dfs path seedImageSize)) (\<lambda>_.
      bind_io (wrap_io ''format seed filesystem: %w'' [] (dfs_Format dfs path ''CIDATA'')) (\<lambda>_.
      write_files dfs path (order (seed_files p))))))"

section \<open>The documents line by line\<close>

lemma Split_line: "nl \<notin> set a \<Longrightarrow> Split (a @ nl # b) nl = a # Split b nl"
  by (simp add: Split_append Split_none)

lemma Split_Nil [simp]: "Split [] c = [[]]"
  by (simp add: Split_def)

definition one_line :: "string \<Rightarrow> bool" where
  "one_line s \<longleftrightarrow> nl \<notin> set s"

text \<open>Without line breaks in its fields a document has exactly these lines.\<close>

lemma lines_append: "nl \<notin> set a \<Longrightarrow> Split (a @ [nl] @ b) nl = a # Split b nl"
  using Split_line by simp

definition chpasswd_lines :: "SeedParams \<Rightarrow> string list" where
  "chpasswd_lines p = (if seed_Password p = [] then [] else
     [''ssh_pwauth: true'', ''chpasswd:'', ''  expire: false'', ''  users:'',
      ''    - name: '' @ seed_Username p, ''      password: '' @ seed_Password p, ''      type: text''])"

definition ssh_lines :: "SeedParams \<Rightarrow> string list" where
  "ssh_lines p = (if seed_SSHKey p = [] then [] else
     [''ssh_authorized_keys:'', ''  - '' @ TrimSpace (seed_SSHKey p)])"

definition unlines :: "string list \<Rightarrow> string" where
  "unlines ls = concat (map (\<lambda>l. l @ [nl]) ls)"

lemma unlines_simps [simp]: "unlines [] = []" "unlines (l # ls) = l @ nl # unlines ls"
  "unlines (xs @ ys) = unlines xs @ unlines ys"
  by (simp_all add: unlines_def)

lemma Split_unlines: "list_all one_line ls \<Longrightarrow> Split (unlines ls) nl = ls @ [[]]"
  by (induction ls) (simp_all add: Split_line one_line_def)

lemma userData_unlines:
  "userData p = unlines ([''#cloud-config'', ''hostname: '' @ seed_Hostname p] @ chpasswd_lines p @ ssh_lines p)"
  by (simp add: userData_def chpasswd_lines_def ssh_lines_def)

text \<open>The user-data document is a cloud-config whose only keys are the host name, the
  password block exactly when a password is set, and the key list exactly when a key is set;
  no line is lost or split as long as the values have no line break.\<close>

theorem user_data_lines:
  assumes "one_line (seed_Hostname p)" "one_line (seed_Username p)" "one_line (seed_Password p)"
    "one_line (TrimSpace (seed_SSHKey p))"
  shows "Split (userData p) nl =
    [''#cloud-config'', ''hostname: '' @ seed_Hostname p] @
    (if seed_Password p = [] then [] else
      [''ssh_pwauth: true'', ''chpasswd:'', ''  expire: false'', ''  users:'',
       ''    - name: '' @ seed_Username p, ''      password: '' @ seed_Password p, ''      type: text'']) @
    (if seed_SSHKey p = [] then [] else [''ssh_authorized_keys:'', ''  - '' @ TrimSpace (seed_SSHKey p)]) @
    [[]]"
proof -
  have "list_all one_line ([''#cloud-config'', ''hostname: '' @ seed_Hostname p] @ chpasswd_lines p @ ssh_lines p)"
    using assms by (simp add: one_line_def chpasswd_lines_def ssh_lines_def)
  from Split_unlines [OF this] show ?thesis
    by (simp add: userData_unlines chpasswd_lines_def ssh_lines_def)
qed

definition seed0 :: SeedParams where
  "seed0 = \<lparr>seed_Hostname = ''dvm'', seed_InstanceID = ''i'', seed_Username = ''ubuntu'',
    seed_Password = ''lab'', seed_SSHKey = [], seed_IncludeNetworkConfig = True\<rparr>"

theorem user_data_lines_witness:
  "Split (userData seed0) nl = [''#cloud-config'', ''hostname: dvm'', ''ssh_pwauth: true'', ''chpasswd:'',
     ''  expire: false'', ''  users:'', ''    - name: ubuntu'', ''      password: lab'', ''      type: text'', []]"
  using user_data_lines [of seed0] by (simp add: seed0_def one_line_def TrimSpace_def trim_by_def)

text \<open>A public key file with two keys breaks the document: the second line is no list item.\<close>

lemma two_keys_break_user_data:
  "last (butlast (Split (userData (seed0\<lparr>seed_SSHKey := ''ssh-ed25519 A'' @ [nl] @ ''ssh-ed25519 B''\<rparr>)) nl)) =
   ''ssh-ed25519 B''"
  by code_simp

section \<open>The image\<close>

text \<open>What \<open>WriteSeed\<close> needs of the library, in terms of a reader \<open>rd w path name\<close> of the
  image: formatting leaves it empty, writing a file stores it and keeps the others.\<close>

definition diskfs_laws :: "diskfs \<Rightarrow> (os \<Rightarrow> string \<Rightarrow> string \<Rightarrow> string option) \<Rightarrow> bool" where
  "diskfs_laws dfs rd \<longleftrightarrow>
     (\<forall>p l w u w'. dfs_Format dfs p l w = (Inr u, w') \<longrightarrow> (\<forall>n. rd w' p n = None)) \<and>
     (\<forall>p n w u w' m. dfs_OpenFile dfs p n w = (Inr u, w') \<longrightarrow> m \<noteq> n \<longrightarrow> rd w' p m = rd w p m) \<and>
     (\<forall>p n c w u w' m. dfs_Write dfs p n c w = (Inr u, w') \<longrightarrow>
        rd w' p m = (if m = n then Some c else rd w p m))"

lemma write_files_content:
  assumes "diskfs_laws dfs rd"
  shows "write_files dfs path fs w = (Inr u, w') \<Longrightarrow> distinct (map fst fs) \<Longrightarrow>
    rd w' path n = (case map_of fs n of Some c \<Rightarrow> Some c | None \<Rightarrow> rd w path n)"
proof (induction fs arbitrary: w)
  case (Cons f fs)
  obtain name content where f: "f = (name, content)" by (cases f)
  from Cons.prems(1) obtain u1 w1 u2 w2 where o: "dfs_OpenFile dfs path name w = (Inr u1, w1)"
    and wr: "dfs_Write dfs path name content w1 = (Inr u2, w2)"
    and rest: "write_files dfs path fs w2 = (Inr u, w')"
    by (auto simp: f bind_io_ok wrap_io_ok writeFSFile_def)
  have w2: "rd w2 path m = (if m = name then Some content else rd w1 path m)" for m
    using assms wr unfolding diskfs_laws_def by blast
  have w1: "m \<noteq> name \<Longrightarrow> rd w1 path m = rd w path m" for m
    using assms o unfolding diskfs_laws_def by blast
  have ih: "rd w' path n = (case map_of fs n of Some c \<Rightarrow> Some c | None \<Rightarrow> rd w2 path n)"
    using Cons.IH [OF rest] Cons.prems(2) by simp
  have "map_of fs name = None" using Cons.prems(2) by (simp add: f map_of_eq_None_iff)
  then show ?case using ih w1 w2 by (auto simp: f split: option.split)
qed simp

lemma seed_files_distinct: "distinct (map fst (seed_files p))"
  by (simp add: seed_files_def)

lemma map_of_perm:
  assumes "mset xs = mset ys" "distinct (map fst ys)"
  shows "map_of xs = map_of ys"
proof -
  have "mset (map fst xs) = mset (map fst ys)" using assms(1) by (simp add: mset_map)
  then have "distinct (map fst xs)" using assms(2) by (metis mset_eq_imp_distinct_iff)
  moreover have "set xs = set ys" using assms(1) by (metis set_mset_mset)
  ultimately show ?thesis using assms(2) by (metis map_of_inject_set)
qed

text \<open>C35. A seed that is written holds exactly the documents of its parameters with the
  defaults filled in, whatever was at its path before and in whatever order they are written:
  user-data and meta-data always, network-config exactly when asked for, nothing else.\<close>

theorem seed_contents:
  assumes "diskfs_laws dfs rd" "WriteSeed dfs order path p w = (Inr u, w')"
    "mset (order (seed_files (seed_defaults path p))) = mset (seed_files (seed_defaults path p))"
  shows "rd w' path n =
    (if n = ''/meta-data'' then Some (metaData (seed_defaults path p))
     else if n = ''/user-data'' then Some (userData (seed_defaults path p))
     else if n = ''/network-config'' \<and> seed_IncludeNetworkConfig p then Some networkConfig else None)"
proof -
  let ?p = "seed_defaults path p" and ?fs = "order (seed_files (seed_defaults path p))"
  obtain r0 w0 where rm: "os_remove path w = (r0, w0)" by (cases "os_remove path w")
  obtain u1 w1 u2 w2 where fm: "dfs_Format dfs path ''CIDATA'' w1 = (Inr u2, w2)"
    and wf: "write_files dfs path ?fs w2 = (Inr u, w')"
    using assms(2) rm by (auto simp: WriteSeed_def Let_def catch_io_apply bind_io_ok wrap_io_ok)
  have none: "rd w2 path m = None" for m using assms(1) fm unfolding diskfs_laws_def by blast
  have d: "distinct (map fst ?fs)"
    using seed_files_distinct [of ?p] assms(3) by (metis mset_eq_imp_distinct_iff mset_map)
  have inc: "seed_IncludeNetworkConfig ?p = seed_IncludeNetworkConfig p"
    by (simp add: seed_defaults_def Let_def)
  have "rd w' path n = map_of (seed_files ?p) n"
    using write_files_content [OF assms(1) wf d, of n] none map_of_perm [OF assms(3) seed_files_distinct]
    by (simp split: option.split)
  then show ?thesis by (simp add: seed_files_def inc)
qed

text \<open>A library that keeps the image's files as cells below the image's path.\<close>

definition dfs0 :: diskfs where
  "dfs0 = \<lparr>dfs_Create = (\<lambda>p n w. (Inr (), w)),
    dfs_Format = (\<lambda>p l w. (Inr (), w\<lparr>files := fs_del_tree (resolve w p) (files w)\<rparr>)),
    dfs_OpenFile = (\<lambda>p n w. (Inr (), w)),
    dfs_Write = (\<lambda>p n c w. (Inr (), w\<lparr>files := fs_put (resolve w p @ [n]) (File c) (files w)\<rparr>))\<rparr>"

definition rd0 :: "os \<Rightarrow> string \<Rightarrow> string \<Rightarrow> string option" where
  "rd0 w p n = (case node_at (files w) (resolve w p @ [n]) of Some (File c) \<Rightarrow> Some c | _ \<Rightarrow> None)"

lemma dfs0_laws: "diskfs_laws dfs0 rd0"
  by (auto simp: diskfs_laws_def dfs0_def rd0_def)

theorem seed_contents_witness:
  "\<exists>w'. WriteSeed dfs0 rev ''/s/seed.img'' seed0 host0 = (Inr (), w') \<and>
     rd0 w' ''/s/seed.img'' ''/network-config'' = Some networkConfig \<and>
     rd0 w' ''/s/seed.img'' ''/user-data'' = Some (userData (seed_defaults ''/s/seed.img'' seed0))"
proof -
  have "fst (WriteSeed dfs0 rev ''/s/seed.img'' seed0 host0) = Inr ()"
    by (simp add: WriteSeed_def Let_def io_simps os_remove_def syscall_none dfs0_def seed_files_def
        writeFSFile_def seed_defaults_def seed0_def split: prod.split)
  then obtain w' where e: "WriteSeed dfs0 rev ''/s/seed.img'' seed0 host0 = (Inr (), w')"
    by (metis prod.collapse)
  have "seed_IncludeNetworkConfig seed0" by (simp add: seed0_def)
  with e seed_contents [OF dfs0_laws e] show ?thesis by simp
qed

text \<open>The instance id is a fixed function of the image's path, so a guest sees the same
  instance on every boot, and it is \<open>dvm-\<close> and twelve hexadecimal digits, one line.\<close>

theorem instance_id_shape:
  "seed_InstanceID (seed_defaults path (p\<lparr>seed_InstanceID := []\<rparr>)) = InstanceIDFor path \<and>
   length (InstanceIDFor path) = 16 \<and> prefix ''dvm-'' (InstanceIDFor path) \<and>
   (\<exists>d. list_all (\<lambda>c. hex_val c \<noteq> None) d \<and> InstanceIDFor path = ''dvm-'' @ d)"
proof -
  have h: "hex_val c \<noteq> None" if "c \<in> set (take 12 (hex_encode (sha256_sum path)))" for c
    using that hex_decode_chars [OF hex_decode_encode] in_set_takeD by fast
  have "length (sha256_sum path) = 32"
    using length_sha256_hex [of path] by (simp add: sha256_hex_def)
  then have "length (InstanceIDFor path) = 16" by (simp add: InstanceIDFor_def)
  moreover have "\<exists>d. list_all (\<lambda>c. hex_val c \<noteq> None) d \<and> InstanceIDFor path = ''dvm-'' @ d"
    unfolding InstanceIDFor_def
    by (rule exI [of _ "take 12 (hex_encode (sha256_sum path))"]) (use h in \<open>auto simp: list_all_iff\<close>)
  ultimately show ?thesis
    by (simp add: seed_defaults_def Let_def) (simp add: InstanceIDFor_def)
qed

end
