(* ===== verification/VM_Ready.thy ===== *)
theory VM_Ready
  imports Qemu_Command Go_Net "HOL-Library.Word"
begin

text \<open>
  Package \<open>internal/vm\<close>: the check that host ports are free (\<open>ports.go\<close>), the readiness wait
  (\<open>readiness.go\<close>) and the serial console (\<open>console.go\<close>). The network and the passing of
  time are parameters: which addresses can be bound, which accept at a time, when the
  context is done.
\<close>

section \<open>Host ports\<close>

definition ipOrDefault :: "string \<Rightarrow> string" where
  "ipOrDefault ip = (if ip = [] then ''127.0.0.1'' else ip)"

definition fwd_addr :: "PortForward \<Rightarrow> string" where
  "fwd_addr p = ipOrDefault (pf_HostIP p) @ '':'' @ Itoa (pf_HostPort p)"

definition portConflict :: "PortForward \<Rightarrow> error" where
  "portConflict p =
     Errorf (''port %d is already in use on %s.'' @ [CHR 0x0A] @ ''Stop the other process or remap with --port %d:%d'')
       [Itoa (pf_HostPort p), ipOrDefault (pf_HostIP p), Itoa (wrap64 (pf_HostPort p + 1)), Itoa (pf_GuestPort p)]"

text \<open>\<open>can_bind proto addr\<close> says whether the address can be bound now; the probe releases it
  at once. Every protocol other than \<open>udp\<close> is probed as \<open>tcp\<close>.\<close>

definition probe_proto :: "PortForward \<Rightarrow> string" where
  "probe_proto p = (if pf_Proto p = ''udp'' then ''udp'' else ''tcp'')"

fun CheckPortsFree :: "(string \<Rightarrow> string \<Rightarrow> bool) \<Rightarrow> PortForward list \<Rightarrow> unit result" where
  "CheckPortsFree can_bind [] = Inr ()"
| "CheckPortsFree can_bind (p # ps) =
     (if can_bind (probe_proto p) (fwd_addr p) then CheckPortsFree can_bind ps
      else Inl (portConflict p))"

lemma CheckPortsFree_find:
  "CheckPortsFree can_bind ps =
     (case List.find (\<lambda>p. \<not> can_bind (probe_proto p) (fwd_addr p)) ps of
        None \<Rightarrow> Inr () | Some p \<Rightarrow> Inl (portConflict p))"
  by (induction ps) simp_all

text \<open>The port check passes exactly when every forward's address can be bound, and
  otherwise names the first forward, in order, whose address cannot.\<close>

theorem check_ports_first_conflict:
  "(CheckPortsFree can_bind ps = Inr () \<longleftrightarrow> list_all (\<lambda>p. can_bind (probe_proto p) (fwd_addr p)) ps) \<and>
   (CheckPortsFree can_bind ps = Inl e \<longleftrightarrow>
     (\<exists>us p vs. ps = us @ p # vs \<and> list_all (\<lambda>u. can_bind (probe_proto u) (fwd_addr u)) us \<and>
        \<not> can_bind (probe_proto p) (fwd_addr p) \<and> e = portConflict p))"
proof -
  let ?P = "\<lambda>p. \<not> can_bind (probe_proto p) (fwd_addr p)"
  have "CheckPortsFree can_bind ps = Inr () \<longleftrightarrow> List.find ?P ps = None"
    by (simp add: CheckPortsFree_find split: option.split)
  moreover have "CheckPortsFree can_bind ps = Inl e \<longleftrightarrow> (\<exists>p. List.find ?P ps = Some p \<and> e = portConflict p)"
    by (auto simp: CheckPortsFree_find split: option.splits)
  moreover have "(\<exists>p. List.find ?P ps = Some p \<and> e = portConflict p) \<longleftrightarrow>
    (\<exists>us p vs. ps = us @ p # vs \<and> list_all (\<lambda>u. can_bind (probe_proto u) (fwd_addr u)) us \<and>
        ?P p \<and> e = portConflict p)"
    unfolding find_Some_split list_all_iff by blast
  ultimately show ?thesis by (simp add: find_None_iff list_all_iff Ball_def)
qed

text \<open>Two forwards of one host port pass the check, since each probe is released; and the
  remapping it suggests for port 65535 is no port.\<close>

lemma check_ports_misses_duplicates:
  "CheckPortsFree (\<lambda>_ _. True) [\<lparr>pf_Proto = ''tcp'', pf_HostIP = [], pf_HostPort = 8080, pf_GuestPort = 80\<rparr>,
     \<lparr>pf_Proto = ''tcp'', pf_HostIP = [], pf_HostPort = 8080, pf_GuestPort = 81\<rparr>] = Inr ()"
  by simp

section \<open>Readiness\<close>

record Probe =
  pr_Name :: string
  pr_Addr :: string

text \<open>Time is counted in attempts: at tick \<open>t\<close> the context is done or not, and an address
  accepts or not; a failed dial and the 500 ms after it are one tick.\<close>

fun dialUntil :: "nat \<Rightarrow> (nat \<Rightarrow> bool) \<Rightarrow> (nat \<Rightarrow> string \<Rightarrow> bool) \<Rightarrow> string \<Rightarrow> nat \<Rightarrow> (unit result \<times> nat) option" where
  "dialUntil 0 expired up addr t = None"
| "dialUntil (Suc k) expired up addr t =
     (if expired t then Some (Inl (Sys ECANCELED), t)
      else if up t addr then Some (Inr (), t)
      else if expired (Suc t) then Some (Inl (Sys ECANCELED), Suc t)
      else dialUntil k expired up addr (Suc t))"

text \<open>The result, the tick at which it was reached, and the probes \<open>onWaiting\<close> was called for.\<close>

fun WaitTCP :: "nat \<Rightarrow> (nat \<Rightarrow> bool) \<Rightarrow> (nat \<Rightarrow> string \<Rightarrow> bool) \<Rightarrow> Probe list \<Rightarrow> nat \<Rightarrow>
    (unit result \<times> nat \<times> Probe list) option" where
  "WaitTCP k expired up [] t = Some (Inr (), t, [])"
| "WaitTCP k expired up (p # ps) t =
     (case dialUntil k expired up (pr_Addr p) t of
        None \<Rightarrow> None
      | Some (Inl e, t') \<Rightarrow>
          Some (Inl (Wrapf ''readiness timed out waiting for %s (%s): %w'' [pr_Name p, pr_Addr p] e), t', [p])
      | Some (Inr _, t') \<Rightarrow>
          map_option (\<lambda>(r, t'', ws). (r, t'', p # ws)) (WaitTCP k expired up ps t'))"

lemma dialUntil_returns:
  "expired T \<Longrightarrow> t \<le> T \<Longrightarrow> T - t < k \<Longrightarrow>
   \<exists>r t'. dialUntil k expired up a t = Some (r, t') \<and> t \<le> t' \<and> t' \<le> T"
proof (induction k arbitrary: t)
  case (Suc k)
  show ?case
  proof (cases "expired t \<or> up t a \<or> expired (Suc t)")
    case True
    have "Suc t \<le> T" if "\<not> expired t" using that Suc.prems(1,2) by (metis Suc_leI le_neq_implies_less)
    with True Suc.prems(2) show ?thesis by auto
  next
    case False
    then have "T \<noteq> t" using Suc.prems(1) by auto
    then have "Suc t \<le> T" "T - Suc t < k" using Suc.prems by auto
    with Suc.IH [OF Suc.prems(1)] False show ?thesis by fastforce
  qed
qed simp

lemma dialUntil_ok:
  "dialUntil k expired up a t = Some (Inr u, t') \<Longrightarrow> t \<le> t' \<and> up t' a \<and> \<not> expired t'"
  by (induction k arbitrary: t) (auto split: if_splits dest: Suc_leD)

lemma dialUntil_err:
  "dialUntil k expired up a t = Some (Inl e, t') \<Longrightarrow> t \<le> t' \<and> expired t' \<and> e = Sys ECANCELED"
  by (induction k arbitrary: t) (auto split: if_splits dest: Suc_leD)

text \<open>Each probe was seen up, in order, while the context was not expired.\<close>

definition seen_up :: "(nat \<Rightarrow> bool) \<Rightarrow> (nat \<Rightarrow> string \<Rightarrow> bool) \<Rightarrow> nat \<Rightarrow> nat \<Rightarrow> Probe list \<Rightarrow> nat list \<Rightarrow> bool" where
  "seen_up expired up t t' ps ts \<longleftrightarrow> sorted ts \<and>
     list_all2 (\<lambda>p s. t \<le> s \<and> s \<le> t' \<and> up s (pr_Addr p) \<and> \<not> expired s) ps ts"

lemma WaitTCP_time: "WaitTCP k expired up ps t = Some (r, t', ws) \<Longrightarrow> t \<le> t'"
proof (induction ps arbitrary: t r ws)
  case (Cons p ps)
  obtain x t1 where d: "dialUntil k expired up (pr_Addr p) t = Some (x, t1)"
    using Cons.prems by (auto split: option.splits)
  show ?case
  proof (cases x)
    case (Inl e)
    with d Cons.prems dialUntil_err [of k expired up "pr_Addr p" t e t1] show ?thesis by auto
  next
    case (Inr u)
    with d Cons.prems obtain r1 ws1 where "WaitTCP k expired up ps t1 = Some (r1, t', ws1)" by auto
    from Cons.IH [OF this] dialUntil_ok [of k expired up "pr_Addr p" t u t1] d Inr show ?thesis by auto
  qed
qed simp

lemma WaitTCP_ok:
  "WaitTCP k expired up ps t = Some (Inr u, t', ws) \<Longrightarrow> ws = ps \<and> (\<exists>ts. seen_up expired up t t' ps ts)"
proof (induction ps arbitrary: t ws)
  case Nil
  then show ?case by (auto simp: seen_up_def intro: exI [of _ "[]"])
next
  case (Cons p ps)
  then obtain v t1 ws1 where d: "dialUntil k expired up (pr_Addr p) t = Some (Inr v, t1)"
    and r: "WaitTCP k expired up ps t1 = Some (Inr u, t', ws1)" and ws: "ws = p # ws1"
    by (auto split: option.splits sum.splits)
  note o = dialUntil_ok [OF d]
  from Cons.IH [OF r] obtain ts where ts: "ws1 = ps" "seen_up expired up t1 t' ps ts" by blast
  have le: "t1 \<le> t'" by (rule WaitTCP_time [OF r])
  have ge: "\<forall>s \<in> set ts. t1 \<le> s"
    using ts(2) by (auto simp: seen_up_def list_all2_conv_all_nth in_set_conv_nth)
  have "list_all2 (\<lambda>p s. t \<le> s \<and> s \<le> t' \<and> up s (pr_Addr p) \<and> \<not> expired s) ps ts"
    using ts(2) o by (auto simp: seen_up_def elim!: list_all2_mono)
  then have "seen_up expired up t t' (p # ps) (t1 # ts)"
    using o le ge ts(2) by (simp add: seen_up_def)
  with ws ts(1) show ?case by blast
qed

text \<open>C33. The readiness wait ends: when the context is done at tick \<open>T\<close> it has returned by
  then. It succeeds only if every probe, in order, accepted a connection before that, and
  otherwise its error names the first probe that did not.\<close>

theorem wait_tcp_total:
  assumes "expired T" "t \<le> T" "T - t < k"
  shows "\<exists>r t' ws. WaitTCP k expired up ps t = Some (r, t', ws) \<and> t' \<le> T \<and>
    (r = Inr () \<longrightarrow> ws = ps \<and> (\<exists>ts. seen_up expired up t t' ps ts)) \<and>
    (\<forall>e. r = Inl e \<longrightarrow> (\<exists>us p vs. ps = us @ p # vs \<and> ws = us @ [p] \<and> expired t' \<and>
       e = Wrapf ''readiness timed out waiting for %s (%s): %w'' [pr_Name p, pr_Addr p] (Sys ECANCELED)))"
proof -
  have "\<exists>r t' ws. WaitTCP k expired up ps t = Some (r, t', ws) \<and> t' \<le> T \<and>
    (\<forall>e. r = Inl e \<longrightarrow> (\<exists>us p vs. ps = us @ p # vs \<and> ws = us @ [p] \<and> expired t' \<and>
       e = Wrapf ''readiness timed out waiting for %s (%s): %w'' [pr_Name p, pr_Addr p] (Sys ECANCELED)))"
    using assms(2,3)
  proof (induction ps arbitrary: t)
    case (Cons p ps)
    obtain x t1 where d: "dialUntil k expired up (pr_Addr p) t = Some (x, t1)" "t \<le> t1" "t1 \<le> T"
      using dialUntil_returns [of expired, OF assms(1) Cons.prems] by blast
    show ?case
    proof (cases x)
      case (Inl e)
      with d dialUntil_err [of k expired up "pr_Addr p" t e t1] show ?thesis
        by (auto intro!: exI [of _ "[]"])
    next
      case (Inr u)
      have "T - t1 < k" using d(2) Cons.prems(2) by simp
      from Cons.IH [OF d(3) this] obtain r t' ws where
        w: "WaitTCP k expired up ps t1 = Some (r, t', ws)" "t' \<le> T"
          "\<forall>e. r = Inl e \<longrightarrow> (\<exists>us p vs. ps = us @ p # vs \<and> ws = us @ [p] \<and> expired t' \<and>
       e = Wrapf ''readiness timed out waiting for %s (%s): %w'' [pr_Name p, pr_Addr p] (Sys ECANCELED))"
        by blast
      have "\<exists>us q vs. p # ps = us @ q # vs \<and> p # ws = us @ [q] \<and> expired t' \<and>
       e = Wrapf ''readiness timed out waiting for %s (%s): %w'' [pr_Name q, pr_Addr q] (Sys ECANCELED)"
        if "r = Inl e" for e
      proof -
        from w(3) that obtain us q vs where "ps = us @ q # vs" "ws = us @ [q]" "expired t'"
          "e = Wrapf ''readiness timed out waiting for %s (%s): %w'' [pr_Name q, pr_Addr q] (Sys ECANCELED)"
          by blast
        then show ?thesis by (intro exI [of _ "p # us"]) auto
      qed
      with d Inr w show ?thesis by auto
    qed
  qed simp
  then obtain r t' ws where w: "WaitTCP k expired up ps t = Some (r, t', ws)" "t' \<le> T"
    "\<forall>e. r = Inl e \<longrightarrow> (\<exists>us p vs. ps = us @ p # vs \<and> ws = us @ [p] \<and> expired t' \<and>
       e = Wrapf ''readiness timed out waiting for %s (%s): %w'' [pr_Name p, pr_Addr p] (Sys ECANCELED))" by blast
  with WaitTCP_ok [of k expired up ps t "()" t' ws] show ?thesis by blast
qed

definition probes0 :: "Probe list" where
  "probes0 = [\<lparr>pr_Name = ''tcp/22'', pr_Addr = ''127.0.0.1:22''\<rparr>, \<lparr>pr_Name = ''tcp/80'', pr_Addr = ''127.0.0.1:80''\<rparr>]"

definition up0 :: "nat \<Rightarrow> string \<Rightarrow> bool" where
  "up0 t a \<longleftrightarrow> a = ''127.0.0.1:22'' \<and> 3 \<le> t"

theorem wait_tcp_total_witness:
  "\<exists>e t' ws. WaitTCP 11 (\<lambda>t. 10 \<le> t) up0 probes0 0 = Some (Inl e, t', ws) \<and> t' \<le> 10 \<and> ws = probes0"
proof -
  have r: "WaitTCP 11 (\<lambda>t. 10 \<le> t) up0 probes0 0 = Some (Inl (Wrapf ''readiness timed out waiting for %s (%s): %w''
      [''tcp/80'', ''127.0.0.1:80''] (Sys ECANCELED)), 10, probes0)" by code_simp
  from wait_tcp_total [of "\<lambda>t. 10 \<le> t" 10 0 11 up0 probes0] r show ?thesis by auto
qed

lemma dialUntil_live:
  "(\<And>i. S \<le> i \<Longrightarrow> up i a) \<Longrightarrow> (\<And>i. i \<le> max S t \<Longrightarrow> \<not> expired i) \<Longrightarrow> S - t < k \<Longrightarrow>
   \<exists>t'. dialUntil k expired up a t = Some (Inr (), t') \<and> t \<le> t' \<and> t' \<le> max S t"
proof (induction k arbitrary: t)
  case (Suc k)
  show ?case
  proof (cases "up t a")
    case True
    with Suc.prems(2) [of t] show ?thesis by auto
  next
    case False
    then have lt: "t < S" using Suc.prems(1) [of t] by (cases "S \<le> t") auto
    then have m: "max S (Suc t) = S" "max S t = S" by auto
    have nd: "\<not> expired i" if "i \<le> S" for i using Suc.prems(2) [of i] that m(2) by simp
    have "\<exists>t'. dialUntil k expired up a (Suc t) = Some (Inr (), t') \<and> Suc t \<le> t' \<and> t' \<le> max S (Suc t)"
      using Suc.prems(1,3) lt nd m(1) by (intro Suc.IH) auto
    then show ?thesis using False nd [of t] nd [of "Suc t"] lt m by auto
  qed
qed simp

text \<open>A guest whose ports come up in time is found ready: if from tick \<open>S\<close> on every
  probed address accepts, and the context is not done before, the wait succeeds by then.\<close>

theorem wait_tcp_live:
  assumes "\<And>p i. p \<in> set ps \<Longrightarrow> S \<le> i \<Longrightarrow> up i (pr_Addr p)" "\<And>i. i \<le> max S t \<Longrightarrow> \<not> expired i" "S - t < k"
  shows "\<exists>t'. WaitTCP k expired up ps t = Some (Inr (), t', ps) \<and> t' \<le> max S t"
  using assms
proof (induction ps arbitrary: t)
  case (Cons p ps)
  obtain t1 where t1: "dialUntil k expired up (pr_Addr p) t = Some (Inr (), t1)" "t \<le> t1" "t1 \<le> max S t"
    using dialUntil_live [of S up "pr_Addr p" t expired k] Cons.prems by auto
  then have m: "max S t1 \<le> max S t" by simp
  have "\<exists>t'. WaitTCP k expired up ps t1 = Some (Inr (), t', ps) \<and> t' \<le> max S t1"
    using Cons.prems t1(2) m by (intro Cons.IH) auto
  with t1 m show ?case by auto
qed simp

lemma up0_late: "3 \<le> i \<Longrightarrow> up0 i ''127.0.0.1:22''"
  by (simp add: up0_def)

theorem wait_tcp_live_witness:
  "\<exists>t'. WaitTCP 4 (\<lambda>t. 10 \<le> t) up0 [\<lparr>pr_Name = ''tcp/22'', pr_Addr = ''127.0.0.1:22''\<rparr>] 0 =
     Some (Inr (), t', [\<lparr>pr_Name = ''tcp/22'', pr_Addr = ''127.0.0.1:22''\<rparr>]) \<and> t' \<le> 3"
  using wait_tcp_live [of "[\<lparr>pr_Name = ''tcp/22'', pr_Addr = ''127.0.0.1:22''\<rparr>]" 3 up0 0 "\<lambda>t. 10 \<le> t" 4]
    up0_late by auto

section \<open>The serial console\<close>

definition DefaultDetachKey :: char where
  "DefaultDetachKey = CHR 0x1D"

text \<open>\<open>dialSerial\<close>: connect until it works or the deadline is past, as \<open>DialQMP\<close> does.\<close>

definition dialSerial :: "nat \<Rightarrow> (nat \<Rightarrow> 'c result) \<Rightarrow> (nat \<Rightarrow> int) \<Rightarrow> int \<Rightarrow> 'c result option" where
  "dialSerial fuel dial now timeout = poll fuel dial (\<lambda>i. now 0 + timeout < now (Suc i)) 0"

text \<open>The draining loop: each read of the connection gives bytes and perhaps an error; the
  bytes go to the log when there is one and, while mirroring, to the terminal. \<open>pump_closed\<close>
  tells the interactive loop that the guest hung up.\<close>

record pump =
  pump_log :: string
  pump_out :: string
  pump_closed :: bool

fun pump_run :: "bool \<Rightarrow> (nat \<Rightarrow> bool) \<Rightarrow> (string \<times> errno option) list \<Rightarrow> nat \<Rightarrow> pump \<Rightarrow> pump" where
  "pump_run has_log mirror [] i s = s"
| "pump_run has_log mirror ((b, e) # rs) i s =
     (let s1 = (if has_log then s\<lparr>pump_log := pump_log s @ b\<rparr> else s);
          s2 = (if mirror i then s1\<lparr>pump_out := pump_out s1 @ b\<rparr> else s1)
      in case e of Some x \<Rightarrow> s2\<lparr>pump_closed := True\<rparr> | None \<Rightarrow> pump_run has_log mirror rs (Suc i) s2)"

text \<open>The keyboard loop: before each key the closed flag is read (\<open>closed i\<close>), the detach key
  ends it, any other key is written to the guest (\<open>wr i\<close> is the write's error).\<close>

fun key_loop :: "char \<Rightarrow> (nat \<Rightarrow> bool) \<Rightarrow> (nat \<Rightarrow> error option) \<Rightarrow> (char option \<times> error option) list \<Rightarrow>
    nat \<Rightarrow> string \<Rightarrow> unit result \<times> string" where
  "key_loop detach closed wr [] i sent = (if closed i then Inr () else Inl (Sys EOF), sent)"
| "key_loop detach closed wr ((c, e) # ks) i sent =
     (if closed i then (Inr (), sent)
      else (case c of
        Some ch \<Rightarrow>
          if ch = detach then (Inr (), sent)
          else (case wr i of
            Some we \<Rightarrow> (Inl we, sent)
          | None \<Rightarrow> (case e of
              Some x \<Rightarrow> (Inl x, sent @ [ch])
            | None \<Rightarrow> key_loop detach closed wr ks (Suc i) (sent @ [ch])))
      | None \<Rightarrow> (case e of
          Some x \<Rightarrow> (Inl x, sent)
        | None \<Rightarrow> key_loop detach closed wr ks (Suc i) sent)))"

record console =
  con_sent :: string
  con_mirror :: bool
  con_raw :: bool
  con_mode :: "32 word option"

text \<open>\<open>con_mode\<close> is the mode of standard output when it is a Windows console; \<open>can_set\<close> says
  whether \<open>SetConsoleMode\<close> succeeds. Elsewhere \<open>enableVTOutput\<close> does nothing.\<close>

definition enableVTOutput_windows :: "bool \<Rightarrow> console \<Rightarrow> console" where
  "enableVTOutput_windows can_set c =
     (case con_mode c of
        None \<Rightarrow> c
      | Some mode \<Rightarrow> if can_set then c\<lparr>con_mode := Some (Bit_Operations.or mode 4)\<rparr> else c)"

definition enableVTOutput :: "string \<Rightarrow> bool \<Rightarrow> console \<Rightarrow> console" where
  "enableVTOutput os can_set c = (if os = ''windows'' then enableVTOutput_windows can_set c else c)"

text \<open>\<open>tty\<close>: standard input is a terminal and raw mode could be entered.\<close>

definition interactive :: "string \<Rightarrow> bool \<Rightarrow> bool \<Rightarrow> char \<Rightarrow> (nat \<Rightarrow> bool) \<Rightarrow> (nat \<Rightarrow> error option) \<Rightarrow>
    (char option \<times> error option) list \<Rightarrow> (console, unit) prog" where
  "interactive os can_set tty detach closed wr stdin = (\<lambda>c.
     let c0 = enableVTOutput os can_set c;
         c1 = (if tty then c0\<lparr>con_raw := True\<rparr> else c0);
         c2 = c1\<lparr>con_mirror := True\<rparr>;
         (r, sent) = key_loop detach closed wr stdin 0 (con_sent c2);
         c3 = c2\<lparr>con_sent := sent\<rparr>;
         c4 = c3\<lparr>con_mirror := False\<rparr>
     in (r, if tty then c4\<lparr>con_raw := con_raw c0\<rparr> else c4))"

lemma enableVTOutput_sel [simp]:
  "con_sent (enableVTOutput os b c) = con_sent c" "con_raw (enableVTOutput os b c) = con_raw c"
  by (simp_all add: enableVTOutput_def enableVTOutput_windows_def split: option.split)

fun typed :: "(char option \<times> error option) list \<Rightarrow> string" where
  "typed [] = []"
| "typed ((Some c, e) # ks) = c # typed ks"
| "typed ((None, e) # ks) = typed ks"

lemma key_loop_sent:
  "key_loop d closed wr ks i s = (r, s') \<Longrightarrow> \<exists>us. s' = s @ us \<and> prefix us (takeWhile (\<lambda>c. c \<noteq> d) (typed ks))"
proof (induction ks arbitrary: i s)
  case Nil
  then show ?case by (auto split: if_splits)
next
  case (Cons k ks)
  obtain c e where k: "k = (c, e)" by (cases k)
  show ?case
  proof (cases "closed i \<or> c = Some d \<or> (c \<noteq> None \<and> wr i \<noteq> None) \<or> e \<noteq> None")
    case True
    with Cons.prems k show ?thesis by (cases c) (auto split: if_splits option.splits)
  next
    case no_stop: False
    show ?thesis
    proof (cases c)
      case None
      with no_stop Cons k show ?thesis by auto
    next
      case (Some ch)
      with no_stop Cons.prems k have "key_loop d closed wr ks (Suc i) (s @ [ch]) = (r, s')" by simp
      from Cons.IH [OF this] obtain us where
        "s' = (s @ [ch]) @ us" "prefix us (takeWhile (\<lambda>c. c \<noteq> d) (typed ks))" by blast
      with Some no_stop k show ?thesis by (intro exI [of _ "ch # us"]) auto
    qed
  qed
qed

lemma key_loop_detach:
  "\<forall>k \<in> set ks. snd k = None \<Longrightarrow> \<forall>j. \<not> closed j \<Longrightarrow> \<forall>j. wr j = None \<Longrightarrow> d \<in> set (typed ks) \<Longrightarrow>
   key_loop d closed wr ks i s = (Inr (), s @ takeWhile (\<lambda>c. c \<noteq> d) (typed ks))"
proof (induction ks arbitrary: i s)
  case (Cons k ks)
  obtain c where k: "k = (c, None)" using Cons.prems(1) by (cases k) auto
  with Cons show ?case by (cases c) auto
qed simp


text \<open>Only the input side is restored: on a Windows console the output keeps the mode
  \<open>enableVTOutput\<close> gave it when the console has been left.\<close>

lemma console_keeps_vt_mode:
  "case interactive os can_set tty d closed wr stdin c of (r, c') \<Rightarrow>
     con_mode c' = (if os = ''windows'' \<and> can_set then map_option (\<lambda>m. Bit_Operations.or m 4) (con_mode c) else con_mode c)"
  by (cases "key_loop d closed wr stdin 0 (con_sent c)")
    (simp add: interactive_def Let_def enableVTOutput_def enableVTOutput_windows_def split: option.split)

text \<open>With a live connection everything typed up to the detach key reaches the guest and
  the console detaches without an error.\<close>

theorem console_detaches:
  assumes "\<forall>k \<in> set stdin. snd k = None" "\<forall>j. \<not> closed j" "\<forall>j. wr j = None" "d \<in> set (typed stdin)"
  shows "\<exists>c'. interactive os can_set tty d closed wr stdin c = (Inr (), c') \<and>
    con_sent c' = con_sent c @ takeWhile (\<lambda>k. k \<noteq> d) (typed stdin)"
  using key_loop_detach [OF assms] by (simp add: interactive_def Let_def)

theorem console_detaches_witness:
  "\<exists>c'. interactive ''linux'' True True DefaultDetachKey (\<lambda>_. False) (\<lambda>_. None)
     [(Some CHR ''l'', None), (Some CHR ''s'', None), (Some DefaultDetachKey, None), (Some CHR ''x'', None)]
     \<lparr>con_sent = [], con_mirror = False, con_raw = False, con_mode = None\<rparr> = (Inr (), c') \<and> con_sent c' = ''ls''"
  using console_detaches [of "[(Some CHR ''l'', None), (Some CHR ''s'', None), (Some DefaultDetachKey, None), (Some CHR ''x'', None)]"
      "\<lambda>_. False" "\<lambda>_. None" DefaultDetachKey "''linux''" True True "\<lparr>con_sent = [], con_mirror = False, con_raw = False, con_mode = None\<rparr>"]
  by (simp add: DefaultDetachKey_def)

text \<open>The serial log gets every byte read up to and with the read that fails, mirrored or not.\<close>

lemma pump_log_complete:
  "\<forall>r \<in> set rs. snd r = None \<Longrightarrow>
   pump_log (pump_run True mirror (rs @ [(b, Some e)]) i s) = pump_log s @ concat (map fst rs) @ b \<and>
   pump_closed (pump_run True mirror (rs @ [(b, Some e)]) i s)"
proof (induction rs arbitrary: i s)
  case (Cons r rs)
  obtain c where "r = (c, None)" using Cons.prems by (cases r) auto
  with Cons show ?case by (simp add: Let_def)
qed (simp add: Let_def)

end
