(* ===== verification/Qemu_Monitor.thy ===== *)
theory Qemu_Monitor
  imports Qemu_Command Go_Net
begin

text \<open>
  Package \<open>internal/qemu\<close>, \<open>qmp.go\<close>: the monitor client. A connection is what its decoder
  will yield (a finite list of messages or decoding errors, then end of file), what its
  encoder has sent, and the answers of the encoder's writes.
\<close>

section \<open>Messages and the connection\<close>

record qmpResponse =
  q_Return :: string
  q_Error :: "(string \<times> string) option"
  q_Event :: string
  q_QMP :: string

record request =
  rq_execute :: string
  rq_arguments :: "string option"

record QMP =
  q_in :: "qmpResponse result list"
  q_sent :: "request list"
  q_writes :: "error option list"
  q_open :: bool

type_synonym 'a qio = "(QMP, 'a) prog"

definition q_Decode :: "qmpResponse qio" where
  "q_Decode = (\<lambda>q. case q_in q of [] \<Rightarrow> (Inl (Sys EOF), q) | m # ms \<Rightarrow> (m, q\<lparr>q_in := ms\<rparr>))"

definition q_Encode :: "request \<Rightarrow> unit qio" where
  "q_Encode r = (\<lambda>q. case q_writes q of
     Some e # es \<Rightarrow> (Inl e, q\<lparr>q_writes := es\<rparr>)
   | _ \<Rightarrow> (Inr (), q\<lparr>q_sent := q_sent q @ [r], q_writes := tl (q_writes q)\<rparr>))"

section \<open>Commands\<close>

text \<open>The reading loop of \<open>Execute\<close>: events are dropped, the first other message decides.
  The second component is what is left of the stream.\<close>

fun skip_events :: "string \<Rightarrow> qmpResponse result list \<Rightarrow> string result \<times> qmpResponse result list" where
  "skip_events command [] = (Inl (Sys EOF), [])"
| "skip_events command (Inl e # ms) = (Inl e, ms)"
| "skip_events command (Inr resp # ms) =
     (if q_Event resp \<noteq> [] then skip_events command ms
      else (case q_Error resp of
              Some (cls, desc) \<Rightarrow> (Inl (Errorf ''qmp %s: %s'' [command, desc]), ms)
            | None \<Rightarrow> (Inr (q_Return resp), ms)))"

definition read_reply :: "string \<Rightarrow> string qio" where
  "read_reply command q = (case skip_events command (q_in q) of (r, ms) \<Rightarrow> (r, q\<lparr>q_in := ms\<rparr>))"

definition Execute :: "string \<Rightarrow> string option \<Rightarrow> string qio" where
  "Execute command args =
     bind_io (q_Encode \<lparr>rq_execute = command, rq_arguments = args\<rparr>) (\<lambda>_. read_reply command)"

definition negotiate :: "unit qio" where
  "negotiate =
     bind_io (wrap_io ''read QMP greeting: %w'' [] q_Decode) (\<lambda>greet.
     bind_io (wrap_io ''qmp_capabilities: %w'' [] (Execute ''qmp_capabilities'' None)) (\<lambda>_.
     return_io ()))"

definition Powerdown :: "unit qio" where
  "Powerdown = bind_io (Execute ''system_powerdown'' None) (\<lambda>_. return_io ())"

definition QueryStatus :: "(string \<Rightarrow> string result) \<Rightarrow> string qio" where
  "QueryStatus unmarshal_status =
     bind_io (Execute ''query-status'' None) (\<lambda>raw. lift_res (unmarshal_status raw))"

definition q_Close :: "QMP \<Rightarrow> QMP" where
  "q_Close q = q\<lparr>q_open := False\<rparr>"

text \<open>\<open>DialQMP\<close>: attempt \<open>i\<close> to connect answers \<open>dial i\<close>, \<open>now (Suc i)\<close> is the clock
  after it, in milliseconds, \<open>now 0\<close> the clock at the start; an attempt is followed by a sleep of 50 ms. A connection that does not
  negotiate is closed.\<close>

definition DialQMP ::
    "nat \<Rightarrow> (nat \<Rightarrow> QMP result) \<Rightarrow> (nat \<Rightarrow> int) \<Rightarrow> ControlAddr \<Rightarrow> int \<Rightarrow> (QMP result \<times> QMP option) option" where
  "DialQMP fuel dial now addr timeout =
     map_option (\<lambda>r. case wrap_err ''connect QMP %s: %w'' [ctl_Addr addr] r of
         Inl e \<Rightarrow> (Inl e, None)
       | Inr conn \<Rightarrow> (case negotiate conn of
           (Inl e, q) \<Rightarrow> (Inl e, Some (q_Close q))
         | (Inr _, q) \<Rightarrow> (Inr q, Some q)))
     (poll fuel dial (\<lambda>i. now 0 + timeout < now (Suc i)) 0)"

section \<open>Lemmas\<close>

definition is_event :: "qmpResponse result \<Rightarrow> bool" where
  "is_event m \<longleftrightarrow> (\<exists>r. m = Inr r \<and> q_Event r \<noteq> [])"

definition reply_of :: "string \<Rightarrow> qmpResponse result \<Rightarrow> string result" where
  "reply_of command m = bind_res m (\<lambda>resp. case q_Error resp of
     Some (cls, desc) \<Rightarrow> Inl (Errorf ''qmp %s: %s'' [command, desc])
   | None \<Rightarrow> Inr (q_Return resp))"

lemma skip_events_spec:
  "list_all is_event evs \<Longrightarrow> (ms = [] \<or> \<not> is_event (hd ms)) \<Longrightarrow>
   skip_events command (evs @ ms) =
     (case ms of [] \<Rightarrow> (Inl (Sys EOF), []) | m # rest \<Rightarrow> (reply_of command m, rest))"
proof (induction evs)
  case Nil
  show ?case
  proof (cases ms)
    case (Cons m rest)
    with Nil show ?thesis
      by (cases m) (auto simp: reply_of_def is_event_def split: option.split)
  qed simp
next
  case (Cons ev evs)
  then show ?case by (auto simp: is_event_def)
qed

lemma read_reply_spec:
  "q_in q = evs @ ms \<Longrightarrow> list_all is_event evs \<Longrightarrow> (ms = [] \<or> \<not> is_event (hd ms)) \<Longrightarrow>
   read_reply command q =
     (case ms of [] \<Rightarrow> (Inl (Sys EOF), q\<lparr>q_in := []\<rparr>)
      | m # rest \<Rightarrow> (reply_of command m, q\<lparr>q_in := rest\<rparr>))"
  by (simp add: read_reply_def skip_events_spec split: list.split)

text \<open>C27. A command sends exactly one request and its outcome is decided by the first
  message that is not an event, however many events arrive first; the messages after it stay
  unread. When the stream ends first it fails instead of waiting.\<close>

theorem execute_skips_events:
  assumes "q_in q = evs @ ms" "list_all is_event evs" "ms = [] \<or> \<not> is_event (hd ms)"
    "q_writes q = []"
  shows "Execute command args q =
    (case ms of [] \<Rightarrow> Inl (Sys EOF) | m # rest \<Rightarrow> reply_of command m,
     q\<lparr>q_in := (case ms of [] \<Rightarrow> [] | m # rest \<Rightarrow> rest),
       q_sent := q_sent q @ [\<lparr>rq_execute = command, rq_arguments = args\<rparr>]\<rparr>)"
proof -
  let ?q = "q\<lparr>q_sent := q_sent q @ [\<lparr>rq_execute = command, rq_arguments = args\<rparr>], q_writes := tl (q_writes q)\<rparr>"
  have "q_in ?q = evs @ ms" using assms(1) by simp
  from read_reply_spec [OF this assms(2,3)] assms(4) show ?thesis
    by (cases ms) (simp_all add: Execute_def io_simps q_Encode_def)
qed

definition ev0 :: qmpResponse where
  "ev0 = \<lparr>q_Return = [], q_Error = None, q_Event = ''RESUME'', q_QMP = []\<rparr>"
definition ok0 :: qmpResponse where
  "ok0 = \<lparr>q_Return = ''{}'', q_Error = None, q_Event = [], q_QMP = []\<rparr>"
definition conn0 :: QMP where
  "conn0 = \<lparr>q_in = [Inr ok0, Inr ev0, Inr ok0, Inr ev0], q_sent = [], q_writes = [], q_open = True\<rparr>"

theorem execute_skips_events_witness:
  "fst (Execute ''system_powerdown'' None (conn0\<lparr>q_in := [Inr ev0, Inr ev0, Inr ok0]\<rparr>)) = Inr ''{}''"
  using execute_skips_events [of "conn0\<lparr>q_in := [Inr ev0, Inr ev0, Inr ok0]\<rparr>" "[Inr ev0, Inr ev0]" "[Inr ok0]"]
  by (simp add: conn0_def ev0_def ok0_def is_event_def reply_of_def)

lemma Execute_sent:
  assumes "Execute c a q = (Inr x, q')"
  shows "q_sent q' = q_sent q @ [\<lparr>rq_execute = c, rq_arguments = a\<rparr>] \<and> q_open q' = q_open q"
proof -
  obtain q1 where e: "q_Encode \<lparr>rq_execute = c, rq_arguments = a\<rparr> q = (Inr (), q1)"
    and r: "read_reply c q1 = (Inr x, q')"
    using assms by (auto simp: Execute_def bind_io_ok)
  have s: "q_sent q1 = q_sent q @ [\<lparr>rq_execute = c, rq_arguments = a\<rparr>]" "q_open q1 = q_open q"
    using e by (auto simp: q_Encode_def split: list.splits option.splits)
  with r show ?thesis by (auto simp: read_reply_def split: prod.splits)
qed


definition dial0 :: "nat \<Rightarrow> QMP result" where
  "dial0 i = (if i < 3 then Inl (Sys ENOENT) else Inr conn0)"

definition clock0 :: "nat \<Rightarrow> int" where
  "clock0 i = 50 * int i"

lemma dial0_sent: "dial0 i = Inr c \<Longrightarrow> q_sent c = []"
  by (auto simp: dial0_def conn0_def split: if_splits)


end
