(* ===== verification/VM_Lifecycle.thy ===== *)
theory VM_Lifecycle
  imports VM_Lock VM_Disk VM_Seed VM_Ready Qemu_Monitor
begin

text \<open>
  Package \<open>internal/vm\<close>, \<open>lifecycle.go\<close>: \<open>Run\<close> boots a VM and supervises it until the guest
  stops or the user interrupts. What the launcher does not decide (whether QEMU starts and
  survives, when sockets accept, which event ends the wait, whether the guest reacts to the
  power button) is the environment, a record of parameters; the state is the host and the
  trace of what the launcher did to the VM. Deferred calls are \<open>defer_io\<close>, in Go's order.
  The launcher being killed itself is not modelled.
\<close>

section \<open>Options, environment and trace\<close>

record Options =
  o_State :: State
  o_QEMUBin :: string
  o_QEMUImg :: string
  o_Spec :: Spec
  o_AccelCandidates :: "string list"
  o_BaseRootfs :: string
  o_Persist :: bool
  o_Reset :: bool
  o_Seed :: "SeedParams option"
  o_SeedImage :: string
  o_Readiness :: "Probe list"
  o_ReadinessTimeout :: int
  o_Services :: "string list"
  o_Console :: bool
  o_DetachKey :: char
  o_ShutdownTimeout :: int

text \<open>\<open>terminate\<close> of \<open>proc_unix.go\<close> and \<open>proc_windows.go\<close>: a signal, or the hard kill where there
  are no signals.\<close>

datatype signal = SIGTERM | SIGKILL

definition terminate_with :: "string \<Rightarrow> signal" where
  "terminate_with os = (if os = ''windows'' then SIGKILL else SIGTERM)"

text \<open>What ends the wait of \<open>supervise\<close>: the process (with its exit error), a signal, the
  context.\<close>

datatype wait_event = GuestExit "error option" | Signalled | Cancelled

record env =
  env_img :: command
  env_dfs :: diskfs
  env_order :: "(string \<times> string) list \<Rightarrow> (string \<times> string) list"
  env_exec :: "string \<Rightarrow> string list \<Rightarrow> int result"
  env_grace :: "string list \<Rightarrow> error option option"
  env_listen :: "string list \<Rightarrow> string result"
  env_serial :: "nat \<Rightarrow> unit result"
  env_qmp :: "nat \<Rightarrow> QMP result"
  env_clock :: "nat \<Rightarrow> int"
  env_up :: "nat \<Rightarrow> string \<Rightarrow> bool"
  env_cancelled :: "nat \<Rightarrow> bool"
  env_tick :: "nat \<Rightarrow> int"
  env_conmode :: "32 word option"
  env_conset :: bool
  env_tty :: bool
  env_closed :: "nat \<Rightarrow> bool"
  env_conwrite :: "nat \<Rightarrow> error option"
  env_stdin :: "(char option \<times> error option) list"
  env_event :: wait_event
  env_powers_off :: bool
  env_terminates :: bool

datatype event =
  Started string int | Died string int | Reap int
| ConsoleSession console | WaitedFor "Probe list" bool | ServicesShown "string list" | Running
| PowerButton "unit result" | Terminate signal int | Kill int
| Warned string | Informed string
| NativeStarted | NativeStopped | NativeFailed | StopRequested "unit result" | StopForced "unit result"

record vmrun =
  vm_os :: os
  vm_trace :: "event list"

type_synonym 'a vmio = "(vmrun, 'a) prog"

definition on_os :: "'a io \<Rightarrow> 'a vmio" where
  "on_os m = (\<lambda>s. case m (vm_os s) of (r, w) \<Rightarrow> (r, s\<lparr>vm_os := w\<rparr>))"

lemma deferred_on_os: "defer_io (on_os c) m s = (r, s') \<Longrightarrow> \<exists>w. vm_os s' = snd (c w)"
  by (auto simp: defer_io_def on_os_def split: prod.splits) (metis snd_conv)

definition emit :: "event \<Rightarrow> unit vmio" where
  "emit e = (\<lambda>s. (Inr (), s\<lparr>vm_trace := vm_trace s @ [e]\<rparr>))"

text \<open>A child process appears, and is gone once its \<open>done\<close> channel delivered.\<close>

definition spawn_proc :: "int \<Rightarrow> unit vmio" where
  "spawn_proc pid = on_os (\<lambda>w. (Inr (), w\<lparr>procs := pid # procs w\<rparr>))"

definition reap :: "int \<Rightarrow> unit vmio" where
  "reap pid = bind_io (on_os (\<lambda>w. (Inr (), w\<lparr>procs := removeAll pid (procs w)\<rparr>))) (\<lambda>_. emit (Reap pid))"

section \<open>Starting QEMU\<close>

definition start_qemu :: "env \<Rightarrow> string \<Rightarrow> string list \<Rightarrow> string \<Rightarrow> int vmio" where
  "start_qemu env bin args logPath =
     bind_io (on_os (os_create logPath)) (\<lambda>_.
     (case env_exec env bin args of
        Inl e \<Rightarrow> catch_io (on_os (os_close logPath)) (\<lambda>_. fail_io (Wrapf ''start qemu: %w'' [] e))
      | Inr pid \<Rightarrow> bind_io (spawn_proc pid) (\<lambda>_. return_io pid)))"

definition startup_error :: "Options \<Rightarrow> string \<Rightarrow> error option \<Rightarrow> error" where
  "startup_error opts accel werr =
     (case werr of
        None \<Rightarrow> Errorf ''qemu exited during startup with accel=%s: %v (see %s)'' [accel, QEMULog (o_State opts)]
      | Some e \<Rightarrow> Wrapf ''qemu exited during startup with accel=%s: %v (see %s)'' [accel, QEMULog (o_State opts)] e)"

text \<open>The candidates in turn; \<open>lastErr\<close> is the error of the last one that failed.\<close>

fun start_loop :: "env \<Rightarrow> Options \<Rightarrow> string list \<Rightarrow> error option \<Rightarrow> (int \<times> string) vmio" where
  "start_loop env opts [] lastErr =
     fail_io (case lastErr of None \<Rightarrow> Errorf ''no accelerator candidates'' [] | Some e \<Rightarrow> e)"
| "start_loop env opts (accel # cands) lastErr =
     (case BuildArgs ((o_Spec opts)\<lparr>sp_Accel := accel\<rparr>) of
        Inl e \<Rightarrow> fail_io e
      | Inr args \<Rightarrow>
          catch_io (start_qemu env (o_QEMUBin opts) args (QEMULog (o_State opts))) (\<lambda>r. (case r of
            Inl e \<Rightarrow> start_loop env opts cands (Some e)
          | Inr pid \<Rightarrow>
              bind_io (emit (Started accel pid)) (\<lambda>_.
              (case env_grace env args of
                 Some werr \<Rightarrow>
                   bind_io (reap pid) (\<lambda>_.
                   bind_io (emit (Died accel pid)) (\<lambda>_.
                   start_loop env opts cands (Some (startup_error opts accel werr))))
               | None \<Rightarrow> return_io (pid, accel))))))"

definition startWithAccelFallback :: "env \<Rightarrow> Options \<Rightarrow> (int \<times> string) vmio" where
  "startWithAccelFallback env opts =
     (let cands = (if o_AccelCandidates opts = [] then [sp_Accel (o_Spec opts)] else o_AccelCandidates opts)
      in start_loop env opts cands None)"

section \<open>Supervision and shutdown\<close>

definition terminate :: "int \<Rightarrow> unit vmio" where
  "terminate pid = (\<lambda>s. emit (Terminate (terminate_with (goos (vm_os s))) pid) s)"

text \<open>\<open>shutdown\<close>: the power button when there is a monitor, then, each after its timeout,
  terminate and kill; every path waits for the process.\<close>

definition shutdown :: "env \<Rightarrow> int \<Rightarrow> QMP option \<Rightarrow> unit vmio" where
  "shutdown env pid qmp =
     bind_io (case qmp of None \<Rightarrow> return_io () | Some q \<Rightarrow> emit (PowerButton (fst (Powerdown q)))) (\<lambda>_.
     if env_powers_off env then reap pid
     else bind_io (terminate pid) (\<lambda>_.
       if env_terminates env then reap pid
       else bind_io (emit (Kill pid)) (\<lambda>_. reap pid)))"

definition readiness_expired :: "env \<Rightarrow> Options \<Rightarrow> nat \<Rightarrow> bool" where
  "readiness_expired env opts t \<longleftrightarrow> env_cancelled env t \<or> o_ReadinessTimeout opts \<le> env_tick env t"

definition readiness_fuel :: "Options \<Rightarrow> nat" where
  "readiness_fuel opts = nat (o_ReadinessTimeout opts div 500000000) + 2"

definition wait_ready :: "env \<Rightarrow> Options \<Rightarrow> unit vmio" where
  "wait_ready env opts =
     (case WaitTCP (readiness_fuel opts) (readiness_expired env opts) (env_up env) (o_Readiness opts) 0 of
        Some (Inr _, t, ws) \<Rightarrow> emit (WaitedFor ws True)
      | Some (Inl e, t, ws) \<Rightarrow> emit (WaitedFor ws False)
      | None \<Rightarrow> emit (WaitedFor [] False))"

definition printServices :: "Options \<Rightarrow> unit vmio" where
  "printServices opts = (if o_Services opts = [] then return_io () else emit (ServicesShown (o_Services opts)))"

definition console_session :: "env \<Rightarrow> Options \<Rightarrow> unit vmio" where
  "console_session env opts =
     (\<lambda>s. emit (ConsoleSession (snd (interactive (goos (vm_os s)) (env_conset env) (env_tty env)
       (o_DetachKey opts) (env_closed env) (env_conwrite env) (env_stdin env)
       \<lparr>con_sent = [], con_mirror = False, con_raw = False, con_mode = env_conmode env\<rparr>))) s)"

definition supervise :: "env \<Rightarrow> Options \<Rightarrow> int \<Rightarrow> bool \<Rightarrow> QMP option \<Rightarrow> unit vmio" where
  "supervise env opts pid serial qmp =
     bind_io
       (if o_Console opts then (if serial then console_session env opts else return_io ())
        else bind_io (if o_Readiness opts \<noteq> [] then wait_ready env opts else return_io ()) (\<lambda>_.
             bind_io (printServices opts) (\<lambda>_. emit Running)))
     (\<lambda>_. (case env_event env of
        GuestExit werr \<Rightarrow> bind_io (reap pid) (\<lambda>_. (case werr of
            Some e \<Rightarrow> fail_io (Wrapf ''qemu exited: %w (see %s)'' [QEMULog (o_State opts)] e)
          | None \<Rightarrow> return_io ()))
      | Signalled \<Rightarrow> shutdown env pid qmp
      | Cancelled \<Rightarrow> shutdown env pid qmp))"

section \<open>Run\<close>

text \<open>Dialling retries for ten seconds; an exhausted deadline or a failed negotiation leaves
  the VM without a console or monitor and is not an error.\<close>

definition dial_fuel :: nat where
  "dial_fuel = 202"

definition connect_serial :: "env \<Rightarrow> bool" where
  "connect_serial env = (case dialSerial dial_fuel (env_serial env) (env_clock env) 10000 of
     Some (Inr _) \<Rightarrow> True | _ \<Rightarrow> False)"

definition connect_qmp :: "env \<Rightarrow> ControlAddr \<Rightarrow> QMP option" where
  "connect_qmp env addr = (case DialQMP dial_fuel (env_qmp env) (env_clock env) addr 10000 of
     Some (Inr q, _) \<Rightarrow> Some q | _ \<Rightarrow> None)"

definition ignore :: "'a vmio \<Rightarrow> unit vmio" where
  "ignore m = catch_io m (\<lambda>_. return_io ())"

definition remove_stale :: "ControlAddr \<Rightarrow> unit vmio" where
  "remove_stale c = (if ctl_Net c = ''unix'' then ignore (on_os (os_remove (ctl_Addr c))) else return_io ())"

definition seed_path :: "env \<Rightarrow> Options \<Rightarrow> string vmio" where
  "seed_path env opts =
     (if o_SeedImage opts \<noteq> [] then return_io (o_SeedImage opts)
      else (case o_Seed opts of
        None \<Rightarrow> return_io []
      | Some p \<Rightarrow>
          bind_io (wrap_io ''create cloud-init seed: %w'' []
            (on_os (WriteSeed (env_dfs env) (env_order env) (SeedPath (o_State opts)) p))) (\<lambda>_.
          return_io (SeedPath (o_State opts)))))"

text \<open>\<open>accelHint\<close> per target (\<open>accelhint_*.go\<close>), and what \<open>Run\<close> tells the user of the
  accelerator it ended up with (the two pictures are written as their UTF-8 bytes).\<close>

definition accelHint_linux :: string where
  "accelHint_linux =
     ''KVM acceleration was not available; enable it for much better performance:'' @ [CHR 0x0A] @
     ''  - enable CPU virtualization (VT-x/AMD-V) in firmware and ensure /dev/kvm exists'' @ [CHR 0x0A] @
     ''  - if running as a non-root user, add it to the '' @ [CHR 0x27] @ ''kvm'' @ [CHR 0x27] @ '' group:'' @ [CHR 0x0A] @
     ''      sudo usermod -aG kvm '' @ [CHR 0x22] @ ''$USER'' @ [CHR 0x22] @ ''   (then log out and back in)''"

definition accelHint_darwin :: string where
  "accelHint_darwin = []"

definition accelHint_windows :: string where
  "accelHint_windows =
     ''WHPX acceleration was not available; enable the Windows Hypervisor Platform (admin):'' @ [CHR 0x0A] @
     ''  dism /Online /Enable-Feature /FeatureName:HypervisorPlatform /All   (then reboot)'' @ [CHR 0x0A] @
     ''and confirm CPU virtualization (VT-x/AMD-V) is enabled in firmware.''"

definition accelHint :: "string \<Rightarrow> string" where
  "accelHint os = (if os = ''linux'' then accelHint_linux
     else if os = ''windows'' then accelHint_windows else accelHint_darwin)"

definition tcg_warning :: string where
  "tcg_warning = [CHR 0xF0, CHR 0x9F, CHR 0x90, CHR 0xA2] @
     '' Using software emulation (TCG). Performance may be slower.''"

definition accel_info :: "string \<Rightarrow> string" where
  "accel_info accel = [CHR 0xE2, CHR 0x9A, CHR 0xA1] @ '' Using QEMU accelerator: '' @ accel"

definition report_accel :: "string \<Rightarrow> unit vmio" where
  "report_accel accel = (\<lambda>s.
     (if accel = ''tcg''
      then bind_io (emit (Warned tcg_warning)) (\<lambda>_.
           let h = accelHint (goos (vm_os s)) in if h \<noteq> [] then emit (Warned h) else return_io ())
      else emit (Informed (accel_info accel))) s)"

text \<open>After the start: pid file, serial log, console and monitor, supervision.\<close>

definition run_started :: "env \<Rightarrow> Options \<Rightarrow> ControlAddr \<Rightarrow> int \<Rightarrow> string \<Rightarrow> unit vmio" where
  "run_started env opts qmpCtl pid accel =
     bind_io (ignore (on_os (WritePID (o_State opts) pid))) (\<lambda>_.
     defer_io (on_os (ClearPID (o_State opts)))
       (bind_io (report_accel accel) (\<lambda>_.
        bind_io (ignore (on_os (os_create (SerialLog (o_State opts))))) (\<lambda>_.
        supervise env opts pid (connect_serial env) (connect_qmp env qmpCtl)))))"

text \<open>\<open>ControlChannels\<close> of the host: sockets in the state directory, or two fresh ports.\<close>

definition control_channels :: "env \<Rightarrow> State \<Rightarrow> (ControlAddr \<times> ControlAddr) vmio" where
  "control_channels env st = (\<lambda>s.
     (if goos (vm_os s) = ''windows'' then ControlChannels_windows (env_listen env)
      else Inr (ControlChannels st), s))"

text \<open>The specification as \<open>Run\<close> completes it.\<close>

definition run_spec :: "Options \<Rightarrow> string \<Rightarrow> ControlAddr \<Rightarrow> ControlAddr \<Rightarrow> Spec" where
  "run_spec opts seedPath serialCtl qmpCtl =
     (o_Spec opts)\<lparr>sp_QEMUBin := o_QEMUBin opts, sp_DrivePath := OverlayPath (o_State opts),
       sp_SeedPath := seedPath, sp_SerialControl := serialCtl, sp_QMPControl := qmpCtl\<rparr>"

definition run_disk_ready :: "env \<Rightarrow> Options \<Rightarrow> unit vmio" where
  "run_disk_ready env opts =
     bind_io (seed_path env opts) (\<lambda>seedPath.
     bind_io (control_channels env (o_State opts)) (\<lambda>(qmpCtl, serialCtl).
     bind_io (remove_stale qmpCtl) (\<lambda>_.
     bind_io (remove_stale serialCtl) (\<lambda>_.
     let opts' = opts\<lparr>o_Spec := run_spec opts seedPath serialCtl qmpCtl\<rparr>
     in bind_io (startWithAccelFallback env opts') (\<lambda>(pid, accel).
        run_started env opts' qmpCtl pid accel)))))"

definition run_defaults :: "Options \<Rightarrow> Options" where
  "run_defaults opts0 =
     (let opts1 = (if o_DetachKey opts0 = CHR 0x00 then opts0\<lparr>o_DetachKey := DefaultDetachKey\<rparr> else opts0)
      in if o_ShutdownTimeout opts1 = 0 then opts1\<lparr>o_ShutdownTimeout := 30000000000\<rparr> else opts1)"

definition Run :: "env \<Rightarrow> Options \<Rightarrow> unit vmio" where
  "Run env opts0 =
     (let opts = run_defaults opts0; overlay = OverlayPath (o_State opts)
      in bind_io (on_os (prepareDisk (env_img env) (o_QEMUImg opts) (o_BaseRootfs opts)
                   (o_Persist opts) (o_Reset opts) overlay)) (\<lambda>_.
         if o_Persist opts then run_disk_ready env opts
         else defer_io (on_os (RemoveOverlay overlay)) (run_disk_ready env opts)))"

lemma report_accel_run: "\<exists>es. report_accel accel s = (Inr (), s\<lparr>vm_trace := vm_trace s @ es\<rparr>)"
proof (cases "accel = ''tcg''")
  case True
  then show ?thesis
    by (intro exI [of _ "Warned tcg_warning # (if accelHint (goos (vm_os s)) \<noteq> []
        then [Warned (accelHint (goos (vm_os s)))] else [])"])
      (simp add: report_accel_def io_simps emit_def Let_def)
next
  case False
  then show ?thesis
    by (intro exI [of _ "[Informed (accel_info accel)]"]) (simp add: report_accel_def io_simps emit_def)
qed

lemma run_defaults_sel [simp]:
  "o_State (run_defaults opts) = o_State opts" "o_QEMUImg (run_defaults opts) = o_QEMUImg opts"
  "o_BaseRootfs (run_defaults opts) = o_BaseRootfs opts" "o_Persist (run_defaults opts) = o_Persist opts"
  "o_Reset (run_defaults opts) = o_Reset opts"
  by (simp_all add: run_defaults_def Let_def)

section \<open>Children\<close>

text \<open>The external programs leave no process of their own behind.\<close>

definition env_quiet :: "env \<Rightarrow> bool" where
  "env_quiet env \<longleftrightarrow>
     (\<forall>b a w. procs (snd (env_img env b a w)) = procs w) \<and>
     (\<forall>p n w. procs (snd (dfs_Create (env_dfs env) p n w)) = procs w) \<and>
     (\<forall>p l w. procs (snd (dfs_Format (env_dfs env) p l w)) = procs w) \<and>
     (\<forall>p n w. procs (snd (dfs_OpenFile (env_dfs env) p n w)) = procs w) \<and>
     (\<forall>p n c w. procs (snd (dfs_Write (env_dfs env) p n c w)) = procs w)"

definition procs_in :: "int set \<Rightarrow> os \<Rightarrow> bool" where
  "procs_in P w \<longleftrightarrow> set (procs w) \<subseteq> P"

definition vm_procs_in :: "int set \<Rightarrow> vmrun \<Rightarrow> bool" where
  "vm_procs_in P s \<longleftrightarrow> procs_in P (vm_os s)"

lemma keeps_procs_frame: "(\<And>w r w'. m w = (r, w') \<Longrightarrow> \<exists>S. frame w S w') \<Longrightarrow> keeps (procs_in P) m"
  by (rule keepsI) (metis frame_def procs_in_def prod.collapse)

lemma keeps_procs_calls [keep_intros]:
  "keeps (procs_in P) (os_stat p)" "keeps (procs_in P) (os_read p)" "keeps (procs_in P) (os_remove p)"
  "keeps (procs_in P) (os_create p)" "keeps (procs_in P) (os_close p)" "keeps (procs_in P) (os_write_file p d)"
  by (rule keeps_procs_frame; blast dest: os_stat_frame os_read_frame os_remove_frame os_create_frame
      os_close_frame os_write_file_frame)+

lemma keeps_on_os [keep_intros]: "keeps (procs_in P) m \<Longrightarrow> keeps (vm_procs_in P) (on_os m)"
  by (auto simp: keeps_def vm_procs_in_def on_os_def split: prod.split)

lemma keeps_emit [keep_intros]: "keeps (vm_procs_in P) (emit e)"
  by (simp add: keeps_def vm_procs_in_def emit_def)

lemma keeps_ignore [keep_intros]: "keeps (vm_procs_in P) m \<Longrightarrow> keeps (vm_procs_in P) (ignore m)"
  unfolding ignore_def by (intro keep_intros)

lemma keeps_prepareDisk:
  assumes "env_quiet env"
  shows "keeps (procs_in P) (prepareDisk (env_img env) img base pst rst ov)"
proof -
  have "keeps (procs_in P) (run_qemu_img (env_img env) img args)" for args
    using assms by (auto simp: keeps_def run_qemu_img_def env_quiet_def procs_in_def
        split: prod.splits option.splits) (metis snd_conv subsetD)+
  then show ?thesis
    unfolding prepareDisk_def CreateOverlay_def RemoveOverlay_def diskFormat_def
    by (intro keep_intros)
qed

lemma keeps_RemoveOverlay: "keeps (procs_in P) (RemoveOverlay ov)"
  unfolding RemoveOverlay_def by (intro keep_intros)

lemma keeps_dfs:
  assumes "env_quiet env"
  shows "keeps (procs_in P) (WriteSeed (env_dfs env) ord p sp)"
proof -
  have d: "keeps (procs_in P) (dfs_Create (env_dfs env) p n)" "keeps (procs_in P) (dfs_Format (env_dfs env) p l)"
    "keeps (procs_in P) (dfs_OpenFile (env_dfs env) p l)" "keeps (procs_in P) (dfs_Write (env_dfs env) p l c)"
    for p n l c using assms by (simp_all add: keeps_def env_quiet_def procs_in_def)
  have wf: "keeps (procs_in P) (writeFSFile (env_dfs env) p l c)" for l c
    unfolding writeFSFile_def by (intro keep_intros d)
  have "keeps (procs_in P) (write_files (env_dfs env) p fs)" for fs
  proof (induction fs)
    case (Cons f fs)
    then show ?case by (cases f) (simp add: keep_intros wf)
  qed (simp add: keeps_def)
  then show ?thesis unfolding WriteSeed_def Let_def by (intro keep_intros d)
qed

lemma procs_reap: "procs_in (insert pid P) w \<Longrightarrow> procs_in P (w\<lparr>procs := removeAll pid (procs w)\<rparr>)"
  by (auto simp: procs_in_def)

lemma reap_run: "reap pid s = (Inr (), s\<lparr>vm_os := (vm_os s)\<lparr>procs := removeAll pid (procs (vm_os s))\<rparr>,
    vm_trace := vm_trace s @ [Reap pid]\<rparr>)"
  by (simp add: reap_def io_simps on_os_def emit_def)

lemma reap_procs: "vm_procs_in (insert pid P) s \<Longrightarrow> vm_procs_in P (snd (reap pid s))"
  by (simp add: reap_run vm_procs_in_def procs_reap)

lemma shutdown_run:
  "shutdown env pid qmp s = (Inr (), s\<lparr>vm_os := (vm_os s)\<lparr>procs := removeAll pid (procs (vm_os s))\<rparr>,
     vm_trace := vm_trace s @ (case qmp of None \<Rightarrow> [] | Some q \<Rightarrow> [PowerButton (fst (Powerdown q))]) @
       (if env_powers_off env then []
        else Terminate (terminate_with (goos (vm_os s))) pid # (if env_terminates env then [] else [Kill pid])) @
       [Reap pid]\<rparr>)"
  by (simp add: shutdown_def terminate_def io_simps emit_def reap_run split: option.split)

lemma supervise_procs:
  assumes "vm_procs_in (insert pid P) s"
  shows "vm_procs_in P (snd (supervise env opts pid serial qmp s))"
proof -
  let ?pre = "if o_Console opts then (if serial then console_session env opts else return_io ())
        else bind_io (if o_Readiness opts \<noteq> [] then wait_ready env opts else return_io ()) (\<lambda>_.
             bind_io (printServices opts) (\<lambda>_. emit Running))"
  have w: "\<exists>e. wait_ready env opts s = emit e s" for s
    by (auto simp: wait_ready_def split: option.split prod.split sum.split)
  have pre: "\<exists>s1. ?pre s = (Inr (), s1) \<and> vm_os s1 = vm_os s"
    using w [of s] by (auto simp: io_simps printServices_def console_session_def emit_def)
  then obtain s1 where s1: "?pre s = (Inr (), s1)" "vm_procs_in (insert pid P) s1"
    using assms by (auto simp: vm_procs_in_def)
  let ?post = "case env_event env of
        GuestExit werr \<Rightarrow> bind_io (reap pid) (\<lambda>_. (case werr of
            Some e \<Rightarrow> fail_io (Wrapf ''qemu exited: %w (see %s)'' [QEMULog (o_State opts)] e)
          | None \<Rightarrow> return_io ()))
      | Signalled \<Rightarrow> shutdown env pid qmp
      | Cancelled \<Rightarrow> shutdown env pid qmp"
  have run: "supervise env opts pid serial qmp s = ?post s1"
    unfolding supervise_def bind_io_apply [of ?pre] s1(1) by simp
  have gone: "vm_procs_in P (snd (shutdown env pid qmp s1))"
    using procs_reap s1(2) by (simp add: shutdown_run vm_procs_in_def)
  have "vm_procs_in P (snd (?post s1))"
    using gone reap_procs [OF s1(2)]
    by (cases "env_event env") (auto simp: io_simps reap_run split: option.split)
  with run show ?thesis by simp
qed

lemma start_qemu_procs:
  assumes "start_qemu env bin args log s = (r, s')" "vm_procs_in P s"
  shows "(\<forall>e. r = Inl e \<longrightarrow> vm_procs_in P s') \<and> (\<forall>pid. r = Inr pid \<longrightarrow> vm_procs_in (insert pid P) s')"
proof -
  obtain r1 s1 where c: "on_os (os_create log) s = (r1, s1)" by (cases "on_os (os_create log) s")
  have k: "keeps (vm_procs_in P) (on_os (os_create log))" "keeps (vm_procs_in P) (on_os (os_close log))"
    by (intro keep_intros)+
  have p1: "vm_procs_in P s1" by (rule keeps_run [OF k(1) c assms(2)])
  show ?thesis
  proof (cases r1)
    case (Inl e)
    with assms(1) c p1 show ?thesis by (auto simp: start_qemu_def io_simps)
  next
    case (Inr u)
    show ?thesis
    proof (cases "env_exec env bin args")
      case (Inl e)
      with \<open>r1 = Inr u\<close> assms(1) c p1 keepsD [OF k(2) p1] show ?thesis
        by (cases "on_os (os_close log) s1") (auto simp: start_qemu_def io_simps)
    next
      case pid: (Inr pid)
      with Inr assms(1) c p1 show ?thesis
        by (auto simp: start_qemu_def io_simps spawn_proc_def on_os_def vm_procs_in_def procs_in_def)
    qed
  qed
qed

lemma start_loop_procs:
  "start_loop env opts cands err s = (r, s') \<Longrightarrow> vm_procs_in P s \<Longrightarrow>
   (\<forall>e. r = Inl e \<longrightarrow> vm_procs_in P s') \<and> (\<forall>pid a. r = Inr (pid, a) \<longrightarrow> vm_procs_in (insert pid P) s')"
proof (induction cands arbitrary: err s)
  case (Cons accel cands)
  show ?case
  proof (cases "BuildArgs ((o_Spec opts)\<lparr>sp_Accel := accel\<rparr>)")
    case (Inl e)
    with Cons.prems show ?thesis by auto
  next
    case args: (Inr args)
    obtain r1 s1 where st: "start_qemu env (o_QEMUBin opts) args (QEMULog (o_State opts)) s = (r1, s1)"
      by (cases "start_qemu env (o_QEMUBin opts) args (QEMULog (o_State opts)) s")
    note p1 = start_qemu_procs [OF st Cons.prems(2)]
    show ?thesis
    proof (cases r1)
      case (Inl e)
      with Cons.prems args st have "start_loop env opts cands (Some e) s1 = (r, s')" by (simp add: io_simps)
      from Cons.IH [OF this] p1 Inl show ?thesis by simp
    next
      case (Inr pid)
      have p: "vm_procs_in (insert pid P) s1" using p1 Inr by simp
      show ?thesis
      proof (cases "env_grace env args")
        case None
        with Cons.prems args st Inr p show ?thesis
          by (auto simp: io_simps emit_def vm_procs_in_def)
      next
        case (Some werr)
        let ?s = "snd (emit (Died accel pid) (snd (reap pid (snd (emit (Started accel pid) s1)))))"
        have e: "vm_procs_in (insert pid P) (snd (emit (Started accel pid) s1))"
          using p by (simp add: emit_def vm_procs_in_def)
        have "vm_procs_in P ?s" using reap_procs [OF e] by (simp add: emit_def vm_procs_in_def)
        moreover have "start_loop env opts cands (Some (startup_error opts accel werr)) ?s = (r, s')"
          using Cons.prems args st Inr Some by (simp add: io_simps emit_def reap_run)
        ultimately show ?thesis using Cons.IH by blast
      qed
    qed
  qed
qed auto

text \<open>A started VM is gone when its run ends, and a start that failed left nothing.\<close>

lemma started_procs:
  "keeps (vm_procs_in P) (\<lambda>s. case startWithAccelFallback env opts s of
     (Inl e, s1) \<Rightarrow> (Inl e, s1) | (Inr (pid, a), s1) \<Rightarrow> run_started env opts ctl pid a s1)"
proof (rule keepsI)
  fix s assume p: "vm_procs_in P s"
  obtain r1 s1 where st: "startWithAccelFallback env opts s = (r1, s1)"
    by (cases "startWithAccelFallback env opts s")
  note q = start_loop_procs [OF st [unfolded startWithAccelFallback_def Let_def] p]
  have "vm_procs_in P (snd (run_started env opts ctl pid a s1))" if "r1 = Inr (pid, a)" for pid a
  proof -
    have p1: "vm_procs_in (insert pid P) s1" using q that by simp
    have k: "keeps (vm_procs_in (insert pid P)) (ignore (on_os (WritePID (o_State opts) pid)))"
      "keeps (vm_procs_in (insert pid P)) (ignore (on_os (os_create (SerialLog (o_State opts)))))"
      "keeps (vm_procs_in P) (on_os (ClearPID (o_State opts)))"
      unfolding WritePID_def ClearPID_def by (intro keep_intros)+
    obtain s2 where w: "ignore (on_os (WritePID (o_State opts) pid)) s1 = (Inr (), s2)"
      by (cases "on_os (WritePID (o_State opts) pid) s1") (simp add: ignore_def io_simps)
    obtain es where a: "report_accel a s2 = (Inr (), s2\<lparr>vm_trace := vm_trace s2 @ es\<rparr>)"
      using report_accel_run by blast
    let ?s2 = "s2\<lparr>vm_trace := vm_trace s2 @ es\<rparr>"
    obtain s3 where c: "ignore (on_os (os_create (SerialLog (o_State opts)))) ?s2 = (Inr (), s3)"
      by (cases "on_os (os_create (SerialLog (o_State opts))) ?s2") (simp add: ignore_def io_simps)
    have p3: "vm_procs_in (insert pid P) s3"
      using keeps_run [OF k(2) c] keeps_run [OF k(1) w p1] by (simp add: vm_procs_in_def)
    let ?sv = "supervise env opts pid (connect_serial env) (connect_qmp env ctl) s3"
    have "vm_procs_in P (snd ?sv)" by (rule supervise_procs [OF p3])
    then have "vm_procs_in P (snd (on_os (ClearPID (o_State opts)) (snd ?sv)))" by (rule keepsD [OF k(3)])
    then show ?thesis by (cases ?sv) (simp add: run_started_def io_simps w a c)
  qed
  with st q show "vm_procs_in P (snd (case startWithAccelFallback env opts s of
    (Inl e, s1) \<Rightarrow> (Inl e, s1) | (Inr (pid, a), s1) \<Rightarrow> run_started env opts ctl pid a s1))"
    by (auto split: sum.split prod.split)
qed

lemma Run_keeps_procs:
  assumes "env_quiet env"
  shows "keeps (vm_procs_in P) (Run env opts)"
proof -
  have bind: "bind_io (startWithAccelFallback env opts) (\<lambda>(pid, a). run_started env opts ctl pid a) =
    (\<lambda>s. case startWithAccelFallback env opts s of
      (Inl e, s1) \<Rightarrow> (Inl e, s1) | (Inr (pid, a), s1) \<Rightarrow> run_started env opts ctl pid a s1)" for opts ctl
    by (simp add: bind_io_def fun_eq_iff split: prod.split sum.split)
  have sp: "keeps (vm_procs_in P) (seed_path env opts)" for opts
    unfolding seed_path_def by (intro keep_intros keeps_dfs assms)
  have rs: "keeps (vm_procs_in P) (remove_stale c)" for c
    unfolding remove_stale_def by (intro keep_intros)
  have ctl: "keeps (vm_procs_in P) (control_channels env st)" for st
    by (simp add: keeps_def control_channels_def)
  have disk: "keeps (vm_procs_in P) (run_disk_ready env opts)" for opts
    unfolding run_disk_ready_def Let_def bind by (intro keep_intros sp rs ctl started_procs)
  show ?thesis
    unfolding Run_def Let_def
    by (intro keep_intros disk keeps_prepareDisk keeps_RemoveOverlay assms)
qed

text \<open>No QEMU process outlives \<open>Run\<close>: whatever fails (disk, seed, start, sockets), whatever
  the guest or the user does, and whatever I/O faults occur, when \<open>Run\<close> returns the launcher
  has no child that was not there before.\<close>

theorem run_leaves_no_child:
  assumes "env_quiet env" "Run env opts s = (r, s')"
  shows "set (procs (vm_os s')) \<subseteq> set (procs (vm_os s))"
  using keeps_run [OF Run_keeps_procs [OF assms(1), of "set (procs (vm_os s))"] assms(2)]
  by (simp add: vm_procs_in_def procs_in_def)

section \<open>Stopping\<close>


section \<open>Choosing the accelerator\<close>

definition log_ready :: "Options \<Rightarrow> os \<Rightarrow> bool" where
  "log_ready opts w \<longleftrightarrow> IsAbs (st_Dir (o_State opts)) \<and> faults w = [] \<and>
     node_at (files w) (comps (st_Dir (o_State opts)) @ [''logs'']) = Some Directory \<and>
     node_at (files w) (comps (st_Dir (o_State opts)) @ [''logs'', ''qemu.log'']) \<noteq> Some Directory"

definition survives :: "env \<Rightarrow> Options \<Rightarrow> string \<Rightarrow> bool" where
  "survives env opts a = (case BuildArgs ((o_Spec opts)\<lparr>sp_Accel := a\<rparr>) of
     Inl e \<Rightarrow> False
   | Inr args \<Rightarrow> (case env_exec env (o_QEMUBin opts) args of Inl e \<Rightarrow> False | Inr pid \<Rightarrow> env_grace env args = None))"

lemma create_log:
  assumes "log_ready opts w"
  shows "\<exists>t. os_create (QEMULog (o_State opts)) w = (Inr (), w\<lparr>files := t\<rparr>) \<and> log_ready opts (w\<lparr>files := t\<rparr>)"
proof -
  let ?c = "comps (st_Dir (o_State opts)) @ [''logs'', ''qemu.log'']"
  have b: "butlast ?c = comps (st_Dir (o_State opts)) @ [''logs'']" by (simp add: butlast_append)
  show ?thesis using assms b
    by (intro exI [of _ "fs_put ?c (File []) (files w)"])
      (simp add: log_ready_def os_create_def syscall_none resolve_abs Let_def parent_ok_def)
qed

lemma log_ready_procs: "log_ready opts (w\<lparr>procs := p\<rparr>) = log_ready opts w"
  by (simp add: log_ready_def)

lemma start_qemu_run:
  assumes "log_ready opts (vm_os s)"
  shows "\<exists>s1. log_ready opts (vm_os s1) \<and>
    start_qemu env bin args (QEMULog (o_State opts)) s =
      (case env_exec env bin args of Inl e \<Rightarrow> Inl (Wrapf ''start qemu: %w'' [] e) | Inr pid \<Rightarrow> Inr pid, s1)"
proof -
  obtain t where t: "os_create (QEMULog (o_State opts)) (vm_os s) = (Inr (), (vm_os s)\<lparr>files := t\<rparr>)"
    "log_ready opts ((vm_os s)\<lparr>files := t\<rparr>)" using create_log [OF assms] by blast
  have nf: "faults ((vm_os s)\<lparr>files := t\<rparr>) = []" using t(2) by (simp add: log_ready_def)
  show ?thesis
    using t nf by (cases "env_exec env bin args")
      (auto simp: start_qemu_def io_simps on_os_def spawn_proc_def no_fault_runs log_ready_procs)
qed

lemma start_loop_find:
  assumes "\<And>a. \<exists>args. BuildArgs ((o_Spec opts)\<lparr>sp_Accel := a\<rparr>) = Inr args"
  shows "log_ready opts (vm_os s) \<Longrightarrow> \<exists>s'. (case List.find (survives env opts) cands of
      Some a \<Rightarrow> \<exists>pid. start_loop env opts cands err s = (Inr (pid, a), s')
    | None \<Rightarrow> \<exists>e. start_loop env opts cands err s = (Inl e, s'))"
proof (induction cands arbitrary: err s)
  case (Cons a cands)
  obtain args where args: "BuildArgs ((o_Spec opts)\<lparr>sp_Accel := a\<rparr>) = Inr args" using assms by blast
  obtain s1 where s1: "log_ready opts (vm_os s1)"
    "start_qemu env (o_QEMUBin opts) args (QEMULog (o_State opts)) s =
      (case env_exec env (o_QEMUBin opts) args of Inl e \<Rightarrow> Inl (Wrapf ''start qemu: %w'' [] e) | Inr pid \<Rightarrow> Inr pid, s1)"
    using start_qemu_run [OF Cons.prems] by blast
  show ?case
  proof (cases "env_exec env (o_QEMUBin opts) args")
    case (Inl e)
    then have "\<not> survives env opts a" using args by (simp add: survives_def)
    moreover have eq: "start_loop env opts (a # cands) err s = start_loop env opts cands (Some (Wrapf ''start qemu: %w'' [] e)) s1"
      using Inl s1(2) args by (simp add: io_simps)
    ultimately show ?thesis unfolding eq using Cons.IH [OF s1(1)] by simp
  next
    case (Inr pid)
    show ?thesis
    proof (cases "env_grace env args")
      case None
      then have "survives env opts a" using Inr args by (simp add: survives_def)
      with None Inr s1 args show ?thesis by (auto simp: io_simps emit_def)
    next
      case (Some werr)
      let ?s = "snd (emit (Died a pid) (snd (reap pid (snd (emit (Started a pid) s1)))))"
      have "log_ready opts (vm_os ?s)" using s1(1) by (simp add: emit_def reap_run log_ready_procs)
      moreover have "\<not> survives env opts a" using Inr args Some by (simp add: survives_def)
      moreover have eq: "start_loop env opts (a # cands) err s = start_loop env opts cands (Some (startup_error opts a werr)) ?s"
        using s1(2) args Inr Some by (simp add: io_simps emit_def reap_run)
      ultimately show ?thesis unfolding eq using Cons.IH by simp
    qed
  qed
qed simp

text \<open>C16. Accelerator fallback picks the first candidate, in order of preference, with which
  QEMU starts and survives the grace period; it fails exactly when none does.\<close>

theorem accel_fallback_first:
  assumes "log_ready opts (vm_os s)" "o_AccelCandidates opts \<noteq> []"
    "\<And>a. \<exists>args. BuildArgs ((o_Spec opts)\<lparr>sp_Accel := a\<rparr>) = Inr args"
  shows "case List.find (survives env opts) (o_AccelCandidates opts) of
      Some a \<Rightarrow> \<exists>pid s'. startWithAccelFallback env opts s = (Inr (pid, a), s')
    | None \<Rightarrow> \<exists>e s'. startWithAccelFallback env opts s = (Inl e, s')"
  using start_loop_find [of opts s env "o_AccelCandidates opts" None, OF assms(3,1)] assms(2)
  by (auto simp: startWithAccelFallback_def split: option.split)

section \<open>Ephemeral runs and the pid file\<close>


text \<open>The pid file is cleared on every path of a VM that was started.\<close>

lemma run_started_clears_pid:
  assumes "run_started env opts ctl pid accel s = (r, s')"
  shows "\<exists>w1. vm_os s' = snd (ClearPID (o_State opts) w1)"
proof -
  obtain s2 where w: "ignore (on_os (WritePID (o_State opts) pid)) s = (Inr (), s2)"
    by (cases "on_os (WritePID (o_State opts) pid) s") (simp add: ignore_def io_simps)
  let ?body = "bind_io (report_accel accel) (\<lambda>_. bind_io (ignore (on_os (os_create (SerialLog (o_State opts))))) (\<lambda>_.
        supervise env opts pid (connect_serial env) (connect_qmp env ctl)))"
  obtain y s3 where b: "?body s2 = (y, s3)" by (cases "?body s2")
  have "s' = snd (on_os (ClearPID (o_State opts)) s3)"
    using assms w b by (simp add: run_started_def bind_io_apply [of "ignore _"] defer_io_apply)
  then have "vm_os s' = snd (ClearPID (o_State opts) (vm_os s3))"
    by (simp add: on_os_def split: prod.split)
  then show ?thesis by blast
qed

section \<open>A concrete VM\<close>

definition env0 :: env where
  "env0 = \<lparr>env_img = img0, env_dfs = dfs0, env_order = rev,
    env_exec = (\<lambda>bin args. Inr 300), env_grace = (\<lambda>args. if ''q35,accel=kvm'' \<in> set args then Some None else None),
    env_listen = (\<lambda>_. Inl (Sys EIO)), env_serial = (\<lambda>i. Inl (Sys ENOENT)), env_qmp = (\<lambda>i. Inl (Sys ENOENT)), env_clock = (\<lambda>i. 20000 * int i),
    env_up = (\<lambda>t a. True), env_cancelled = (\<lambda>t. False), env_tick = (\<lambda>t. 500000000 * int t),
    env_conmode = None, env_conset = False, env_tty = True, env_closed = (\<lambda>_. False), env_conwrite = (\<lambda>_. None), env_stdin = [],
    env_event = Signalled, env_powers_off = False, env_terminates = True\<rparr>"

definition opts0 :: Options where
  "opts0 = \<lparr>o_State = state0, o_QEMUBin = ''/q/qemu'', o_QEMUImg = ''/q/qemu-img'',
    o_Spec = spec0, o_AccelCandidates = [''kvm'', ''tcg''], o_BaseRootfs = ''/b'', o_Persist = False,
    o_Reset = False, o_Seed = None, o_SeedImage = [], o_Readiness = probes0, o_ReadinessTimeout = 1000000000,
    o_Services = [], o_Console = False, o_DetachKey = CHR 0x00, o_ShutdownTimeout = 0\<rparr>"

definition vm0 :: vmrun where
  "vm0 = \<lparr>vm_os = host0\<lparr>files := [([''b''], File (qcow2_magic @ ''..'')), ([''s''], Directory),
     ([''s'', ''logs''], Directory)]\<rparr>, vm_trace = []\<rparr>"

lemma run0: "fst (Run env0 opts0 vm0) = Inr () \<and>
   vm_trace (snd (Run env0 opts0 vm0)) =
     [Started ''kvm'' 300, Reap 300, Died ''kvm'' 300, Started ''tcg'' 300,
      Warned tcg_warning, Warned accelHint_linux, WaitedFor probes0 True, Running, Terminate SIGTERM 300, Reap 300]"
  by code_simp

lemma env0_quiet: "env_quiet env0"
  by (simp add: env_quiet_def env0_def img0_def dfs0_def)

theorem run_leaves_no_child_witness:
  "\<exists>s'. Run env0 opts0 vm0 = (Inr (), s') \<and> set (procs (vm_os s')) \<subseteq> {100, 200}"
proof -
  obtain r s' where e: "Run env0 opts0 vm0 = (r, s')" by (cases "Run env0 opts0 vm0")
  have "procs (vm_os vm0) = [100, 200]" by (simp add: vm0_def)
  with run_leaves_no_child [OF env0_quiet e] e run0 show ?thesis by auto
qed

lemma log_ready0: "log_ready opts0 (vm_os vm0)"
  by code_simp

lemma find0: "List.find (survives env0 opts0) (o_AccelCandidates opts0) = Some ''tcg''"
  by code_simp

lemma BuildArgs0: "\<exists>args. BuildArgs ((o_Spec opts0)\<lparr>sp_Accel := a\<rparr>) = Inr args"
  by (cases "archParams ''x86_64'' a") (simp add: BuildArgs_def opts0_def spec0_def Let_def)

theorem accel_fallback_first_witness:
  "\<exists>pid s'. startWithAccelFallback env0 opts0 vm0 = (Inr (pid, ''tcg''), s')"
proof -
  have "o_AccelCandidates opts0 \<noteq> []" by (simp add: opts0_def)
  from accel_fallback_first [where env = env0, OF log_ready0 this BuildArgs0] show ?thesis by (simp add: find0)
qed


end
