(* ===== verification/VZ_Engine.thy ===== *)
theory VZ_Engine
  imports VM_Lifecycle "HOL-Library.Word"
begin

unbundle bit_operations_syntax

text \<open>
  Package \<open>internal/vz\<close>: the Virtualization.framework engine (\<open>vz.go\<close>, \<open>vz_darwin.go\<close>) and
  its networking (\<open>forward_darwin.go\<close>). The framework is a parameter: which of its calls
  fail, and which state changes it reports. The text of the lease file and of the ARP table is
  parsed here as the code parses it; MAC addresses are lists of 8-bit words. The native VM
  leaves its events in the same trace as a QEMU one.
\<close>

section \<open>Hardware addresses\<close>

type_synonym mac = "8 word list"

definition randomMAC :: "(nat \<Rightarrow> 8 word list result) \<Rightarrow> mac result" where
  "randomMAC rand = bind_res (rand 6) (\<lambda>b. Inr (b[0 := (b ! 0 OR 0x02) AND NOT 0x01]))"

text \<open>The loop of \<open>macEqual\<close>; the lengths were compared before.\<close>

fun bytes_match :: "string list \<Rightarrow> mac \<Rightarrow> bool" where
  "bytes_match (p # ps) (m # ms) =
     (case ParseUint16_8 p of None \<Rightarrow> False | Some v \<Rightarrow> v = m \<and> bytes_match ps ms)"
| "bytes_match _ _ = True"

definition macEqual :: "string \<Rightarrow> mac \<Rightarrow> bool" where
  "macEqual hwField mac =
     (let i = IndexByte hwField CHR '','';
          s = (if 0 \<le> i then drop (nat i + 1) hwField else hwField);
          parts = Split s CHR '':''
      in length parts = length mac \<and> bytes_match parts mac)"

section \<open>The guest's address\<close>

record lease_scan =
  ls_ip :: string
  ls_hw :: string
  ls_match :: string

definition lease_line :: "mac \<Rightarrow> string \<Rightarrow> lease_scan \<Rightarrow> lease_scan" where
  "lease_line mac raw s =
     (let line = TrimSpace raw in
      if line = ''{'' then s\<lparr>ls_ip := [], ls_hw := []\<rparr>
      else if HasPrefix line ''ip_address='' then s\<lparr>ls_ip := TrimPrefix line ''ip_address=''\<rparr>
      else if HasPrefix line ''hw_address='' then s\<lparr>ls_hw := TrimPrefix line ''hw_address=''\<rparr>
      else if line = ''}''
      then (if ls_ip s \<noteq> [] \<and> macEqual (ls_hw s) mac then s\<lparr>ls_match := ls_ip s\<rparr> else s)
      else s)"

definition lookupLease :: "string result \<Rightarrow> mac \<Rightarrow> string" where
  "lookupLease file mac = (case file of
     Inl e \<Rightarrow> []
   | Inr text \<Rightarrow> ls_match (fold (lease_line mac) (Split text (CHR 0x0A)) \<lparr>ls_ip = [], ls_hw = [], ls_match = []\<rparr>))"

text \<open>One line of the ARP table: the last parenthesised field and the last field after \<open>at\<close>.\<close>

fun arp_fields :: "string list \<Rightarrow> string \<times> string \<Rightarrow> string \<times> string" where
  "arp_fields [] s = s"
| "arp_fields (f # fs) (ip, hw) =
     (let ip' = (if HasPrefix f ''('' \<and> HasSuffix f '')'' then trim_by (\<lambda>c. c = CHR ''('' \<or> c = CHR '')'') f else ip);
          hw' = (if f = ''at'' \<and> fs \<noteq> [] then hd fs else hw)
      in arp_fields fs (ip', hw'))"

fun arp_lines :: "mac \<Rightarrow> string list \<Rightarrow> string" where
  "arp_lines mac [] = []"
| "arp_lines mac (line # ls) =
     (case arp_fields (Fields line) ([], []) of (ip, hw) \<Rightarrow>
        if ip \<noteq> [] \<and> hw \<noteq> [] \<and> hw \<noteq> ''(incomplete)'' \<and> macEqual hw mac then ip else arp_lines mac ls)"

definition lookupARP :: "string result \<Rightarrow> mac \<Rightarrow> string" where
  "lookupARP out mac = (case out of Inl e \<Rightarrow> [] | Inr text \<Rightarrow> arp_lines mac (Split text (CHR 0x0A)))"

text \<open>\<open>waitGuestIP\<close>: at attempt \<open>i\<close> the table and the lease file hold \<open>arp i\<close> and \<open>lease i\<close>.\<close>

fun waitGuestIP :: "nat \<Rightarrow> (nat \<Rightarrow> string result) \<Rightarrow> (nat \<Rightarrow> string result) \<Rightarrow> (nat \<Rightarrow> bool) \<Rightarrow> (nat \<Rightarrow> bool) \<Rightarrow>
    mac \<Rightarrow> nat \<Rightarrow> string result option" where
  "waitGuestIP 0 arp lease late cancelled mac i = None"
| "waitGuestIP (Suc k) arp lease late cancelled mac i =
     (if lookupARP (arp i) mac \<noteq> [] then Some (Inr (lookupARP (arp i) mac))
      else if lookupLease (lease i) mac \<noteq> [] then Some (Inr (lookupLease (lease i) mac))
      else if late i then Some (Inl (Errorf ''no DHCP lease for %s after %s'' []))
      else if cancelled i then Some (Inl (Sys ECANCELED))
      else waitGuestIP k arp lease late cancelled mac (Suc i))"

definition JoinHostPort :: "string \<Rightarrow> string \<Rightarrow> string" where
  "JoinHostPort host port =
     (if CHR '':'' \<in> set host then ''['' @ host @ '']:'' @ port else host @ '':'' @ port)"

text \<open>The proxies \<open>manageNetwork\<close> starts: listening address and guest address of every
  forward that is not \<open>udp\<close>.\<close>

definition proxy_addrs :: "string \<Rightarrow> PortForward \<Rightarrow> string \<times> string" where
  "proxy_addrs guestIP p =
     (JoinHostPort (if pf_HostIP p = [] then ''127.0.0.1'' else pf_HostIP p) (Itoa (pf_HostPort p)),
      JoinHostPort guestIP (Itoa (pf_GuestPort p)))"

definition vz_proxies :: "string \<Rightarrow> PortForward list \<Rightarrow> (string \<times> string) list" where
  "vz_proxies ip ports = map (proxy_addrs ip) (filter (\<lambda>p. pf_Proto p \<noteq> ''udp'') ports)"

section \<open>The host\<close>

fun major_version :: "int \<Rightarrow> string \<Rightarrow> int" where
  "major_version m [] = m"
| "major_version m (c # cs) =
     (case digit_val c of None \<Rightarrow> m | Some d \<Rightarrow> major_version (wrap64 (m * 10 + int d)) cs)"

text \<open>\<open>Supported\<close>: on macOS with cgo by the product version, \<open>False\<close> in the stub.\<close>

definition Supported_darwin :: "string result \<Rightarrow> bool" where
  "Supported_darwin ver = (case ver of Inl e \<Rightarrow> True | Inr v \<Rightarrow> 12 \<le> major_version 0 v)"

definition memory_bytes :: "int \<Rightarrow> 64 word" where
  "memory_bytes mb = word_of_int mb * 1024 * 1024"

section \<open>The writable disk\<close>

definition copyFile :: "string \<Rightarrow> string \<Rightarrow> unit io" where
  "copyFile src dst =
     bind_io (os_read src) (\<lambda>b.
     bind_io (os_create dst) (\<lambda>_.
     bind_io (io_copy dst (b, None)) (\<lambda>_. os_close dst)))"

definition disk_present :: "node result \<Rightarrow> bool" where
  "disk_present r = (case r of Inr (File b) \<Rightarrow> b \<noteq> [] | Inr Directory \<Rightarrow> True | Inl e \<Rightarrow> False)"

definition ensureOverlay :: "(string \<Rightarrow> string \<Rightarrow> unit io) \<Rightarrow> string \<Rightarrow> string \<Rightarrow> bool \<Rightarrow> unit io" where
  "ensureOverlay clonefile base dst persist =
     (let make = catch_io (os_remove dst) (\<lambda>_.
          catch_io (clonefile base dst) (\<lambda>r. (case r of
            Inr _ \<Rightarrow> return_io ()
          | Inl _ \<Rightarrow> copyFile base dst)))
      in if persist then catch_io (os_stat dst) (\<lambda>r. if disk_present r then return_io () else make)
         else make)"

section \<open>Running\<close>

record vz_Options =
  vo_Name :: string
  vo_MemoryMB :: int
  vo_CPUs :: int
  vo_KernelPath :: string
  vo_InitrdPath :: string
  vo_RootfsRawPath :: string
  vo_SeedPath :: string
  vo_KernelCmdline :: string
  vo_StateDir :: string
  vo_Persist :: bool
  vo_Console :: bool
  vo_Ports :: "PortForward list"
  vo_ReadinessGuestPorts :: "int list"
  vo_ReadinessTimeout :: int
  vo_Services :: "string list"

datatype vm_state = VMStopped | VMError | VMOther

datatype vz_event = StateChanged vm_state | VSignal | VContextDone

text \<open>The framework: \<open>vf_call name\<close> is the outcome of a constructor, \<open>vf_events\<close> what the
  supervising loop receives, \<open>vf_after\<close> the state changes before the shutdown deadline;
  \<open>vf_RequestStop\<close> and \<open>vf_Stop\<close> are the outcomes of asking the guest and of forcing it.\<close>

record framework =
  vf_clonefile :: "string \<Rightarrow> string \<Rightarrow> unit io"
  vf_call :: "string \<Rightarrow> unit result"
  vf_rand :: "nat \<Rightarrow> 8 word list result"
  vf_Validate :: "bool result"
  vf_Start :: "unit result"
  vf_events :: "vz_event list"
  vf_RequestStop :: "unit result"
  vf_after :: "vm_state list"
  vf_Stop :: "unit result"

text \<open>How a run ends; \<open>StillRunning\<close> when the events given do not end it.\<close>

datatype vz_end = Stopped | ForcedStop | StillRunning

definition vz_shutdown :: "framework \<Rightarrow> vz_end vmio" where
  "vz_shutdown vf =
     bind_io (emit (StopRequested (vf_RequestStop vf))) (\<lambda>_.
     if VMStopped \<in> set (vf_after vf) then bind_io (emit NativeStopped) (\<lambda>_. return_io Stopped)
     else bind_io (emit (StopForced (vf_Stop vf))) (\<lambda>_. return_io ForcedStop))"

fun vz_loop :: "framework \<Rightarrow> vz_event list \<Rightarrow> vz_end vmio" where
  "vz_loop vf [] = return_io StillRunning"
| "vz_loop vf (StateChanged VMStopped # es) = bind_io (emit NativeStopped) (\<lambda>_. return_io Stopped)"
| "vz_loop vf (StateChanged VMError # es) =
     bind_io (emit NativeFailed) (\<lambda>_. fail_io (Errorf ''vz: vm entered error state'' []))"
| "vz_loop vf (StateChanged VMOther # es) = vz_loop vf es"
| "vz_loop vf (VSignal # es) = vz_shutdown vf"
| "vz_loop vf (VContextDone # es) = vz_shutdown vf"

text \<open>The configuration calls in order, with the text each error is wrapped in (none for
  those returned as they are).\<close>

definition vz_calls_disk :: "vz_Options \<Rightarrow> (string \<times> string option) list" where
  "vz_calls_disk opts =
     [(''NewLinuxBootLoader'', Some ''vz: boot loader: %w''),
      (''NewVirtualMachineConfiguration'', Some ''vz: configuration: %w''),
      (''NewDiskImageStorageDeviceAttachment(root)'', Some ''vz: root disk: %w''),
      (''NewVirtioBlockDeviceConfiguration(root)'', None)] @
     (if vo_SeedPath opts \<noteq> []
      then [(''NewDiskImageStorageDeviceAttachment(seed)'', Some ''vz: seed disk: %w''),
            (''NewVirtioBlockDeviceConfiguration(seed)'', None)]
      else [])"

definition vz_calls_net :: "(string \<times> string option) list" where
  "vz_calls_net =
     [(''NewMACAddress'', None),
      (''NewNATNetworkDeviceAttachment'', Some ''vz: nat attachment: %w''),
      (''NewVirtioNetworkDeviceConfiguration'', None)]"

definition vz_calls_serial :: "(string \<times> string option) list" where
  "vz_calls_serial =
     [(''NewFileHandleSerialPortAttachment'', None),
      (''NewVirtioConsoleDeviceSerialPortConfiguration'', None),
      (''NewVirtioEntropyDeviceConfiguration'', None)]"

fun vz_calls :: "framework \<Rightarrow> (string \<times> string option) list \<Rightarrow> unit result" where
  "vz_calls vf [] = Inr ()"
| "vz_calls vf ((name, wrap) # cs) =
     bind_res (case wrap of None \<Rightarrow> vf_call vf name | Some fmt \<Rightarrow> wrap_err fmt [] (vf_call vf name)) (\<lambda>_.
     vz_calls vf cs)"

definition serialFiles :: "vz_Options \<Rightarrow> string \<Rightarrow> unit io" where
  "serialFiles opts logsDir =
     (if vo_Console opts then return_io ()
      else bind_io (os_stat ''/dev/null'') (\<lambda>_. os_create (JoinPath [logsDir, ''serial.log''])))"

definition vz_validate :: "framework \<Rightarrow> unit result" where
  "vz_validate vf = (case vf_Validate vf of
     Inr True \<Rightarrow> Inr ()
   | Inr False \<Rightarrow> Inl (Errorf ''vz: invalid configuration: %v'' [])
   | Inl e \<Rightarrow> Inl (Wrapf ''vz: invalid configuration: %v'' [] e))"

definition vz_boot :: "framework \<Rightarrow> vz_Options \<Rightarrow> string \<Rightarrow> vz_end vmio" where
  "vz_boot vf opts logsDir =
     bind_io (lift_res (vz_calls vf (vz_calls_disk opts))) (\<lambda>_.
     bind_io (lift_res (randomMAC (vf_rand vf))) (\<lambda>mac.
     bind_io (lift_res (vz_calls vf vz_calls_net)) (\<lambda>_.
     bind_io (on_os (serialFiles opts logsDir)) (\<lambda>_.
     bind_io (lift_res (vz_calls vf vz_calls_serial)) (\<lambda>_.
     bind_io (lift_res (vz_validate vf)) (\<lambda>_.
     bind_io (lift_res (wrap_err ''vz: create vm: %w'' [] (vf_call vf ''NewVirtualMachine''))) (\<lambda>_.
     bind_io (lift_res (wrap_err
        ''vz: start (is dvm codesigned with com.apple.security.virtualization?): %w'' [] (vf_Start vf))) (\<lambda>_.
     bind_io (emit NativeStarted) (\<lambda>_.
     vz_loop vf (vf_events vf))))))))))"

definition vz_Run :: "framework \<Rightarrow> vz_Options \<Rightarrow> vz_end vmio" where
  "vz_Run vf opts =
     (if vo_MemoryMB opts \<le> 0 \<or> vo_CPUs opts \<le> 0
      then fail_io (Errorf ''vz: memory_mb and cpus must be > 0'' [])
      else let logsDir = JoinPath [vo_StateDir opts, ''logs'']; disk = JoinPath [vo_StateDir opts, ''disk.img''];
               body = bind_io (on_os (wrap_io ''vz: prepare overlay: %w'' []
                        (ensureOverlay (vf_clonefile vf) (vo_RootfsRawPath opts) disk (vo_Persist opts)))) (\<lambda>_.
                      vz_boot vf opts logsDir)
           in bind_io (on_os (os_mkdir_all logsDir)) (\<lambda>_.
              if vo_Persist opts then body else defer_io (on_os (os_remove disk)) body))"

section \<open>Properties\<close>

text \<open>A generated address has six bytes, is locally administered and unicast, and keeps
  the random bits everywhere else.\<close>

theorem random_mac_shape:
  assumes "rand 6 = Inr b" "length b = 6"
  shows "\<exists>m. randomMAC rand = Inr m \<and> length m = 6 \<and> bit (m ! 0) 1 \<and> \<not> bit (m ! 0) 0 \<and>
    (\<forall>n. 2 \<le> n \<longrightarrow> bit (m ! 0) n = bit (b ! 0) n) \<and> tl m = tl b"
proof -
  obtain x xs where b: "b = x # xs" using assms(2) by (cases b) auto
  have "\<not> bit (1 :: 8 word) n" "\<not> bit (2 :: 8 word) n" if "2 \<le> n" for n
    using that by (auto simp: bit_1_iff bit_2_iff)
  then have "bit ((x OR 2) AND NOT 1) n = bit x n" if "2 \<le> n" for n
    using that by (auto simp: bit_and_iff bit_or_iff bit_not_iff dest: bit_imp_le_length)
  then show ?thesis
    using assms by (simp add: randomMAC_def b bit_and_iff bit_or_iff bit_not_iff bit_1_iff bit_2_iff)
qed

theorem random_mac_shape_witness:
  "\<exists>m. randomMAC (\<lambda>n. Inr (replicate n 0xFF)) = Inr m \<and> bit (m ! 0) 1 \<and> \<not> bit (m ! 0) 0"
  using random_mac_shape [of "\<lambda>n. Inr (replicate n 0xFF)" "replicate 6 0xFF"] by auto

text \<open>The text of an address as the lease file has it: minimal hexadecimal bytes.\<close>

definition hex_byte :: "8 word \<Rightarrow> string" where
  "hex_byte b = (if unat b < 16 then [hex_char (unat b)]
     else [hex_char (unat b div 16), hex_char (unat b mod 16)])"

definition mac_text :: "mac \<Rightarrow> string" where
  "mac_text mac = Join (map hex_byte mac) '':''"

lemma unat_byte: "unat (b :: 8 word) < 256"
  using unsigned_less [of b, where ?'a = nat] by simp

lemma hex_byte_digits: "c \<in> set (hex_byte b) \<Longrightarrow> \<exists>d < 16. c = hex_char d"
proof -
  have "unat b div 16 < 16" using unat_byte [of b] by (intro less_mult_imp_div_less) simp
  moreover have "unat b mod 16 < 16" by simp
  moreover assume "c \<in> set (hex_byte b)"
  ultimately have "c = hex_char (unat b) \<and> unat b < 16 \<or> c = hex_char (unat b div 16) \<and> unat b div 16 < 16 \<or>
      c = hex_char (unat b mod 16) \<and> unat b mod 16 < 16"
    by (auto simp: hex_byte_def split: if_splits)
  then show ?thesis by blast
qed

lemma hex_byte_clean: "c \<in> set (hex_byte b) \<Longrightarrow> c \<noteq> CHR '':'' \<and> c \<noteq> CHR '','' \<and> \<not> is_space c"
proof -
  assume "c \<in> set (hex_byte b)"
  then obtain d where "d < 16" "c = hex_char d" using hex_byte_digits by blast
  then have v: "hex_val c = Some d" by simp
  then have "c \<noteq> CHR '':''" "c \<noteq> CHR '',''" by (auto simp: hex_val_def Let_def)
  moreover have "\<not> is_space c" using v by (auto simp: is_space_def hex_val_def Let_def)
  ultimately show ?thesis by blast
qed

lemma ParseUint_hex_byte: "ParseUint16_8 (hex_byte b) = Some b"
proof -
  have "unat b div 16 < 16" using unat_byte [of b] by (intro less_mult_imp_div_less) simp
  then have "hex_num 0 (hex_byte b) = Some (unat b)" by (simp add: hex_byte_def)
  moreover have "unat b \<le> 255" using unat_byte [of b] by simp
  ultimately show ?thesis by (simp add: ParseUint16_8_def hex_byte_def split: if_splits)
qed

lemma bytes_match_text: "length ps = length mac' \<Longrightarrow> bytes_match (map hex_byte ps) mac' \<longleftrightarrow> ps = mac'"
  by (induction ps mac' rule: list_induct2) (simp_all add: ParseUint_hex_byte)

lemma Split_mac_text: "mac \<noteq> [] \<Longrightarrow> Split (mac_text mac) CHR '':'' = map hex_byte mac"
  unfolding mac_text_def using hex_byte_clean by (intro Split_Join) auto

lemma mac_text_chars: "c \<in> set (mac_text mac) \<Longrightarrow> c \<noteq> CHR '',''"
proof (induction mac)
  case (Cons b mac)
  then show ?case
    by (cases "mac = []") (auto simp: mac_text_def Join_Cons dest: hex_byte_clean)
qed (simp add: mac_text_def)

lemma macEqual_text:
  assumes "mac \<noteq> []" "p = [] \<or> p = ''1,''"
  shows "macEqual (p @ mac_text mac) mac' \<longleftrightarrow> mac = mac'"
proof -
  have nc: "CHR '','' \<notin> set (mac_text mac)" using mac_text_chars by blast
  have "IndexByte (mac_text mac) CHR '','' = - 1" by (rule IndexByte_none [OF nc])
  moreover have "IndexByte (''1,'' @ mac_text mac) CHR '','' = 1" by simp
  ultimately have m: "macEqual (p @ mac_text mac) mac' \<longleftrightarrow>
      length mac = length mac' \<and> bytes_match (map hex_byte mac) mac'"
    using assms Split_mac_text [OF assms(1)] by (auto simp: macEqual_def Let_def)
  show ?thesis using m bytes_match_text by auto
qed

text \<open>A guest's address is recognised and never mistaken: an address printed with minimal
  hexadecimal bytes, with or without the \<open>1,\<close> of the lease file, equals exactly itself.\<close>

theorem mac_text_roundtrip:
  assumes "mac \<noteq> []" "p = [] \<or> p = ''1,''"
  shows "macEqual (p @ mac_text mac) mac' \<longleftrightarrow> mac = mac'"
  by (rule macEqual_text [OF assms])

theorem mac_text_roundtrip_witness:
  "macEqual (''1,'' @ mac_text [0x56, 0x0A, 0xC2]) [0x56, 0x0A, 0xC2] \<and>
   \<not> macEqual (''1,'' @ mac_text [0x56, 0x0A, 0xC2]) [0x56, 0x0A, 0xC3]"
  using mac_text_roundtrip [of "[0x56, 0x0A, 0xC2]" "''1,''"] by simp

subsection \<open>The lease file\<close>

text \<open>One lease as macOS writes it, and the file of several.\<close>

definition lease_lines :: "string \<times> mac \<Rightarrow> string list" where
  "lease_lines e = [''{'', ''ip_address='' @ fst e, ''hw_address=1,'' @ mac_text (snd e), ''}'']"

definition lease_file :: "(string \<times> mac) list \<Rightarrow> string" where
  "lease_file es = Join (concat (map lease_lines es)) [CHR 0x0A]"

definition lease_ok :: "string \<times> mac \<Rightarrow> bool" where
  "lease_ok e \<longleftrightarrow> fst e \<noteq> [] \<and> list_all (\<lambda>c. \<not> is_space c) (fst e) \<and> snd e \<noteq> []"

lemma mac_text_space: "c \<in> set (mac_text mac) \<Longrightarrow> \<not> is_space c"
proof (induction mac)
  case (Cons b mac)
  have "\<not> is_space CHR '':''" by code_simp
  with Cons show ?case
    by (cases "mac = []") (auto simp: mac_text_def Join_Cons dest: hex_byte_clean)
qed (simp add: mac_text_def)

lemma TrimSpace_clean: "list_all (\<lambda>c. \<not> is_space c) s \<Longrightarrow> TrimSpace s = s"
  unfolding TrimSpace_def by (rule trim_by_clean) (auto simp: list_all_iff)

definition ip_line :: "string \<Rightarrow> string" where "ip_line ip = ''ip_address='' @ ip"
definition hw_line :: "string \<Rightarrow> string" where "hw_line hw = ''hw_address='' @ hw"

lemma lease_line_ip:
  "list_all (\<lambda>c. \<not> is_space c) ip \<Longrightarrow> lease_line mac (ip_line ip) s = s\<lparr>ls_ip := ip\<rparr>"
proof -
  assume "list_all (\<lambda>c. \<not> is_space c) ip"
  moreover have "list_all (\<lambda>c. \<not> is_space c) ''ip_address=''" by code_simp
  ultimately have "TrimSpace (ip_line ip) = ip_line ip"
    by (intro TrimSpace_clean) (simp add: ip_line_def)
  then show ?thesis by (simp add: lease_line_def Let_def) (simp add: ip_line_def TrimPrefix_def)
qed

lemma lease_line_hw:
  "list_all (\<lambda>c. \<not> is_space c) hw \<Longrightarrow> lease_line mac (hw_line hw) s = s\<lparr>ls_hw := hw\<rparr>"
proof -
  assume "list_all (\<lambda>c. \<not> is_space c) hw"
  moreover have "list_all (\<lambda>c. \<not> is_space c) ''hw_address=''" by code_simp
  ultimately have "TrimSpace (hw_line hw) = hw_line hw"
    by (intro TrimSpace_clean) (simp add: hw_line_def)
  then show ?thesis by (simp add: lease_line_def Let_def) (simp add: hw_line_def TrimPrefix_def)
qed

lemma lease_line_braces:
  "lease_line mac ''{'' s = s\<lparr>ls_ip := [], ls_hw := []\<rparr>"
  "lease_line mac ''}'' s =
     (if ls_ip s \<noteq> [] \<and> macEqual (ls_hw s) mac then s\<lparr>ls_match := ls_ip s\<rparr> else s)"
proof -
  have "TrimSpace ''{'' = ''{''" "TrimSpace ''}'' = ''}''" by code_simp+
  then show "lease_line mac ''{'' s = s\<lparr>ls_ip := [], ls_hw := []\<rparr>"
    "lease_line mac ''}'' s =
     (if ls_ip s \<noteq> [] \<and> macEqual (ls_hw s) mac then s\<lparr>ls_match := ls_ip s\<rparr> else s)"
    by (simp_all add: lease_line_def)
qed

lemma lease_entry:
  assumes "lease_ok e"
  shows "ls_match (fold (lease_line mac) (lease_lines e) s) = (if snd e = mac then fst e else ls_match s)"
proof -
  have "\<not> is_space CHR ''1''" "\<not> is_space CHR '',''" by code_simp+
  then have hw: "list_all (\<lambda>c. \<not> is_space c) (''1,'' @ mac_text (snd e))"
    using mac_text_space by (auto simp: list_all_iff)
  have "lease_lines e = [''{'', ip_line (fst e), hw_line (''1,'' @ mac_text (snd e)), ''}'']"
    by (simp add: lease_lines_def ip_line_def hw_line_def)
  moreover have "macEqual (''1,'' @ mac_text (snd e)) mac \<longleftrightarrow> snd e = mac"
    using assms by (intro macEqual_text) (simp_all add: lease_ok_def)
  ultimately show ?thesis
    using assms hw by (simp add: lease_line_braces lease_line_ip lease_line_hw lease_ok_def)
qed

lemma lease_fold:
  "list_all lease_ok es \<Longrightarrow>
   ls_match (fold (lease_line mac) (concat (map lease_lines es)) s) =
     (case filter (\<lambda>e. snd e = mac) es of [] \<Rightarrow> ls_match s | fs \<Rightarrow> fst (last fs))"
proof (induction es arbitrary: s)
  case (Cons e es)
  let ?s = "fold (lease_line mac) (lease_lines e) s"
  have "ls_match ?s = (if snd e = mac then fst e else ls_match s)"
    using Cons.prems by (intro lease_entry) simp
  moreover have "ls_match (fold (lease_line mac) (concat (map lease_lines es)) ?s) =
     (case filter (\<lambda>e. snd e = mac) es of [] \<Rightarrow> ls_match ?s | fs \<Rightarrow> fst (last fs))"
    using Cons by simp
  ultimately show ?case by (auto split: list.split)
qed simp

text \<open>C36. The guest's address is the one leased last to its hardware address; leases of other
  machines are never taken.\<close>

theorem lookup_lease_last:
  assumes "list_all lease_ok es" "es \<noteq> []"
  shows "lookupLease (Inr (lease_file es)) mac =
    (case filter (\<lambda>e. snd e = mac) es of [] \<Rightarrow> [] | fs \<Rightarrow> fst (last fs))"
proof -
  let ?ls = "concat (map lease_lines es)"
  have ne: "?ls \<noteq> []" using assms(2) by (cases es) (simp_all add: lease_lines_def)
  have sp: "is_space (CHR 0x0A)" by code_simp
  have "CHR 0x0A \<notin> set l" if "l \<in> set ?ls" for l
  proof -
    from that obtain e where e: "e \<in> set es" "l \<in> set (lease_lines e)" by auto
    have "CHR 0x0A \<notin> set (fst e)" using assms(1) e(1) sp by (auto simp: list_all_iff lease_ok_def)
    moreover have "CHR 0x0A \<notin> set (mac_text (snd e))" using mac_text_space sp by blast
    ultimately show ?thesis using e(2) by (auto simp: lease_lines_def)
  qed
  then have "Split (lease_file es) (CHR 0x0A) = ?ls"
    unfolding lease_file_def by (intro Split_Join ne) blast
  then show ?thesis using lease_fold [OF assms(1)] by (simp add: lookupLease_def split: list.split)
qed

theorem lookup_lease_last_witness:
  "lookupLease (Inr (lease_file [(''192.168.64.2'', [1, 2]), (''192.168.64.3'', [1, 3]), (''192.168.64.9'', [1, 2])])) [1, 2] =
     ''192.168.64.9''"
  using lookup_lease_last [of "[(''192.168.64.2'', [1, 2]), (''192.168.64.3'', [1, 3]), (''192.168.64.9'', [1, 2])]" "[1, 2]"]
  by (simp add: lease_ok_def is_space_def)

subsection \<open>The machine\<close>

lemma memory_bytes_exact:
  assumes "0 \<le> mb" "mb < 2 ^ 44"
  shows "uint (memory_bytes mb) = mb * 2 ^ 20"
  using assms by (simp add: memory_bytes_def uint_word_ariths uint_word_of_int)

text \<open>The end of the supervising loop depends on the first event that is not an intermediate
  state; a shutdown never ends in an error.\<close>

lemma vz_loop_first:
  "vz_loop vf (map StateChanged (replicate n VMOther) @ e # es) = vz_loop vf (e # es) \<or> e = StateChanged VMOther"
  by (induction n) auto

lemma vz_ephemeral_disk_removed:
  assumes "vz_Run vf opts s = (r, s')" "\<not> vo_Persist opts" "0 < vo_MemoryMB opts" "0 < vo_CPUs opts"
    "os_mkdir_all (JoinPath [vo_StateDir opts, ''logs'']) (vm_os s) = (Inr u, w0)"
  shows "\<exists>w1. vm_os s' = snd (os_remove (JoinPath [vo_StateDir opts, ''disk.img'']) w1)"
proof -
  have run: "on_os (os_mkdir_all (JoinPath [vo_StateDir opts, ''logs''])) s = (Inr u, s\<lparr>vm_os := w0\<rparr>)"
    using assms(5) by (simp add: on_os_def)
  show ?thesis
    using assms(1-4) by (auto simp: vz_Run_def Let_def bind_io_apply [of "on_os (os_mkdir_all _)"] run
        dest!: deferred_on_os)
qed

end
