(* ===== verification/App_Run.thy ===== *)
theory App_Run
  imports App_Config Platform OCI_Puller Qemu_Download VM_Lifecycle VZ_Engine
begin

text \<open>
  Package \<open>internal/app\<close>, \<open>app.go\<close>: the commands. \<open>New\<close> builds the application from
  flags and configuration; \<open>startQEMU\<close> and \<open>startVZ\<close> resolve the components, take the
  lock and run an engine; \<open>Status\<close> and \<open>Clean\<close> look at and remove what is on disk. The
  outside world is one record: web server, YAML decoder, archive reader, registry, which ports
  can be bound, the VM environment, the macOS framework (absent in other builds).
\<close>

section \<open>The application\<close>

record App =
  app_Cfg :: Config
  app_Dirs :: Dirs
  app_engine :: string
  app_flagReset :: bool
  app_flagConsole :: bool

record 'r world =
  wd_http :: http
  wd_unmarshal :: "string \<Rightarrow> Config \<Rightarrow> Config result"
  wd_untar :: untar
  wd_registry :: "'r registry"
  wd_can_bind :: "string \<Rightarrow> string \<Rightarrow> bool"
  wd_kvm :: bool
  wd_env :: env
  wd_vz :: "framework option"
  wd_macos :: "string result"

definition app_dirs :: "os \<Rightarrow> Flags \<Rightarrow> Dirs" where
  "app_dirs w f =
     (let d = Default_dirs;
          d1 = (if fl_CacheDir f \<noteq> [] then d\<lparr>dirs_Cache := fl_CacheDir f\<rparr> else d);
          d2 = (if fl_DataDir f \<noteq> [] then d1\<lparr>dirs_State := fl_DataDir f\<rparr> else d1)
      in \<lparr>dirs_Cache = AbsPath (cwd w) (dirs_Cache d2), dirs_State = AbsPath (cwd w) (dirs_State d2)\<rparr>)"

definition New_app :: "'r world \<Rightarrow> Flags \<Rightarrow> App io" where
  "New_app wd f = (\<lambda>w.
     let dirs = app_dirs w f in
     bind_io (LoadConfig (wd_http wd) (wd_unmarshal wd) (fl_ConfigPath f)) (\<lambda>cfg0.
     let cfg = mergeFlags cfg0 f in
     bind_io (lift_res (Validate cfg)) (\<lambda>_.
     let engine = (if fl_Engine f = [] then ''auto'' else fl_Engine f) in
     if engine \<noteq> ''auto'' \<and> engine \<noteq> ''qemu'' \<and> engine \<noteq> ''vz''
     then fail_io (Errorf ''invalid --engine %q (want auto|qemu|vz)'' [engine])
     else return_io \<lparr>app_Cfg = cfg, app_Dirs = dirs, app_engine = engine,
                     app_flagReset = False, app_flagConsole = False\<rparr>)) w)"

definition SetRuntimeFlags :: "bool \<Rightarrow> bool \<Rightarrow> App \<Rightarrow> App" where
  "SetRuntimeFlags reset console a = a\<lparr>app_flagReset := reset, app_flagConsole := console\<rparr>"

section \<open>Resolving\<close>

definition guestArch :: "App \<Rightarrow> os \<Rightarrow> string" where
  "guestArch a w = (if gu_Arch (cfg_Guest (app_Cfg a)) \<noteq> [] then gu_Arch (cfg_Guest (app_Cfg a))
     else GuestArchDefault w)"

definition ociArch :: "string \<Rightarrow> string" where
  "ociArch arch = (if arch = ''arm64'' \<or> arch = ''aarch64'' then ''arm64'' else ''amd64'')"

definition app_resolver :: "'r world \<Rightarrow> App \<Rightarrow> fetch io" where
  "app_resolver wd a =
     bind_io (New_cache (JoinPath [dirs_Cache (app_Dirs a), ''oci''])) (\<lambda>c w.
     return_io (Fetch (wd_registry wd) (New_puller w c (ociArch (guestArch a w)))) w)"

definition qemuPaths :: "'r world \<Rightarrow> App \<Rightarrow> (string \<times> string) io" where
  "qemuPaths wd a =
     bind_io (if cc_QEMUDir (cfg_Components (app_Cfg a)) = []
              then EnsureQEMU (wd_http wd) (wd_untar wd) (dirs_Cache (app_Dirs a))
              else return_io (cc_QEMUDir (cfg_Components (app_Cfg a)))) (\<lambda>dir.
     bind_io (Abs dir) (\<lambda>abs w.
     let ext = (if goos w = ''windows'' then ''.exe'' else []);
         qemuBin = JoinPath [abs, SystemBinaryName (guestArch a w) @ ext];
         qemuImg = JoinPath [abs, ''qemu-img'' @ ext]
     in bind_io (wrap_io ''qemu binary not found at %s: %w'' [qemuBin] (os_stat qemuBin)) (\<lambda>_.
        bind_io (wrap_io ''qemu-img not found at %s: %w'' [qemuImg] (os_stat qemuImg)) (\<lambda>_.
        return_io (qemuBin, qemuImg))) w))"

section \<open>What the engines are given\<close>

definition bind_of :: "App \<Rightarrow> string" where
  "bind_of a = (if nw_BindAddress (cfg_Network (app_Cfg a)) = [] then ''127.0.0.1''
     else nw_BindAddress (cfg_Network (app_Cfg a)))"

definition fwd_of :: "string \<Rightarrow> Port \<Rightarrow> PortForward" where
  "fwd_of bnd p = \<lparr>pf_Proto = (if po_Protocol p = [] then ''tcp'' else po_Protocol p), pf_HostIP = bnd,
     pf_HostPort = po_Host p, pf_GuestPort = po_Guest p\<rparr>"

definition portForwards :: "App \<Rightarrow> PortForward list" where
  "portForwards a =
     map (fwd_of (bind_of a)) (cfg_Ports (app_Cfg a)) @
     (if nw_SSHPort (cfg_Network (app_Cfg a)) > 0
      then [\<lparr>pf_Proto = ''tcp'', pf_HostIP = bind_of a,
             pf_HostPort = nw_SSHPort (cfg_Network (app_Cfg a)), pf_GuestPort = 22\<rparr>]
      else [])"

definition seedUsername :: "App \<Rightarrow> string" where
  "seedUsername a = (if sc_Username (cfg_Seed (app_Cfg a)) \<noteq> [] then sc_Username (cfg_Seed (app_Cfg a)) else ''ubuntu'')"

definition service_line :: "Port \<Rightarrow> string" where
  "service_line p =
     (if po_URL p \<noteq> [] then po_Name p @ '': '' @ po_URL p
      else (let name = (if po_Name p = [] then ''port-'' @ Itoa (po_Host p) else po_Name p)
            in name @ '': 127.0.0.1:'' @ Itoa (po_Host p) @ '' -> guest '' @ Itoa (po_Guest p)))"

definition serviceLines :: "App \<Rightarrow> string list" where
  "serviceLines a =
     map service_line (cfg_Ports (app_Cfg a)) @
     (if nw_SSHPort (cfg_Network (app_Cfg a)) > 0
      then [''ssh: ssh -p '' @ Itoa (nw_SSHPort (cfg_Network (app_Cfg a))) @ '' '' @ seedUsername a @ ''@127.0.0.1'']
      else [])"

definition readinessProbes :: "App \<Rightarrow> Probe list" where
  "readinessProbes a = map (\<lambda>port. \<lparr>pr_Name = ''tcp/'' @ Itoa port, pr_Addr = ''127.0.0.1:'' @ Itoa port\<rparr>)
     (rd_TCPPorts (cfg_Readiness (app_Cfg a)))"

definition buildSeed :: "App \<Rightarrow> (SeedParams option \<times> string) io" where
  "buildSeed a =
     (let sc = cfg_Seed (app_Cfg a); cloudInit = (nw_IPConfig (cfg_Network (app_Cfg a)) = IPCloudInit) in
      if sc_Path sc \<noteq> [] then bind_io (Abs (sc_Path sc)) (\<lambda>abs. return_io (None, abs))
      else if \<not> sc_Enabled sc then return_io (None, [])
      else if sc_Password sc = [] \<and> sc_SSHKey sc = [] \<and> \<not> cloudInit then return_io (None, [])
      else
        (let sp = \<lparr>seed_Hostname = cfg_Name (app_Cfg a), seed_InstanceID = [], seed_Username = seedUsername a,
                   seed_Password = sc_Password sc, seed_SSHKey = [], seed_IncludeNetworkConfig = cloudInit\<rparr>
         in if sc_SSHKey sc \<noteq> []
            then bind_io (wrap_io ''read ssh key %s: %w'' [sc_SSHKey sc] (os_read (sc_SSHKey sc))) (\<lambda>data.
                 return_io (Some (sp\<lparr>seed_SSHKey := data\<rparr>), []))
            else return_io (Some sp, [])))"

definition extraCmdline :: "App \<Rightarrow> Backend \<Rightarrow> string list" where
  "extraCmdline a net = (let frag = KernelIPParam net (nw_IPConfig (cfg_Network (app_Cfg a))) ''eth0''
     in if frag \<noteq> [] then [frag] else [])"

definition readiness_ns :: "App \<Rightarrow> int" where
  "readiness_ns a = wrap64 (rd_TimeoutSeconds (cfg_Readiness (app_Cfg a)) * 1000000000)"

definition readinessGuestPorts :: "App \<Rightarrow> int list" where
  "readinessGuestPorts a =
     (let m1 = fold (\<lambda>p m. m(po_Host p \<mapsto> po_Guest p)) (cfg_Ports (app_Cfg a)) Map.empty;
          ssh = nw_SSHPort (cfg_Network (app_Cfg a));
          m = (if ssh > 0 then m1(ssh \<mapsto> 22) else m1)
      in map (\<lambda>hp. case m hp of Some gp \<Rightarrow> gp | None \<Rightarrow> hp) (rd_TCPPorts (cfg_Readiness (app_Cfg a))))"

section \<open>Engines\<close>

definition vzRootfsConfigured :: "App \<Rightarrow> bool" where
  "vzRootfsConfigured a =
     (if cc_RootfsVZ (cfg_Components (app_Cfg a)) \<noteq> [] then True
      else (let r = ToLower (cc_Rootfs (cfg_Components (app_Cfg a)))
            in Contains r ''ext4'' \<or> Contains r ''raw'' \<or> HasSuffix r ''.img''))"

definition vz_Supported :: "'r world \<Rightarrow> bool" where
  "vz_Supported wd = (case wd_vz wd of None \<Rightarrow> False | Some vf \<Rightarrow> Supported_darwin (wd_macos wd))"

definition resolveEngine :: "'r world \<Rightarrow> App \<Rightarrow> string" where
  "resolveEngine wd a =
     (if app_engine a = ''qemu'' \<or> app_engine a = ''vz'' then app_engine a
      else if vz_Supported wd \<and> vzRootfsConfigured a then ''vz'' else ''qemu'')"

definition qemu_candidates :: "'r world \<Rightarrow> App \<Rightarrow> os \<Rightarrow> string list" where
  "qemu_candidates wd a w =
     (let pref = (case map_of (qc_AccelPref (cfg_QEMU (app_Cfg a))) (goos w) of None \<Rightarrow> [] | Some p \<Rightarrow> p);
          cands = AccelCandidates (goos w) (wd_kvm wd) pref
      in if \<not> qc_AccelFallback (cfg_QEMU (app_Cfg a)) \<and> 1 < length cands then take 1 cands else cands)"

definition qemu_spec :: "App \<Rightarrow> os \<Rightarrow> string \<Rightarrow> string \<Rightarrow> Spec" where
  "qemu_spec a w krn initrd =
     \<lparr>sp_QEMUBin = [], sp_GuestArch = guestArch a w, sp_MemoryMB = gu_MemoryMB (cfg_Guest (app_Cfg a)),
      sp_CPUs = gu_CPUs (cfg_Guest (app_Cfg a)), sp_Accel = [], sp_KernelPath = krn, sp_InitrdPath = initrd,
      sp_KernelCmdline = gu_KernelCmdline (cfg_Guest (app_Cfg a)), sp_ExtraCmdline = extraCmdline a UserNet,
      sp_DrivePath = [], sp_SeedPath = [], sp_Net = Some UserNet, sp_Ports = portForwards a,
      sp_SerialControl = \<lparr>ctl_Net = [], ctl_Addr = []\<rparr>, sp_QMPControl = \<lparr>ctl_Net = [], ctl_Addr = []\<rparr>,
      sp_Display = ''none'', sp_ExtraArgs = qc_ExtraArgs (cfg_QEMU (app_Cfg a))\<rparr>"

definition launch_options :: "'r world \<Rightarrow> App \<Rightarrow> os \<Rightarrow> State \<Rightarrow> string \<times> string \<Rightarrow> string \<Rightarrow> string \<Rightarrow> string \<Rightarrow>
    SeedParams option \<Rightarrow> string \<Rightarrow> Options" where
  "launch_options wd a w st bins krn initrd rootfs seedParams seedImage =
     \<lparr>o_State = st, o_QEMUBin = fst bins, o_QEMUImg = snd bins, o_Spec = qemu_spec a w krn initrd,
      o_AccelCandidates = qemu_candidates wd a w, o_BaseRootfs = rootfs,
      o_Persist = gu_Persist (cfg_Guest (app_Cfg a)), o_Reset = app_flagReset a,
      o_Seed = seedParams, o_SeedImage = seedImage, o_Readiness = readinessProbes a,
      o_ReadinessTimeout = readiness_ns a, o_Services = serviceLines a, o_Console = app_flagConsole a,
      o_DetachKey = CHR 0x00, o_ShutdownTimeout = 30000000000\<rparr>"

text \<open>\<open>startQEMU\<close> under the lock.\<close>

definition qemu_locked :: "'r world \<Rightarrow> App \<Rightarrow> State \<Rightarrow> string \<times> string \<Rightarrow> string \<Rightarrow> string \<Rightarrow> string \<Rightarrow> unit vmio" where
  "qemu_locked wd a st bins krn initrd rootfs =
     bind_io (on_os (lift_res (CheckPortsFree (wd_can_bind wd) (portForwards a)))) (\<lambda>_.
     bind_io (on_os (buildSeed a)) (\<lambda>(seedParams, seedImage) s.
     Run (wd_env wd) (launch_options wd a (vm_os s) st bins krn initrd rootfs seedParams seedImage) s))"

definition resolve3 :: "fetch \<Rightarrow> string \<Rightarrow> string \<Rightarrow> string \<Rightarrow> (Component \<times> Component \<times> Component) io" where
  "resolve3 res krn initrd rootfs =
     bind_io (Resolve (Some res) ''kernel'' krn) (\<lambda>k.
     bind_io (Resolve (Some res) ''initrd'' initrd) (\<lambda>i.
     bind_io (Resolve (Some res) ''rootfs'' rootfs) (\<lambda>r. return_io (k, i, r))))"

definition startQEMU :: "'r world \<Rightarrow> App \<Rightarrow> unit vmio" where
  "startQEMU wd a =
     (let cc = cfg_Components (app_Cfg a) in
      if cc_Kernel cc = [] \<or> cc_Initrd cc = [] \<or> cc_Rootfs cc = []
      then fail_io (Errorf ''kernel, initrd and rootfs references are required (set --kernel/--initrd/--rootfs or a config file)'' [])
      else bind_io (on_os (qemuPaths wd a)) (\<lambda>bins.
           bind_io (on_os (app_resolver wd a)) (\<lambda>res.
           bind_io (on_os (resolve3 res (cc_Kernel cc) (cc_Initrd cc) (cc_Rootfs cc))) (\<lambda>(k, i, r).
           bind_io (on_os (NewState (StateInstance (app_Dirs a) (cfg_Name (app_Cfg a))))) (\<lambda>st.
           bind_io (on_os (AcquireLock st)) (\<lambda>path.
           defer_io (on_os (release_lock path))
             (qemu_locked wd a st bins (comp_Path k) (comp_Path i) (comp_Path r))))))))"

definition vz_cmdline :: "App \<Rightarrow> string" where
  "vz_cmdline a =
     (let cmdline = (if gu_KernelCmdline (cfg_Guest (app_Cfg a)) = [] then ''console=hvc0 root=/dev/vda rw''
                     else gu_KernelCmdline (cfg_Guest (app_Cfg a)));
          mode = nw_IPConfig (cfg_Network (app_Cfg a))
      in if mode = IPKernelDHCP \<or> mode = IPKernelStatic then cmdline @ '' ip=dhcp'' else cmdline)"

definition vz_locked :: "framework \<Rightarrow> env \<Rightarrow> App \<Rightarrow> State \<Rightarrow> string \<Rightarrow> string \<Rightarrow> string \<Rightarrow> vz_end vmio" where
  "vz_locked vf env a st krn initrd rootfs =
     bind_io (on_os (if app_flagReset a then catch_io (os_remove (JoinPath [st_Dir st, ''disk.img''])) (\<lambda>_. return_io ())
              else return_io ())) (\<lambda>_.
     bind_io (on_os (buildSeed a)) (\<lambda>(seedParams, seedImage).
     bind_io (on_os (if seedImage \<noteq> [] then return_io seedImage
              else (case seedParams of
                None \<Rightarrow> return_io []
              | Some p \<Rightarrow> bind_io (wrap_io ''create cloud-init seed: %w'' []
                            (WriteSeed (env_dfs env) (env_order env) (SeedPath st) p)) (\<lambda>_. return_io (SeedPath st))))) (\<lambda>seedPath.
     vz_Run vf
       \<lparr>vo_Name = cfg_Name (app_Cfg a), vo_MemoryMB = gu_MemoryMB (cfg_Guest (app_Cfg a)),
        vo_CPUs = gu_CPUs (cfg_Guest (app_Cfg a)), vo_KernelPath = krn, vo_InitrdPath = initrd,
        vo_RootfsRawPath = rootfs, vo_SeedPath = seedPath, vo_KernelCmdline = vz_cmdline a,
        vo_StateDir = st_Dir st, vo_Persist = gu_Persist (cfg_Guest (app_Cfg a)), vo_Console = app_flagConsole a,
        vo_Ports = portForwards a, vo_ReadinessGuestPorts = readinessGuestPorts a,
        vo_ReadinessTimeout = readiness_ns a, vo_Services = serviceLines a\<rparr>)))"

definition startVZ :: "'r world \<Rightarrow> App \<Rightarrow> vz_end vmio" where
  "startVZ wd a =
     (let cc = cfg_Components (app_Cfg a);
          rootfsRef = (if cc_RootfsVZ cc = [] then cc_Rootfs cc else cc_RootfsVZ cc)
      in if \<not> vz_Supported wd then fail_io (Errorf ''the vz engine requires macOS (Virtualization.framework)'' [])
         else if cc_Kernel cc = [] \<or> cc_Initrd cc = [] \<or> rootfsRef = []
         then fail_io (Errorf ''kernel, initrd and rootfs references are required (use a raw/ext4 rootfs for --engine vz; set rootfs_vz/--rootfs-vz to keep a qcow2 rootfs for qemu)'' [])
         else (case wd_vz wd of
           None \<Rightarrow> fail_io (Errorf ''the vz engine requires macOS (Virtualization.framework); use --engine qemu'' [])
         | Some vf \<Rightarrow>
             bind_io (on_os (app_resolver wd a)) (\<lambda>res.
             bind_io (on_os (resolve3 res (cc_Kernel cc) (cc_Initrd cc) rootfsRef)) (\<lambda>(k, i, r).
             bind_io (on_os (NewState (StateInstance (app_Dirs a) (cfg_Name (app_Cfg a))))) (\<lambda>st.
             bind_io (on_os (AcquireLock st)) (\<lambda>path.
             defer_io (on_os (release_lock path))
               (vz_locked vf (wd_env wd) a st (comp_Path k) (comp_Path i) (comp_Path r))))))))"

definition Start :: "'r world \<Rightarrow> App \<Rightarrow> unit vmio" where
  "Start wd a = (if resolveEngine wd a = ''vz'' then bind_io (startVZ wd a) (\<lambda>_. return_io ())
     else startQEMU wd a)"

section \<open>Status and clean\<close>

text \<open>\<open>Status\<close> gives the lines it prints.\<close>

definition Status :: "App \<Rightarrow> string list io" where
  "Status a =
     bind_io (NewState (StateInstance (app_Dirs a) (cfg_Name (app_Cfg a)))) (\<lambda>st.
     bind_io (ReadPID st) (\<lambda>pid.
     return_io
       ((if 0 < pid then [''dvm is running (pid '' @ Itoa pid @ '')''] else [''dvm is not running.'']) @
        [''State: '' @ st_Dir st] @
        (if serviceLines a \<noteq> [] then ''Ports:'' # map (\<lambda>l. ''  '' @ l) (serviceLines a) else []))))"

definition Clean_app :: "App \<Rightarrow> bool \<Rightarrow> unit io" where
  "Clean_app a withState =
     bind_io (os_remove_all (JoinPath [dirs_Cache (app_Dirs a), ''oci''])) (\<lambda>_.
     if withState then os_remove_all (StateInstance (app_Dirs a) (cfg_Name (app_Cfg a)))
     else return_io ())"

section \<open>The lock around a run\<close>

lemma on_os_run: "on_os m s = (r, s') \<longleftrightarrow> (\<exists>w. m (vm_os s) = (r, w) \<and> s' = s\<lparr>vm_os := w\<rparr>)"
  by (auto simp: on_os_def split: prod.splits)

lemma NewState_ok: "NewState d w = (Inr st, w') \<Longrightarrow> st = \<lparr>st_Dir = d\<rparr>"
  by (auto simp: NewState_def bind_io_ok split: if_splits)

definition app_state :: "App \<Rightarrow> State" where
  "app_state a = \<lparr>st_Dir = StateInstance (app_Dirs a) (cfg_Name (app_Cfg a))\<rparr>"

definition freed :: "State \<Rightarrow> os \<Rightarrow> bool" where
  "freed st w' \<longleftrightarrow> (\<exists>w2. w' = snd (release_lock (LockPath st) w2) \<and>
     (faults w2 = [] \<longrightarrow> fs_children (resolve w2 (LockPath st)) (files w2) = [] \<longrightarrow>
        resolve w2 (LockPath st) \<noteq> [] \<longrightarrow> file_at w' (LockPath st) = None))"

lemma release_freed: "release_lock (LockPath st) w2 = (u, w3) \<Longrightarrow> freed st w3"
  unfolding freed_def
  by (intro exI [of _ w2]) (auto simp: release_lock_def io_simps os_remove_def syscall_none Let_def
      file_at_def split: prod.splits if_splits)

text \<open>What a program that may start a VM owes its instance: it failed before anything was
  started, or it took the lock, ran one of its sections and gave the lock back.\<close>

definition sectioned :: "State \<Rightarrow> 'a vmio set \<Rightarrow> vmrun \<Rightarrow> 'a result \<Rightarrow> vmrun \<Rightarrow> bool" where
  "sectioned st B s r s' \<longleftrightarrow> (\<exists>w0 w1 b s2. b \<in> B \<and> AcquireLock st w0 = (Inr (LockPath st), w1) \<and>
     b (s\<lparr>vm_os := w1\<rparr>) = (r, s2) \<and> s' = s2\<lparr>vm_os := snd (release_lock (LockPath st) (vm_os s2))\<rparr>)"

definition guarded :: "State \<Rightarrow> 'a vmio set \<Rightarrow> 'a vmio \<Rightarrow> bool" where
  "guarded st B m \<longleftrightarrow> (\<forall>s r s'. m s = (r, s') \<longrightarrow>
     (\<exists>e. r = Inl e) \<and> vm_trace s' = vm_trace s \<or> sectioned st B s r s')"

lemma guardedI:
  assumes "\<And>s r s'. m s = (r, s') \<Longrightarrow> (\<exists>e. r = Inl e) \<and> vm_trace s' = vm_trace s \<or> sectioned st B s r s'"
  shows "guarded st B m"
  using assms by (simp add: guarded_def)

lemma sectioned_os [simp]: "sectioned st B (s\<lparr>vm_os := w\<rparr>) r s' = sectioned st B s r s'"
  by (simp add: sectioned_def)

lemma sectionedI:
  "b \<in> B \<Longrightarrow> AcquireLock st w0 = (Inr (LockPath st), w1) \<Longrightarrow> b (s\<lparr>vm_os := w1\<rparr>) = (r, s2) \<Longrightarrow>
   s' = s2\<lparr>vm_os := snd (release_lock (LockPath st) (vm_os s2))\<rparr> \<Longrightarrow> sectioned st B s r s'"
  unfolding sectioned_def by blast

lemma sectionedE:
  assumes "sectioned st B s r s'"
  obtains w0 w1 b s2 where "b \<in> B" "AcquireLock st w0 = (Inr (LockPath st), w1)"
    "b (s\<lparr>vm_os := w1\<rparr>) = (r, s2)" "s' = s2\<lparr>vm_os := snd (release_lock (LockPath st) (vm_os s2))\<rparr>"
  using assms unfolding sectioned_def by blast

text \<open>A step on the host first changes nothing of that.\<close>

lemma guarded_bind:
  assumes "\<And>x w w'. m w = (Inr x, w') \<Longrightarrow> guarded st B (f x)"
  shows "guarded st B (bind_io (on_os m) f)"
proof (rule guardedI)
  fix s r s' assume run: "bind_io (on_os m) f s = (r, s')"
  obtain r0 w where m: "m (vm_os s) = (r0, w)" by (cases "m (vm_os s)")
  show "(\<exists>e. r = Inl e) \<and> vm_trace s' = vm_trace s \<or> sectioned st B s r s'"
  proof (cases r0)
    case (Inl e)
    with run m show ?thesis by (auto simp: bind_io_def on_os_def)
  next
    case (Inr x)
    with run m have "f x (s\<lparr>vm_os := w\<rparr>) = (r, s')" by (simp add: bind_io_def on_os_def)
    with assms [OF m [unfolded Inr]] show ?thesis by (fastforce simp: guarded_def)
  qed
qed

lemma guarded_lock:
  assumes "st' = st" "\<And>path. g path \<in> B"
  shows "guarded st B (bind_io (on_os (AcquireLock st')) (\<lambda>path. defer_io (on_os (release_lock path)) (g path)))"
proof (rule guardedI)
  fix s r s'
  assume run: "bind_io (on_os (AcquireLock st')) (\<lambda>path. defer_io (on_os (release_lock path)) (g path)) s = (r, s')"
  obtain r0 w where m: "AcquireLock st (vm_os s) = (r0, w)" by (cases "AcquireLock st (vm_os s)")
  show "(\<exists>e. r = Inl e) \<and> vm_trace s' = vm_trace s \<or> sectioned st B s r s'"
  proof (cases r0)
    case (Inl e)
    with run m show ?thesis by (auto simp: bind_io_def on_os_def assms(1))
  next
    case (Inr path)
    have path: "path = LockPath st" using lock_attempts_ok m Inr by (auto simp: AcquireLock_def)
    obtain r2 s2 where g: "g path (s\<lparr>vm_os := w\<rparr>) = (r2, s2)" by (cases "g path (s\<lparr>vm_os := w\<rparr>)")
    with run m Inr path have "r = r2" "s' = s2\<lparr>vm_os := snd (release_lock (LockPath st) (vm_os s2))\<rparr>"
      by (auto simp: bind_io_def defer_io_apply on_os_def assms(1) split: prod.splits)
    then show ?thesis using m Inr path g assms(2) unfolding sectioned_def by blast
  qed
qed

lemma startQEMU_guarded:
  "guarded (app_state a) {qemu_locked wd a (app_state a) bins k i rt | bins k i rt. True} (startQEMU wd a)"
  (is "guarded _ ?B _")
proof -
  have st: "st = app_state a" if "NewState (StateInstance (app_Dirs a) (cfg_Name (app_Cfg a))) w = (Inr st, w')" for st w w'
    using NewState_ok [OF that] by (simp add: app_state_def)
  have fail: "guarded (app_state a) ?B (fail_io e)" for e by (auto intro: guardedI)
  show ?thesis
    unfolding startQEMU_def Let_def
    by (intro conjI impI | rule fail guarded_lock guarded_bind | erule st | split if_split | drule st | blast | clarsimp)+
qed

lemma startVZ_guarded:
  "guarded (app_state a) {vz_locked vf (wd_env wd) a (app_state a) k i rt | vf k i rt. wd_vz wd = Some vf} (startVZ wd a)"
  (is "guarded _ ?B _")
proof -
  have st: "st = app_state a" if "NewState (StateInstance (app_Dirs a) (cfg_Name (app_Cfg a))) w = (Inr st, w')" for st w w'
    using NewState_ok [OF that] by (simp add: app_state_def)
  have fail: "guarded (app_state a) ?B (fail_io e)" for e by (auto intro: guardedI)
  show ?thesis
    unfolding startVZ_def Let_def
    by (intro conjI impI | rule fail guarded_lock guarded_bind | erule st | split if_split option.split
        | drule st | blast | clarsimp)+
qed

text \<open>What the sections of one engine give holds when its result is dropped.\<close>

lemma guarded_unit:
  assumes "guarded st B m"
  shows "guarded st ((\<lambda>b. bind_io b (\<lambda>_. return_io ())) ` B) (bind_io m (\<lambda>_. return_io ()))"
proof (rule guardedI)
  fix s r s' assume run: "bind_io m (\<lambda>_. return_io ()) s = (r, s')"
  obtain r0 where m: "m s = (r0, s')" and r: "r = map_sum id (\<lambda>_. ()) r0"
    using run by (cases "m s"; cases "fst (m s)") (auto simp: bind_io_def)
  have d: "bind_io b (\<lambda>_. return_io ()) s1 = (r, s2)" if "b s1 = (r0, s2)" for b s1 s2
    using that r by (cases r0) (auto simp: bind_io_def)
  from assms m have "(\<exists>e. r0 = Inl e) \<and> vm_trace s' = vm_trace s \<or> sectioned st B s r0 s'"
    by (simp add: guarded_def)
  then show "(\<exists>e. r = Inl e) \<and> vm_trace s' = vm_trace s \<or>
      sectioned st ((\<lambda>b. bind_io b (\<lambda>_. return_io ())) ` B) s r s'"
  proof
    assume "(\<exists>e. r0 = Inl e) \<and> vm_trace s' = vm_trace s"
    then show ?thesis using r by auto
  next
    assume "sectioned st B s r0 s'"
    then obtain w0 w1 b s2 where B: "b \<in> B" and l: "AcquireLock st w0 = (Inr (LockPath st), w1)"
      and b: "b (s\<lparr>vm_os := w1\<rparr>) = (r0, s2)" and s': "s' = s2\<lparr>vm_os := snd (release_lock (LockPath st) (vm_os s2))\<rparr>"
      by (elim sectionedE)
    show ?thesis by (rule disjI2, rule sectionedI [OF imageI [OF B] l _ s'], rule d, rule b)
  qed
qed

lemma guarded_mono: "guarded st B m \<Longrightarrow> B \<subseteq> B' \<Longrightarrow> guarded st B' m"
  unfolding guarded_def sectioned_def by blast

definition engine_sections :: "'r world \<Rightarrow> App \<Rightarrow> unit vmio set" where
  "engine_sections wd a =
     {qemu_locked wd a (app_state a) bins k i rt | bins k i rt. True} \<union>
     {bind_io (vz_locked vf (wd_env wd) a (app_state a) k i rt) (\<lambda>_. return_io ()) | vf k i rt. wd_vz wd = Some vf}"

lemma Start_guarded: "guarded (app_state a) (engine_sections wd a) (Start wd a)"
proof (cases "resolveEngine wd a = ''vz''")
  case True
  have "guarded (app_state a) (engine_sections wd a) (bind_io (startVZ wd a) (\<lambda>_. return_io ()))"
    by (rule guarded_mono [OF guarded_unit [OF startVZ_guarded]]) (unfold engine_sections_def, blast)
  with True show ?thesis by (simp add: Start_def)
next
  case False
  have "guarded (app_state a) (engine_sections wd a) (startQEMU wd a)"
    by (rule guarded_mono [OF startQEMU_guarded]) (unfold engine_sections_def, blast)
  with False show ?thesis by (simp add: Start_def)
qed


section \<open>Forwards\<close>


text \<open>The engine choice: an explicit engine is used; otherwise the native macOS engine is
  picked exactly when it is supported here and a raw root image is configured.\<close>

theorem engine_choice:
  "resolveEngine wd a = (if app_engine a = ''qemu'' then ''qemu'' else if app_engine a = ''vz'' then ''vz''
     else if (\<exists>vf. wd_vz wd = Some vf) \<and> Supported_darwin (wd_macos wd) \<and>
        (cc_RootfsVZ (cfg_Components (app_Cfg a)) \<noteq> [] \<or>
         sublist ''ext4'' (ToLower (cc_Rootfs (cfg_Components (app_Cfg a)))) \<or>
         sublist ''raw'' (ToLower (cc_Rootfs (cfg_Components (app_Cfg a)))) \<or>
         suffix ''.img'' (ToLower (cc_Rootfs (cfg_Components (app_Cfg a))))) then ''vz'' else ''qemu'')"
  by (auto simp: resolveEngine_def vz_Supported_def vzRootfsConfigured_def Let_def split: option.split)

section \<open>Readiness ports of the native engine\<close>

lemma last_mapping:
  "fold (\<lambda>p m. m(po_Host p \<mapsto> po_Guest p)) ps m0 hp =
     (case filter (\<lambda>p. po_Host p = hp) ps of [] \<Rightarrow> m0 hp | qs \<Rightarrow> Some (po_Guest (last qs)))"
  by (induction ps arbitrary: m0) (auto split: list.splits)

text \<open>The native engine probes, for each readiness port, the guest port it is forwarded to
  (SSH's 22 for the SSH port, else the last forward of that host port), and the port itself
  when nothing forwards it.\<close>

theorem readiness_ports_mapped:
  "readinessGuestPorts a =
     map (\<lambda>hp. if 0 < nw_SSHPort (cfg_Network (app_Cfg a)) \<and> hp = nw_SSHPort (cfg_Network (app_Cfg a)) then 22
       else (case filter (\<lambda>p. po_Host p = hp) (cfg_Ports (app_Cfg a)) of
          [] \<Rightarrow> hp | qs \<Rightarrow> po_Guest (last qs)))
     (rd_TCPPorts (cfg_Readiness (app_Cfg a)))"
  by (auto simp: readinessGuestPorts_def Let_def last_mapping split: list.split)

section \<open>Clean\<close>


section \<open>A concrete launch\<close>

definition app0 :: App where
  "app0 = \<lparr>app_Cfg = mergeFlags Default_config flags0, app_Dirs = \<lparr>dirs_Cache = ''/w/.cache'', dirs_State = ''/w/.state''\<rparr>,
     app_engine = ''auto'', app_flagReset = False, app_flagConsole = False\<rparr>"

definition world0 :: "unit world" where
  "world0 = \<lparr>wd_http = web0 sums0, wd_unmarshal = (\<lambda>_ c. Inr c), wd_untar = empty_tar, wd_registry = reg0,
     wd_can_bind = (\<lambda>_ _. True), wd_kvm = True, wd_env = env0, wd_vz = None, wd_macos = Inl (Sys ENOENT)\<rparr>"

definition launch_host :: os where
  "launch_host = host0\<lparr>files := [([''k''], File ''K''), ([''i''], File ''I''), ([''r''], File ''raw''),
     ([''q''], Directory), ([''q'', ''qemu-system-x86_64''], File []), ([''q'', ''qemu-img''], File [])]\<rparr>"

lemma no_config_file:
  "faults w = [] \<Longrightarrow> list_all (\<lambda>p. node_at (files w) (resolve w p) = None) ps \<Longrightarrow> first_config ps w = (Inr [], w)"
  by (induction ps) (simp_all add: is_config_file_def os_stat_def syscall_none io_simps)

lemma load0: "LoadConfig (wd_http world0) (wd_unmarshal world0) [] launch_host = (Inr Default_config, launch_host)"
proof -
  have "config_home launch_host = Some ''/home/u/.config''" "faults launch_host = []" by (simp_all add: launch_host_def host0_def)
  moreover have "list_all (\<lambda>p. node_at (files launch_host) (resolve launch_host p) = None)
      (config_names @ map (\<lambda>n. JoinPath [''/home/u/.config'', ''diveinto-lab'', n]) config_names)"
    by code_simp
  ultimately show ?thesis
    by (simp add: LoadConfig_def resolveConfigPath_def no_config_file io_simps)
qed

lemma val0: "Validate (mergeFlags Default_config flags0) = Inr ()" by code_simp

lemma dirs0: "app_dirs launch_host flags0 = app_Dirs app0" by code_simp

lemma New0: "New_app world0 flags0 launch_host = (Inr app0, launch_host)"
  using load0 val0 dirs0 by (simp add: New_app_def io_simps flags0_def app0_def Let_def)



section \<open>What a launch boots\<close>

lemma cached_content:
  assumes "cache_ok c w" "prefix ''sha256:'' d" "BlobPath c d = Inr p" "file_at w p = Some b"
  shows "d = digest_of b"
proof -
  obtain a h where h: "splitDigest d = Inr (a, h)" using assms(3) by (auto simp: BlobPath_def bind_res_eq_Inr)
  then have h: "splitDigest d = Inr (''sha256'', h)" using splitDigest_algo [OF assms(2)] by blast
  have abs: "IsAbs (Root c)" using assms(1) by (simp add: cache_ok_def)
  have "node_at (files w) (blob_cell c h) = Some (File b)"
    using assms(3,4) blob_paths [OF abs h] by (simp add: BlobPath_sha256 [OF h] file_at_Some resolve_abs)
  with cache_okD [OF assms(1) this hexpart_not_tmp [OF h]] h show ?thesis
    by (simp add: splitDigest_digest_of)
qed

lemma Resolve_fetched:
  assumes "cache_ok (pull_cache p) w" "Resolve (Some (Fetch reg p)) n ref w = (Inr c, w')"
  shows "cache_ok (pull_cache p) w' \<and> comp_Name c = n \<and>
    (comp_Digest c = [] \<or> BlobPath (pull_cache p) (comp_Digest c) = Inr (comp_Path c))"
proof -
  have ne: "ref \<noteq> []" using assms(2) by (auto simp: Resolve_def)
  obtain r w1 where p: "ParseRef ref w = (Inr r, w1)" "frame w {} w1"
    using ParseRef_total [of ref w] by blast
  have i1: "cache_ok (pull_cache p) w1" by (rule cache_ok_frame [OF assms(1) p(2)])
  have "comp_Name c = n \<and> (comp_Digest c = [] \<or> BlobPath (pull_cache p) (comp_Digest c) = Inr (comp_Path c))"
  proof (cases "ref_Kind r")
    case KindOCI
    with assms(2) ne p have "Fetch reg p n (ref_Value r) w1 = (Inr c, w')" by (simp add: Resolve_def io_simps)
    from Fetch_no_sha [OF i1 this] show ?thesis by blast
  next
    case KindLocal
    with assms(2) ne p show ?thesis by (auto simp: Resolve_def bind_io_ok)
  qed
  with oci_fetcher.resolve_inv [OF assms(1,2)] show ?thesis by blast
qed

text \<open>C4. What a launch boots is what was asked for, across the three components: with a sound
  cache, the resolved kernel, initrd and root image keep the cache sound, carry their roles in
  order, and whatever file the engine then finds at the path of a component with a sha256
  digest has that digest, even though later components were fetched after it.\<close>

theorem launch_components_verified:
  assumes "resolve3 (Fetch reg p) krn initrd rootfs w = (Inr (k, i, r), w')" "cache_ok (pull_cache p) w"
  shows "cache_ok (pull_cache p) w' \<and> map comp_Name [k, i, r] = [''kernel'', ''initrd'', ''rootfs''] \<and>
    list_all (\<lambda>c. prefix ''sha256:'' (comp_Digest c) \<longrightarrow>
       (\<forall>b. file_at w' (comp_Path c) = Some b \<longrightarrow> comp_Digest c = digest_of b)) [k, i, r]"
proof -
  obtain w1 w2 where r: "Resolve (Some (Fetch reg p)) ''kernel'' krn w = (Inr k, w1)"
    "Resolve (Some (Fetch reg p)) ''initrd'' initrd w1 = (Inr i, w2)"
    "Resolve (Some (Fetch reg p)) ''rootfs'' rootfs w2 = (Inr r, w')"
    using assms(1) by (auto simp: resolve3_def bind_io_ok)
  note k = Resolve_fetched [OF assms(2) r(1)]
  note i = Resolve_fetched [OF conjunct1 [OF k] r(2)]
  note rt = Resolve_fetched [OF conjunct1 [OF i] r(3)]
  from k i rt cached_content [OF conjunct1 [OF rt]] show ?thesis by (auto simp: prefix_def)
qed

lemma root_component: "faults w = [] \<Longrightarrow> Resolve f n ''/'' w =
    (Inr \<lparr>comp_Name = n, comp_Title = ''/'', comp_Path = ''/'', comp_Digest = []\<rparr>, w)"
proof -
  assume "faults w = []"
  moreover have "AbsPath d ''/'' = ''/''" "Base ''/'' = ''/''" "resolve w ''/'' = []" for d by code_simp+
  ultimately show ?thesis
    by (simp add: Resolve_def ParseRef_def looksLocal_def Abs_def os_stat_def syscall_none io_simps)
qed

lemma fetch_root0:
  "\<exists>c w'. Fetch reg0 puller0 ''rootfs'' ''x'' host0 = (Inr c, w') \<and> comp_Digest c = digest_of ''hi''"
proof -
  have np: "\<not> Contains ''application/vnd.linux.vmlinux.v1+binary'' ''provenance''" by code_simp
  have "fetch_layer reg0 puller0 ''rootfs'' ''x'' =
      Inr ((), layer0 ''application/vnd.linux.vmlinux.v1+binary'' ''vmlinux'' (digest_of ''hi'') 2, ''vmlinux'')"
    by (simp add: fetch_layer_def newRepository_def reg0_def resolvePlatform_def fetchManifest_def
        index_types_def man0_def selectPrimaryLayer_def expected_layer_def expectedMediaTypes_def
        layer0_def title_of_def verifySidecar_def Let_def isSidecar_def suffix_def np)
  moreover obtain p w' where "PutStream cache0 (digest_of ''hi'') (''hi'', None) host0 = (Inr p, w')"
    using cache0_put by blast
  moreover have "Has cache0 (digest_of ''hi'') host0 = (Inr False, host0)"
    using Has_no_fault [of host0 cache0 "digest_of ''hi''"] BlobPath_sha256 [of "digest_of ''hi''"]
      blob_paths [of cache0 "digest_of ''hi''" "sha256_hex ''hi''"]
    by (auto simp: resolve_abs blob_cell_def cache0_def IsAbs_def)
  ultimately show ?thesis by (simp add: Fetch_def io_simps Let_def)
qed

theorem launch_components_verified_witness:
  "\<exists>k i r w'. resolve3 (Fetch reg0 puller0) ''/'' ''/'' ''oci://x'' host0 = (Inr (k, i, r), w') \<and>
     comp_Digest r = digest_of ''hi'' \<and> (\<forall>b. file_at w' (comp_Path r) = Some b \<longrightarrow> digest_of ''hi'' = digest_of b)"
proof -
  obtain c w' where c: "Fetch reg0 puller0 ''rootfs'' ''x'' host0 = (Inr c, w')" "comp_Digest c = digest_of ''hi''"
    using fetch_root0 by blast
  have "Resolve (Some (Fetch reg0 puller0)) ''rootfs'' ''oci://x'' host0 = (Inr c, w')"
    using c by (simp add: Resolve_def ParseRef_def TrimPrefix_def io_simps)
  then have e: "resolve3 (Fetch reg0 puller0) ''/'' ''/'' ''oci://x'' host0 =
      (Inr (\<lparr>comp_Name = ''kernel'', comp_Title = ''/'', comp_Path = ''/'', comp_Digest = []\<rparr>,
        \<lparr>comp_Name = ''initrd'', comp_Title = ''/'', comp_Path = ''/'', comp_Digest = []\<rparr>, c), w')"
    by (simp add: resolve3_def root_component io_simps)
  have "cache_ok (pull_cache puller0) host0" using cache0_ok by (simp add: puller0_def)
  from launch_components_verified [OF e this] e c show ?thesis by (auto simp: digest_of_def)
qed

end
