(* ===== verification/Go_Flag.thy ===== *)
theory Go_Flag
  imports Go_Strings
begin

text \<open>
  The part of Go's \<open>flag\<close> package the command line uses: a \<open>FlagSet\<close> of string, integer and
  boolean flags parsed with \<open>ExitOnError\<close>. Parsing stops at the first argument that is no
  flag, or after \<open>--\<close>; a boolean flag takes a value only as \<open>-name=value\<close>. Integers are read
  by \<open>strconv.ParseInt\<close> with base 0 (prefixes and underscores as in Go literals).
\<close>

section \<open>Values\<close>

definition ParseBool :: "string \<Rightarrow> bool option" where
  "ParseBool s =
     (if s \<in> {''1'', ''t'', ''T'', ''TRUE'', ''true'', ''True''} then Some True
      else if s \<in> {''0'', ''f'', ''F'', ''FALSE'', ''false'', ''False''} then Some False else None)"

text \<open>The digits of a number in some base, letters counting from 10, underscores skipped.\<close>

definition alnum_val :: "char \<Rightarrow> nat option" where
  "alnum_val c = (let n = of_char c :: nat; l = of_char (lower_char c) :: nat in
     if 48 \<le> n \<and> n \<le> 57 then Some (n - 48)
     else if 97 \<le> l \<and> l \<le> 122 then Some (l - 97 + 10) else None)"

fun base_val :: "nat \<Rightarrow> nat \<Rightarrow> string \<Rightarrow> nat option" where
  "base_val b acc [] = Some acc"
| "base_val b acc (c # cs) =
     (if c = CHR ''_'' then base_val b acc cs
      else (case alnum_val c of None \<Rightarrow> None
        | Some d \<Rightarrow> if b \<le> d then None else base_val b (b * acc + d) cs))"

text \<open>\<open>underscoreOK\<close>: underscores separate digits, or follow a base prefix.\<close>

datatype seen = SeenStart | SeenDigit | SeenUnderscore | SeenOther

fun underscores_ok :: "bool \<Rightarrow> seen \<Rightarrow> string \<Rightarrow> bool" where
  "underscores_ok hex i [] = (i \<noteq> SeenUnderscore)"
| "underscores_ok hex i (c # cs) =
     (if is_digit c \<or> hex \<and> lower_char c \<in> set ''abcdef'' then underscores_ok hex SeenDigit cs
      else if c = CHR ''_'' then i = SeenDigit \<and> underscores_ok hex SeenUnderscore cs
      else i \<noteq> SeenUnderscore \<and> underscores_ok hex SeenOther cs)"

definition base_prefix :: "string \<Rightarrow> (nat \<times> string) option" where
  "base_prefix s =
     (if HasPrefix s ''0'' \<and> 3 \<le> length s \<and> lower_char (s ! 1) = CHR ''b'' then Some (2, drop 2 s)
      else if HasPrefix s ''0'' \<and> 3 \<le> length s \<and> lower_char (s ! 1) = CHR ''o'' then Some (8, drop 2 s)
      else if HasPrefix s ''0'' \<and> 3 \<le> length s \<and> lower_char (s ! 1) = CHR ''x'' then Some (16, drop 2 s)
      else None)"

definition ParseUint0 :: "string \<Rightarrow> nat option" where
  "ParseUint0 s =
     (if s = [] then None
      else (let (b, ds) = (case base_prefix s of Some p \<Rightarrow> p
                           | None \<Rightarrow> if HasPrefix s ''0'' then (8, tl s) else (10, s));
                ok = (CHR ''_'' \<notin> set ds \<or>
                  (case base_prefix s of Some (b', rest) \<Rightarrow> underscores_ok (b' = 16) SeenDigit rest
                   | None \<Rightarrow> underscores_ok False SeenStart s))
            in if ok then base_val b 0 ds else None))"

definition ParseInt0 :: "string \<Rightarrow> int option" where
  "ParseInt0 s =
     (let neg = HasPrefix s ''-'';
          ds = (if HasPrefix s ''-'' \<or> HasPrefix s ''+'' then tl s else s)
      in (case ParseUint0 ds of None \<Rightarrow> None
          | Some n \<Rightarrow> (let v = (if neg then - int n else int n) in if in_int64 v then Some v else None)))"

section \<open>Parsing\<close>

datatype 'c flag_kind =
    FlagString "string \<Rightarrow> 'c \<Rightarrow> 'c"
  | FlagInt "int \<Rightarrow> 'c \<Rightarrow> 'c"
  | FlagBool "bool \<Rightarrow> 'c \<Rightarrow> 'c"

fun is_bool :: "'c flag_kind \<Rightarrow> bool" where
  "is_bool (FlagBool f) = True"
| "is_bool _ = False"

fun set_value :: "'c flag_kind \<Rightarrow> string \<Rightarrow> 'c \<Rightarrow> 'c option" where
  "set_value (FlagString f) v c = Some (f v c)"
| "set_value (FlagInt f) v c = map_option (\<lambda>n. f n c) (ParseInt0 v)"
| "set_value (FlagBool f) v c = map_option (\<lambda>b. f b c) (ParseBool v)"

datatype 'c parsed = Parsed 'c "string list" | Help | Bad error

fun parse_flags :: "(string \<times> 'c flag_kind) list \<Rightarrow> string list \<Rightarrow> 'c \<Rightarrow> 'c parsed" where
  "parse_flags t [] c = Parsed c []"
| "parse_flags t (s # args) c =
     (if length s < 2 \<or> hd s \<noteq> CHR ''-'' then Parsed c (s # args)
      else if s = ''--'' then Parsed c args
      else (let raw = drop (if s ! 1 = CHR ''-'' then 2 else 1) s in
        if hd raw = CHR ''-'' \<or> hd raw = CHR ''='' then Bad (Errorf ''bad flag syntax: %s'' [s])
        else (case Cut CHR ''='' raw of (name, value, has) \<Rightarrow>
          (case map_of t name of
             None \<Rightarrow> if name = ''help'' \<or> name = ''h'' then Help
                     else Bad (Errorf ''flag provided but not defined: -%s'' [name])
           | Some k \<Rightarrow>
               if is_bool k
               then (case set_value k (if has then value else ''true'') c of
                       None \<Rightarrow> Bad (Errorf ''invalid boolean value %q for -%s'' [value, name])
                     | Some c' \<Rightarrow> parse_flags t args c')
               else if has
               then (case set_value k value c of
                       None \<Rightarrow> Bad (Errorf ''invalid value %q for flag -%s'' [value, name])
                     | Some c' \<Rightarrow> parse_flags t args c')
               else (case args of
                       [] \<Rightarrow> Bad (Errorf ''flag needs an argument: -%s'' [name])
                     | v # args' \<Rightarrow> (case set_value k v c of
                           None \<Rightarrow> Bad (Errorf ''invalid value %q for flag -%s'' [v, name])
                         | Some c' \<Rightarrow> parse_flags t args' c'))))))"

section \<open>Decimal integers\<close>

lemma alnum_digit: "digit_val c = Some d \<Longrightarrow> alnum_val c = Some d \<and> d < 10 \<and> c \<noteq> CHR ''_'' \<and> is_digit c"
  by (auto simp: digit_val_def alnum_val_def is_digit_def Let_def split: if_splits)

lemma base_val_dec: "dec_val acc ds = Some n \<Longrightarrow> base_val 10 acc ds = Some n \<and> CHR ''_'' \<notin> set ds"
proof (induction acc ds rule: dec_val.induct)
  case (2 acc c cs)
  then show ?case by (auto split: option.splits dest!: alnum_digit)
qed simp

lemma nat_str_no_zero: "0 < n \<Longrightarrow> hd (nat_str n) \<noteq> CHR ''0''"
proof (induction n rule: nat_str.induct)
  case (1 n)
  show ?case
  proof (cases "n < 10")
    case True
    then have "of_char (char_of (48 + n) :: char) = 48 + n" by simp
    then have "char_of (48 + n) \<noteq> CHR ''0''" using "1.prems" by (auto dest: arg_cong [of _ _ "of_char :: char \<Rightarrow> nat"])
    with True show ?thesis by (simp add: nat_str.simps [of n])
  next
    case False
    with 1 show ?thesis by (simp add: nat_str.simps [of n])
  qed
qed

lemma ParseUint0_nat_str: "ParseUint0 (nat_str n) = Some n"
proof (cases "n = 0")
  case True
  moreover have "ParseUint0 (nat_str 0) = Some 0" by code_simp
  ultimately show ?thesis by simp
next
  case False
  then have "\<not> HasPrefix (nat_str n) ''0''"
    using nat_str_no_zero [of n] by (cases "nat_str n") auto
  with base_val_dec [OF dec_val_nat_str [of n]] show ?thesis
    by (simp add: ParseUint0_def base_prefix_def Let_def)
qed

text \<open>An integer flag reads back any 64-bit integer as \<open>strconv.Itoa\<close> prints it.\<close>

lemma ParseInt0_Itoa: "in_int64 i \<Longrightarrow> ParseInt0 (Itoa i) = Some i"
proof (cases "i < 0")
  case True
  assume "in_int64 i"
  with True show ?thesis by (simp add: Itoa_def ParseInt0_def ParseUint0_nat_str Let_def)
next
  case False
  assume "in_int64 i"
  moreover obtain x xs where e: "nat_str (nat i) = x # xs" by (metis list.exhaust nat_str_nonempty)
  moreover have "x \<noteq> CHR ''-''" "x \<noteq> CHR ''+''"
    using nat_str_hd [of "nat i"] e by (auto dest: digit_not_special)
  ultimately show ?thesis
    using False ParseUint0_nat_str [of "nat i"] by (simp add: Itoa_def ParseInt0_def Let_def)
qed

lemma ParseInt0_range: "ParseInt0 s = Some i \<Longrightarrow> in_int64 i"
  by (auto simp: ParseInt0_def Let_def split: if_splits option.splits)

section \<open>One flag\<close>

text \<open>A flag name that \<open>--name=value\<close> can carry.\<close>

definition flag_name :: "string \<Rightarrow> bool" where
  "flag_name n \<longleftrightarrow> n \<noteq> [] \<and> hd n \<noteq> CHR ''-'' \<and> CHR ''='' \<notin> set n"

definition flag_arg :: "string \<times> string \<Rightarrow> string" where
  "flag_arg p = ''--'' @ fst p @ ''='' @ snd p"

lemma parse_flag_arg:
  assumes "flag_name n" "map_of t n = Some k" "set_value k v c = Some c'"
  shows "parse_flags t (flag_arg (n, v) # args) c = parse_flags t args c'"
proof -
  have "Cut CHR ''='' (n @ CHR ''='' # v) = (n, v, True)"
    using assms(1) by (intro Cut_append) (simp add: flag_name_def)
  moreover have "hd (n @ CHR ''='' # v) \<noteq> CHR ''-''" "hd (n @ CHR ''='' # v) \<noteq> CHR ''=''" "n \<noteq> []"
    using assms(1) by (cases n; auto simp: flag_name_def)+
  ultimately show ?thesis
    using assms(2,3) by (cases k) (auto simp: flag_arg_def Let_def)
qed

text \<open>The same flag with its value in the next argument, for a flag that is not boolean.\<close>

lemma parse_flag_next:
  assumes "flag_name n" "map_of t n = Some k" "\<not> is_bool k" "set_value k v c = Some c'"
  shows "parse_flags t ((''--'' @ n) # v # args) c = parse_flags t args c'"
proof -
  have "Cut CHR ''='' n = (n, [], False)"
    using assms(1) by (simp add: Cut_not_found flag_name_def)
  moreover have "hd n \<noteq> CHR ''-''" "hd n \<noteq> CHR ''=''" "n \<noteq> []"
    using assms(1) by (cases n; auto simp: flag_name_def)+
  ultimately show ?thesis
    using assms(2-4) by (auto simp: Let_def)
qed

end
