(* ===== verification/Dvm_Main.thy ===== *)
theory Dvm_Main
  imports App_Run Go_Flag
begin

text \<open>
  \<open>cmd/dvm/main.go\<close> and \<open>internal/app/version.go\<close>: the command line. \<open>main\<close> picks a
  command, \<open>runCommand\<close> parses its flags with the \<open>flag\<close> package and calls the application;
  the outcome is an exit code, what was printed, and the host afterwards. The text the
  \<open>flag\<close> package itself prints on \<open>-h\<close> or an error is not modelled, only its exit code.
\<close>

section \<open>Version\<close>

text \<open>The link-time variables and what \<open>debug.ReadBuildInfo\<close> returns.\<close>

record build =
  bd_AppVersion :: string
  bd_GitCommit :: string
  bd_BuildDate :: string
  bd_Settings :: "(string \<times> string) list option"

definition commit :: "build \<Rightarrow> string" where
  "commit b =
     (if bd_GitCommit b \<noteq> [] then bd_GitCommit b
      else (case bd_Settings b of
              None \<Rightarrow> ''unknown''
            | Some ss \<Rightarrow> (case map_of ss ''vcs.revision'' of
                None \<Rightarrow> ''unknown''
              | Some v \<Rightarrow> if 12 < length v then take 12 v else v)))"

definition newline :: string where "newline = [CHR 0x0A]"

definition VersionInfo :: "build \<Rightarrow> os \<Rightarrow> string \<Rightarrow> string \<Rightarrow> string \<Rightarrow> string" where
  "VersionInfo b w assetVersion guestImage qemuVer =
     ''dvm '' @ bd_AppVersion b @ newline @
     ''Commit: '' @ commit b @ newline @
     (if bd_BuildDate b \<noteq> [] then ''Built: '' @ bd_BuildDate b @ newline else []) @
     (if assetVersion \<noteq> [] then ''Asset version: '' @ assetVersion @ newline else []) @
     (if guestImage \<noteq> [] then ''Guest image: '' @ guestImage @ newline else []) @
     (if qemuVer \<noteq> [] then ''QEMU: '' @ qemuVer @ newline else []) @
     ''Host target: '' @ Target w"

section \<open>Flags\<close>

definition usage :: "string list" where
  \<open>usage = [
    ''dvm - boot a VM from OCI components and forward guest ports to localhost'',
    [],
    ''Usage:'',
    ''  dvm [command] [flags]'',
    ''  dvm start [flags]                  (start is the default if no command is given)'',
    [],
    ''Commands:'',
    ''  start     Boot the VM and supervise it in the foreground (default)'',
    ''  console   Boot the VM with the terminal attached to the guest serial console'',
    ''  status    Show whether the VM is running and its exposed ports'',
    ''  clean     Remove the extracted asset cache (and optionally VM state)'',
    ''  version   Print version information'',
    [],
    ''Running and stopping:'',
    ''  start and console run in the foreground. Press Ctrl-C to shut the guest down'',
    ''  gracefully (Ctrl-] first to detach the console). Run "dvm status" from another'',
    ''  terminal to check on it. A detached background mode, and a matching "dvm stop",'',
    ''  are not implemented yet.'',
    [],
    ''Configuration:'',
    ''  Any flag can come from a YAML config file; CLI flags override it. dvm reads'',
    ''  --config <path-or-url> if given, otherwise ./dvm.yaml, otherwise the user'',
    ''  config dir. --config also accepts an http(s) URL, for example:'',
    ''    dvm start --config https://example.com/dvm.yaml --guest-password lab'',
    [],
    ''Run "dvm <command> -h" for the full flag list.''
    ]\<close>

record cli =
  cl_f :: Flags
  cl_ports :: "string list"
  cl_qemuArgs :: "string list"
  cl_noAccelFallback :: bool
  cl_withState :: bool

definition cli_default :: cli where
  "cli_default = \<lparr>cl_f = \<lparr>fl_ConfigPath = [], fl_DataDir = [], fl_CacheDir = [], fl_Engine = ''auto'', fl_Kernel = [],
    fl_Initrd = [], fl_Rootfs = [], fl_RootfsVZ = [], fl_QEMUDir = [], fl_GuestArch = [],
    fl_KernelCmdline = [], fl_MemoryMB = 0, fl_CPUs = 0, fl_Ports = [], fl_IPConfig = [],
    fl_BindAddress = [], fl_SSHPort = 0, fl_NoPersist = False, fl_Reset = False, fl_AccelFallback = False,
    fl_Headless = True, fl_Debug = False, fl_QemuArgs = [], fl_Console = False, fl_GuestPassword = [],
    fl_SSHKeyPath = [], fl_SeedPath = []\<rparr>,
    cl_ports = [], cl_qemuArgs = [], cl_noAccelFallback = False, cl_withState = False\<rparr>"

text \<open>\<open>fs.StringVar(&f.X, ...)\<close> and the like: a flag that writes one field of \<open>f\<close>.\<close>

abbreviation in_f :: "('a \<Rightarrow> Flags \<Rightarrow> Flags) \<Rightarrow> 'a \<Rightarrow> cli \<Rightarrow> cli" where
  "in_f upd v c \<equiv> c\<lparr>cl_f := upd v (cl_f c)\<rparr>"

definition slice_Set :: "string list \<Rightarrow> string \<Rightarrow> string list" where
  "slice_Set s v = s @ [v]"

definition flag_table :: "string \<Rightarrow> (string \<times> cli flag_kind) list" where
  "flag_table command = [
     (''config'', FlagString (in_f (\<lambda>v f. f\<lparr>fl_ConfigPath := v\<rparr>))),
     (''data-dir'', FlagString (in_f (\<lambda>v f. f\<lparr>fl_DataDir := v\<rparr>))),
     (''cache-dir'', FlagString (in_f (\<lambda>v f. f\<lparr>fl_CacheDir := v\<rparr>))),
     (''engine'', FlagString (in_f (\<lambda>v f. f\<lparr>fl_Engine := v\<rparr>))),
     (''kernel'', FlagString (in_f (\<lambda>v f. f\<lparr>fl_Kernel := v\<rparr>))),
     (''initrd'', FlagString (in_f (\<lambda>v f. f\<lparr>fl_Initrd := v\<rparr>))),
     (''rootfs'', FlagString (in_f (\<lambda>v f. f\<lparr>fl_Rootfs := v\<rparr>))),
     (''rootfs-vz'', FlagString (in_f (\<lambda>v f. f\<lparr>fl_RootfsVZ := v\<rparr>))),
     (''qemu-dir'', FlagString (in_f (\<lambda>v f. f\<lparr>fl_QEMUDir := v\<rparr>))),
     (''guest-arch'', FlagString (in_f (\<lambda>v f. f\<lparr>fl_GuestArch := v\<rparr>))),
     (''kernel-cmdline'', FlagString (in_f (\<lambda>v f. f\<lparr>fl_KernelCmdline := v\<rparr>))),
     (''memory'', FlagInt (in_f (\<lambda>v f. f\<lparr>fl_MemoryMB := v\<rparr>))),
     (''cpus'', FlagInt (in_f (\<lambda>v f. f\<lparr>fl_CPUs := v\<rparr>))),
     (''port'', FlagString (\<lambda>v c. c\<lparr>cl_ports := slice_Set (cl_ports c) v\<rparr>)),
     (''ip-config'', FlagString (in_f (\<lambda>v f. f\<lparr>fl_IPConfig := v\<rparr>))),
     (''bind-address'', FlagString (in_f (\<lambda>v f. f\<lparr>fl_BindAddress := v\<rparr>))),
     (''ssh-port'', FlagInt (in_f (\<lambda>v f. f\<lparr>fl_SSHPort := v\<rparr>))),
     (''no-persist'', FlagBool (in_f (\<lambda>v f. f\<lparr>fl_NoPersist := v\<rparr>))),
     (''reset'', FlagBool (in_f (\<lambda>v f. f\<lparr>fl_Reset := v\<rparr>))),
     (''no-accel-fallback'', FlagBool (\<lambda>v c. c\<lparr>cl_noAccelFallback := v\<rparr>)),
     (''headless'', FlagBool (in_f (\<lambda>v f. f\<lparr>fl_Headless := v\<rparr>))),
     (''debug'', FlagBool (in_f (\<lambda>v f. f\<lparr>fl_Debug := v\<rparr>))),
     (''qemu-arg'', FlagString (\<lambda>v c. c\<lparr>cl_qemuArgs := slice_Set (cl_qemuArgs c) v\<rparr>)),
     (''console'', FlagBool (in_f (\<lambda>v f. f\<lparr>fl_Console := v\<rparr>))),
     (''guest-password'', FlagString (in_f (\<lambda>v f. f\<lparr>fl_GuestPassword := v\<rparr>))),
     (''ssh-key'', FlagString (in_f (\<lambda>v f. f\<lparr>fl_SSHKeyPath := v\<rparr>))),
     (''seed'', FlagString (in_f (\<lambda>v f. f\<lparr>fl_SeedPath := v\<rparr>)))] @
     (if command = ''clean'' then [(''with-state'', FlagBool (\<lambda>v c. c\<lparr>cl_withState := v\<rparr>))] else [])"

text \<open>What \<open>runCommand\<close> sets after parsing.\<close>

definition finish_flags :: "string \<Rightarrow> cli \<Rightarrow> Flags" where
  "finish_flags command c =
     (let f = (cl_f c)\<lparr>fl_Ports := cl_ports c, fl_QemuArgs := cl_qemuArgs c,
                       fl_AccelFallback := \<not> cl_noAccelFallback c\<rparr>
      in if command = ''console'' then f\<lparr>fl_Console := True\<rparr> else f)"

section \<open>Commands\<close>

text \<open>A command returns what it printed, or the \<open>flag\<close> package ended the process.\<close>

datatype run_end = Returned "string list" | Exited nat

definition command_body :: "'r world \<Rightarrow> string \<Rightarrow> Flags \<Rightarrow> bool \<Rightarrow> run_end vmio" where
  "command_body wd command f withState =
     bind_io (on_os (New_app wd f)) (\<lambda>a.
       if command = ''status'' then bind_io (on_os (Status a)) (\<lambda>ls. return_io (Returned ls))
       else if command = ''clean'' then bind_io (on_os (Clean_app a withState)) (\<lambda>_. return_io (Returned []))
       else if command = ''stop''
       then fail_io (Errorf ''no detached/background mode yet: start runs in the foreground, so press Ctrl-C in its terminal to stop the VM'' [])
       else bind_io (Start wd (SetRuntimeFlags (fl_Reset f) (fl_Console f) a)) (\<lambda>_. return_io (Returned [])))"

definition runCommand :: "'r world \<Rightarrow> string \<Rightarrow> string list \<Rightarrow> run_end vmio" where
  "runCommand wd command args =
     (case parse_flags (flag_table command) args cli_default of
        Help \<Rightarrow> return_io (Exited 0)
      | Bad e \<Rightarrow> return_io (Exited 2)
      | Parsed c rest \<Rightarrow> command_body wd command (finish_flags command c) (cl_withState c))"

definition split_command :: "string list \<Rightarrow> string \<times> string list" where
  "split_command args =
     (if args \<noteq> [] \<and> \<not> HasPrefix (hd args) ''-'' then (hd args, tl args) else (''start'', args))"

datatype printed = Stdout string | Stderr string | StderrError error

definition command_names :: "string list" where
  "command_names = [''start'', ''console'', ''status'', ''clean'', ''stop'']"

definition main :: "'r world \<Rightarrow> build \<Rightarrow> string list \<Rightarrow> vmrun \<Rightarrow> (nat \<times> printed list) \<times> vmrun" where
  "main wd b argv s =
     (case split_command argv of (command, args) \<Rightarrow>
      if command = ''version'' then ((0, [Stdout (VersionInfo b (vm_os s) [] [] [])]), s)
      else if command \<in> set command_names then
        (case runCommand wd command args s of
           (Inl e, s') \<Rightarrow> ((1, [StderrError e]), s')
         | (Inr (Returned ls), s') \<Rightarrow> ((0, map Stdout ls), s')
         | (Inr (Exited n), s') \<Rightarrow> ((n, []), s'))
      else if command = ''help'' \<or> command = ''-h'' \<or> command = ''--help'' then ((0, map Stdout usage), s)
      else ((2, StderrError (Errorf ''unknown command %q'' [command]) # map Stderr usage), s))"

end
