(* ===== verification/VM_Protocol.thy ===== *)
theory VM_Protocol
  imports VZ_Engine
begin

text \<open>
  What the two engines promise about the VMs they run, as an automaton over the events of a
  launch: at most one VM at a time, a QEMU process is asked, signalled and killed in this
  order and reaped once, a native VM is asked before it is forced. \<open>traced\<close> is a small
  logic of the phases a program goes through; with it \<open>Run\<close> and \<open>vz_Run\<close> are shown to
  implement the automaton on every path.
\<close>

section \<open>The automaton\<close>

datatype stage = Alive | Asked | Termed | Killed

datatype vm_phase = VOff | VOn stage int | VNative bool

fun qemu_next :: "stage \<Rightarrow> int \<Rightarrow> event \<Rightarrow> vm_phase option" where
  "qemu_next st p (ConsoleSession c) = (if st = Alive then Some (VOn st p) else None)"
| "qemu_next st p (WaitedFor ps ok) = (if st = Alive then Some (VOn st p) else None)"
| "qemu_next st p (ServicesShown ls) = (if st = Alive then Some (VOn st p) else None)"
| "qemu_next st p (Warned m) = (if st = Alive then Some (VOn st p) else None)"
| "qemu_next st p (Informed m) = (if st = Alive then Some (VOn st p) else None)"
| "qemu_next st p Running = (if st = Alive then Some (VOn st p) else None)"
| "qemu_next st p (PowerButton r) = (if st = Alive then Some (VOn Asked p) else None)"
| "qemu_next st p (Terminate sg q) = (if q = p \<and> st \<in> {Alive, Asked} then Some (VOn Termed p) else None)"
| "qemu_next st p (Kill q) = (if q = p \<and> st = Termed then Some (VOn Killed p) else None)"
| "qemu_next st p (Reap q) = (if q = p then Some VOff else None)"
| "qemu_next st p _ = None"

fun native_next :: "bool \<Rightarrow> event \<Rightarrow> vm_phase option" where
  "native_next asked (StopRequested r) = (if asked then None else Some (VNative True))"
| "native_next asked NativeStopped = Some VOff"
| "native_next asked NativeFailed = (if asked then None else Some VOff)"
| "native_next asked (StopForced r) = (if asked then Some VOff else None)"
| "native_next asked _ = None"

text \<open>\<open>Died\<close> is the report of a candidate that was reaped in its grace period.\<close>

fun off_next :: "event \<Rightarrow> vm_phase option" where
  "off_next (Started a p) = Some (VOn Alive p)"
| "off_next (Died a p) = Some VOff"
| "off_next NativeStarted = Some (VNative False)"
| "off_next _ = None"

fun vm_next :: "vm_phase \<Rightarrow> event \<Rightarrow> vm_phase option" where
  "vm_next VOff e = off_next e"
| "vm_next (VOn st p) e = qemu_next st p e"
| "vm_next (VNative asked) e = native_next asked e"

fun vm_phases :: "vm_phase \<Rightarrow> event list \<Rightarrow> vm_phase option" where
  "vm_phases q [] = Some q"
| "vm_phases q (e # es) = (case vm_next q e of None \<Rightarrow> None | Some q' \<Rightarrow> vm_phases q' es)"

lemma vm_phases_append:
  "vm_phases q (es @ fs) = (case vm_phases q es of None \<Rightarrow> None | Some q' \<Rightarrow> vm_phases q' fs)"
  by (induction q es rule: vm_phases.induct) (simp_all split: option.split)

section \<open>Programs and phases\<close>

text \<open>From phase \<open>q\<close> the events \<open>m\<close> adds are accepted, and its result \<open>r\<close> and last phase \<open>q'\<close>
  satisfy \<open>Q r q'\<close>.\<close>

definition traced :: "vm_phase \<Rightarrow> ('a result \<Rightarrow> vm_phase \<Rightarrow> bool) \<Rightarrow> 'a vmio \<Rightarrow> bool" where
  "traced q Q m \<longleftrightarrow> (\<forall>s r s'. m s = (r, s') \<longrightarrow>
     (\<exists>es q'. vm_trace s' = vm_trace s @ es \<and> vm_phases q es = Some q' \<and> Q r q'))"

named_theorems traced_intros

lemma tracedI:
  assumes "\<And>s r s'. m s = (r, s') \<Longrightarrow> \<exists>es q'. vm_trace s' = vm_trace s @ es \<and> vm_phases q es = Some q' \<and> Q r q'"
  shows "traced q Q m"
  using assms by (simp add: traced_def)

lemma tracedD:
  assumes "traced q Q m" "m s = (r, s')"
  obtains es q' where "vm_trace s' = vm_trace s @ es" "vm_phases q es = Some q'" "Q r q'"
  using assms unfolding traced_def by blast

lemma traced_quiet:
  assumes "\<And>s r s'. m s = (r, s') \<Longrightarrow> vm_trace s' = vm_trace s \<and> Q r q"
  shows "traced q Q m"
proof (rule tracedI)
  fix s r s' assume "m s = (r, s')"
  from assms [OF this] show "\<exists>es q'. vm_trace s' = vm_trace s @ es \<and> vm_phases q es = Some q' \<and> Q r q'"
    by (intro exI [of _ "[]"] exI [of _ q]) simp
qed

lemma traced_pure [traced_intros]:
  "Q (Inr x) q \<Longrightarrow> traced q Q (return_io x)" "Q (Inl e) q \<Longrightarrow> traced q Q (fail_io e)"
  "Q y q \<Longrightarrow> traced q Q (lift_res y)"
  by (rule traced_quiet; simp add: prog_defs)+

lemma traced_on_os [traced_intros]: "(\<And>r. Q r q) \<Longrightarrow> traced q Q (on_os m)"
  by (rule traced_quiet) (auto simp: on_os_def split: prod.splits)

lemma traced_emit [traced_intros]:
  assumes "vm_next q e = Some q'" "Q (Inr ()) q'"
  shows "traced q Q (emit e)"
proof (rule tracedI)
  fix s r s' assume "emit e s = (r, s')"
  then show "\<exists>es q''. vm_trace s' = vm_trace s @ es \<and> vm_phases q es = Some q'' \<and> Q r q''"
    using assms by (intro exI [of _ "[e]"] exI [of _ q']) (auto simp: emit_def)
qed

lemma traced_bind:
  assumes "traced q R m" "\<And>e q'. R (Inl e) q' \<Longrightarrow> Q (Inl e) q'" "\<And>x q'. R (Inr x) q' \<Longrightarrow> traced q' Q (f x)"
  shows "traced q Q (bind_io m f)"
proof (rule tracedI)
  fix s r s' assume run: "bind_io m f s = (r, s')"
  obtain r1 s1 where m: "m s = (r1, s1)" by (cases "m s")
  obtain es q1 where es: "vm_trace s1 = vm_trace s @ es" "vm_phases q es = Some q1" "R r1 q1"
    by (rule tracedD [OF assms(1) m])
  show "\<exists>es q'. vm_trace s' = vm_trace s @ es \<and> vm_phases q es = Some q' \<and> Q r q'"
  proof (cases r1)
    case (Inl e)
    with run m es assms(2) show ?thesis by (auto simp: bind_io_def)
  next
    case (Inr x)
    with run m have "f x s1 = (r, s')" by (simp add: bind_io_def)
    then obtain fs q2 where "vm_trace s' = vm_trace s1 @ fs" "vm_phases q1 fs = Some q2" "Q r q2"
      using tracedD [OF assms(3)] es(3) Inr by metis
    with es show ?thesis
      by (intro exI [of _ "es @ fs"] exI [of _ q2]) (simp add: vm_phases_append)
  qed
qed

lemma traced_catch:
  assumes "traced q R m" "\<And>y q'. R y q' \<Longrightarrow> traced q' Q (f y)"
  shows "traced q Q (catch_io m f)"
proof (rule tracedI)
  fix s r s' assume run: "catch_io m f s = (r, s')"
  obtain r1 s1 where m: "m s = (r1, s1)" by (cases "m s")
  obtain es q1 where es: "vm_trace s1 = vm_trace s @ es" "vm_phases q es = Some q1" "R r1 q1"
    by (rule tracedD [OF assms(1) m])
  from run m have "f r1 s1 = (r, s')" by (simp add: catch_io_def)
  then obtain fs q2 where "vm_trace s' = vm_trace s1 @ fs" "vm_phases q1 fs = Some q2" "Q r q2"
    using tracedD [OF assms(2)] es(3) by metis
  with es show "\<exists>es q'. vm_trace s' = vm_trace s @ es \<and> vm_phases q es = Some q' \<and> Q r q'"
    by (intro exI [of _ "es @ fs"] exI [of _ q2]) (simp add: vm_phases_append)
qed

text \<open>A step that leaves the phase as it is.\<close>

abbreviation stays :: "vm_phase \<Rightarrow> 'a vmio \<Rightarrow> bool" where
  "stays q \<equiv> traced q (\<lambda>r q'. q' = q)"

lemma traced_bind_stays [traced_intros]:
  assumes "stays q m" "\<And>e. Q (Inl e) q" "\<And>x. traced q Q (f x)"
  shows "traced q Q (bind_io m f)"
  using assms by (auto intro: traced_bind)

text \<open>A step that cannot fail and ends in a known phase.\<close>

abbreviation surely :: "vm_phase \<Rightarrow> vm_phase \<Rightarrow> unit vmio \<Rightarrow> bool" where
  "surely q p \<equiv> traced q (\<lambda>r q'. r = Inr () \<and> q' = p)"

lemma traced_bind_sure: "surely q p m \<Longrightarrow> (\<And>x. traced p Q (f x)) \<Longrightarrow> traced q Q (bind_io m f)"
  by (rule traced_bind [of q "\<lambda>r q'. r = Inr () \<and> q' = p"]) auto

lemma surely_emit: "vm_next q e = Some p \<Longrightarrow> surely q p (emit e)"
  by (simp add: traced_emit)

lemma surely_ignore: "surely q q (ignore (on_os m))"
  by (rule traced_quiet) (auto simp: ignore_def catch_io_def return_io_def on_os_def split: prod.splits)

lemma surely_traced: "surely q p m \<Longrightarrow> Q (Inr ()) p \<Longrightarrow> traced q Q m"
  unfolding traced_def by blast

lemma traced_defer_os [traced_intros]: "traced q Q m \<Longrightarrow> traced q Q (defer_io (on_os c) m)"
  by (auto simp: traced_def defer_io_def on_os_def split: prod.splits)

lemma traced_if [traced_intros]: "traced q Q a \<Longrightarrow> traced q Q b \<Longrightarrow> traced q Q (if c then a else b)"
  by simp

lemma traced_case_option [traced_intros]:
  "traced q Q a \<Longrightarrow> (\<And>x. traced q Q (b x)) \<Longrightarrow> traced q Q (case y of None \<Rightarrow> a | Some x \<Rightarrow> b x)"
  by (cases y) simp_all

lemma traced_case_sum [traced_intros]:
  "(\<And>e. traced q Q (a e)) \<Longrightarrow> (\<And>x. traced q Q (b x)) \<Longrightarrow> traced q Q (case y of Inl e \<Rightarrow> a e | Inr x \<Rightarrow> b x)"
  by (cases y) simp_all

lemma traced_case_prod [traced_intros]:
  "(\<And>x y. traced q Q (a x y)) \<Longrightarrow> traced q Q (case p of (x, y) \<Rightarrow> a x y)"
  by (cases p) simp

lemma traced_at: "(\<And>s. traced q Q (m s)) \<Longrightarrow> traced q Q (\<lambda>s. m s s)"
  by (simp add: traced_def)

lemma traced_wrap_os [traced_intros]: "(\<And>r. Q r q) \<Longrightarrow> traced q Q (wrap_io fmt args (on_os m))"
  by (rule traced_quiet) (auto simp: wrap_io_def on_os_def split: prod.splits)

section \<open>The QEMU engine\<close>

lemma reap_off: "surely (VOn st p) VOff (reap p)"
  unfolding reap_def
  by (rule traced_bind_sure [of _ "VOn st p"]) (auto simp: on_os_def intro!: traced_quiet surely_emit)

lemma terminate_sure: "st \<in> {Alive, Asked} \<Longrightarrow> surely (VOn st p) (VOn Termed p) (terminate p)"
  unfolding terminate_def by (rule traced_at) (auto intro: surely_emit)

lemma shutdown_off: "surely (VOn Alive p) VOff (shutdown env p qmp)"
proof -
  have kill: "surely (VOn st p) VOff (if env_powers_off env then reap p
      else bind_io (terminate p) (\<lambda>_. if env_terminates env then reap p else bind_io (emit (Kill p)) (\<lambda>_. reap p)))"
    if "st \<in> {Alive, Asked}" for st
    by (intro traced_if reap_off traced_bind_sure [OF terminate_sure [OF that]]
        traced_bind_sure [OF surely_emit [of "VOn Termed p" _ "VOn Killed p"]]) simp
  show ?thesis
  proof (cases qmp)
    case None
    show ?thesis
      unfolding shutdown_def None option.case
      by (rule traced_bind_sure [of _ "VOn Alive p"], rule traced_pure, simp, rule kill, simp)
  next
    case (Some c)
    show ?thesis
      unfolding shutdown_def Some option.case
      by (rule traced_bind_sure [OF surely_emit [of _ _ "VOn Asked p"]], simp, rule kill, simp)
  qed
qed

lemma supervise_off: "traced (VOn Alive p) (\<lambda>r q. q = VOff) (supervise env opts p serial qmp)"
proof -
  let ?sure = "surely (VOn Alive p) (VOn Alive p)"
  have wait: "?sure (wait_ready env opts)"
    unfolding wait_ready_def by (auto intro!: surely_emit split: option.split prod.split sum.split)
  have console: "?sure (console_session env opts)"
    unfolding console_session_def by (rule traced_at) (simp add: surely_emit)
  have services: "?sure (printServices opts)"
    unfolding printServices_def by (simp add: surely_emit traced_pure)
  have "?sure (if o_Console opts then (if serial then console_session env opts else return_io ())
        else bind_io (if o_Readiness opts \<noteq> [] then wait_ready env opts else return_io ()) (\<lambda>_.
             bind_io (printServices opts) (\<lambda>_. emit Running)))"
    by (intro traced_if traced_bind_sure [of _ "VOn Alive p"] wait console services surely_emit traced_pure) simp_all
  moreover have "traced (VOn Alive p) (\<lambda>r q. q = VOff) (case env_event env of
        GuestExit werr \<Rightarrow> bind_io (reap p) (\<lambda>_. (case werr of
            Some e \<Rightarrow> fail_io (Wrapf ''qemu exited: %w (see %s)'' [QEMULog (o_State opts)] e)
          | None \<Rightarrow> return_io ()))
      | Signalled \<Rightarrow> shutdown env p qmp
      | Cancelled \<Rightarrow> shutdown env p qmp)"
    by (auto split: wait_event.split intro!: traced_bind_sure [OF reap_off] traced_case_option traced_pure
        surely_traced [OF shutdown_off])
  ultimately show ?thesis
    unfolding supervise_def by (rule traced_bind_sure)
qed

text \<open>The start: off when it failed, one living process when it succeeded.\<close>

definition started_phase :: "(int \<times> string) result \<Rightarrow> vm_phase \<Rightarrow> bool" where
  "started_phase r q \<longleftrightarrow> (case r of Inl e \<Rightarrow> q = VOff | Inr (pid, a) \<Rightarrow> q = VOn Alive pid)"

lemma start_qemu_stays: "stays VOff (start_qemu env bin args logPath)"
proof -
  have c: "stays VOff (catch_io (on_os m) (\<lambda>_. fail_io e))" for m :: "unit io" and e
    by (rule traced_catch [of _ "\<lambda>r q. q = VOff"]) (auto intro: traced_intros)
  show ?thesis
    unfolding start_qemu_def spawn_proc_def
    by (cases "env_exec env bin args") (auto intro!: traced_bind_stays traced_on_os traced_pure c)
qed

lemma start_loop_phase: "traced VOff started_phase (start_loop env opts cands err)"
proof (induction cands arbitrary: err)
  case Nil
  show ?case unfolding start_loop.simps by (rule traced_pure) (simp add: started_phase_def)
next
  case (Cons accel cands)
  have started: "traced VOff started_phase
      (bind_io (emit (Started accel p)) (\<lambda>_. case env_grace env args of
         Some werr \<Rightarrow> bind_io (reap p) (\<lambda>_. bind_io (emit (Died accel p)) (\<lambda>_. start_loop env opts cands (e werr)))
       | None \<Rightarrow> return_io (p, accel)))" for p args e
    by (rule traced_bind_sure [OF surely_emit [of _ _ "VOn Alive p"]])
      (auto split: option.split simp: started_phase_def
        intro!: traced_pure traced_bind_sure [OF reap_off] traced_bind_sure [OF surely_emit [of VOff _ VOff]] Cons.IH)
  have attempt: "traced VOff started_phase (catch_io (start_qemu env bin args l) f)"
    if "\<And>y. traced VOff started_phase (f y)" for bin args l f
    by (rule traced_catch [OF start_qemu_stays]) (use that in simp)
  have failed: "traced VOff started_phase (fail_io e)" for e
    by (rule traced_pure) (simp add: started_phase_def)
  show ?case
    unfolding start_loop.simps by (intro traced_case_sum failed attempt Cons.IH started)
qed

lemma report_accel_sure: "surely (VOn Alive p) (VOn Alive p) (report_accel accel)"
proof -
  have "surely (VOn Alive p) (VOn Alive p) (if accel = ''tcg'' then bind_io (emit (Warned tcg_warning)) (\<lambda>_.
      if h \<noteq> [] then emit (Warned h) else return_io ()) else emit (Informed (accel_info accel)))" for h
    by (intro traced_if traced_pure surely_emit traced_bind_sure [of _ "VOn Alive p"]) simp_all
  then show ?thesis
    unfolding report_accel_def Let_def traced_def by blast
qed

lemma run_started_off: "traced (VOn Alive p) (\<lambda>r q. q = VOff) (run_started env opts ctl p accel)"
  unfolding run_started_def
  by (intro traced_bind_sure [OF surely_ignore] traced_bind_sure [OF report_accel_sure] traced_defer_os supervise_off)

text \<open>A run of the QEMU engine goes from no VM to no VM through the automaton.\<close>

lemma Run_phases: "stays VOff (Run env opts)"
proof -
  have started: "stays VOff (bind_io (startWithAccelFallback env o') (\<lambda>(pid, a). run_started env o' ctl pid a))"
    for o' ctl
    unfolding startWithAccelFallback_def Let_def
    by (rule traced_bind [OF start_loop_phase]) (auto simp: started_phase_def intro: run_started_off)
  have seed: "stays VOff (seed_path env o')" for o'
    unfolding seed_path_def
    by (auto intro!: traced_pure traced_bind_stays traced_wrap_os split: option.split)
  have ctl: "stays VOff (control_channels env st)" for st
    by (rule traced_quiet) (simp add: control_channels_def)
  have stale: "stays VOff (remove_stale c)" for c
    unfolding remove_stale_def by (auto intro: surely_traced [OF surely_ignore] traced_pure)
  have "stays VOff (run_disk_ready env o')" for o'
    unfolding run_disk_ready_def Let_def
    by (intro traced_bind_stays traced_case_prod seed ctl stale started) simp_all
  then show ?thesis
    unfolding Run_def Let_def by (intro traced_bind_stays traced_on_os traced_if traced_defer_os) simp_all
qed

section \<open>The native engine\<close>

text \<open>The supervising loop is sure to end when something that ends it is among its events.\<close>

definition vz_ends :: "framework \<Rightarrow> bool" where
  "vz_ends vf \<longleftrightarrow> (\<exists>e \<in> set (vf_events vf). e \<noteq> StateChanged VMOther)"

lemma vz_shutdown_off: "traced (VNative False) (\<lambda>r q. q = VOff) (vz_shutdown vf)"
  unfolding vz_shutdown_def
  by (rule traced_bind_sure [OF surely_emit [of _ _ "VNative True"]])
    (auto intro!: traced_if traced_pure traced_bind_sure [OF surely_emit [of _ _ VOff]])

lemma vz_loop_off:
  "\<exists>e \<in> set es. e \<noteq> StateChanged VMOther \<Longrightarrow> traced (VNative False) (\<lambda>r q. q = VOff) (vz_loop vf es)"
  by (induction vf es rule: vz_loop.induct)
    (auto intro!: traced_pure vz_shutdown_off traced_bind_sure [OF surely_emit [of _ _ VOff]])

lemma vz_Run_phases:
  assumes "vz_ends vf"
  shows "stays VOff (vz_Run vf opts)"
proof -
  have "traced (VNative False) (\<lambda>r q. q = VOff) (vz_loop vf (vf_events vf))"
    using assms by (intro vz_loop_off) (simp add: vz_ends_def)
  then have up: "stays VOff (bind_io (emit NativeStarted) (\<lambda>_. vz_loop vf (vf_events vf)))"
    by (rule traced_bind_sure [OF surely_emit, rotated]) simp
  have "stays VOff (vz_boot vf o' d)" for o' d
    unfolding vz_boot_def by (intro traced_bind_stays traced_pure traced_on_os up) simp_all
  then show ?thesis
    unfolding vz_Run_def Let_def
    by (intro traced_if traced_pure traced_bind_stays traced_on_os traced_defer_os) simp_all
qed

text \<open>A native VM that is interrupted and then stops by itself.\<close>

definition fw0 :: framework where
  "fw0 = \<lparr>vf_clonefile = (\<lambda>a b w. (Inr (), w\<lparr>files := fs_put (resolve w b) (File ''raw'') (files w)\<rparr>)),
     vf_call = (\<lambda>n. Inr ()), vf_rand = (\<lambda>n. Inr (replicate n 0)), vf_Validate = Inr True, vf_Start = Inr (),
     vf_events = [StateChanged VMOther, VSignal], vf_RequestStop = Inr (), vf_after = [VMOther, VMStopped],
     vf_Stop = Inr ()\<rparr>"

definition vz_launch0 :: vz_Options where
  "vz_launch0 = \<lparr>vo_Name = ''dvm'', vo_MemoryMB = 2048, vo_CPUs = 2, vo_KernelPath = ''/k'', vo_InitrdPath = ''/i'',
    vo_RootfsRawPath = ''/r'', vo_SeedPath = [], vo_KernelCmdline = [], vo_StateDir = ''/s'', vo_Persist = False,
    vo_Console = True, vo_Ports = [], vo_ReadinessGuestPorts = [], vo_ReadinessTimeout = 0, vo_Services = []\<rparr>"

lemma vz_run0: "vm_trace (snd (vz_Run fw0 vz_launch0 vm0)) = [NativeStarted, StopRequested (Inr ()), NativeStopped]"
  by code_simp

lemma fw0_ends: "vz_ends fw0"
  by (simp add: vz_ends_def fw0_def)

end
