(* ===== verification/Dvm_Whole.thy ===== *)
theory Dvm_Whole
  imports Dvm_Main VM_Protocol
begin

text \<open>
  Properties of the whole program, from the argument vector to the exit code: command line
  errors touch nothing, only \<open>start\<close> and \<open>console\<close> run a VM, no command leaves a child
  process behind. The lemmas lift what the components keep, call by call, to \<open>main\<close>.
\<close>

section \<open>Every operation keeps the set of children\<close>

lemma keeps_procs_more [keep_intros]:
  "keeps (procs_in P) (os_mkdir_all p)" "keeps (procs_in P) (os_create_excl p)"
  "keeps (procs_in P) (os_append p d)" "keeps (procs_in P) (io_copy p rd)"
  "keeps (procs_in P) (os_remove_all p)" "keeps (procs_in P) (os_rename p q)"
  "keeps (procs_in P) (os_create_temp p q z)"
  by (rule keeps_procs_frame; blast dest: os_mkdir_all_frame os_create_excl_frame os_append_frame
      io_copy_frame os_remove_all_frame os_rename_frame os_create_temp_frame)+

named_theorems keep_ops

lemma keep_state [keep_ops]:
  "keeps (procs_in P) (NewState d)" "keeps (procs_in P) (readPID d)" "keeps (procs_in P) (ReadPID st)"
  "keeps (procs_in P) (release_lock p)" "keeps (procs_in P) (write_lock p)"
proof -
  show "keeps (procs_in P) (NewState d)" "keeps (procs_in P) (release_lock p)" "keeps (procs_in P) (readPID d)"
    unfolding NewState_def readPID_def release_lock_def by (intro keep_intros)+
  then show "keeps (procs_in P) (ReadPID st)" unfolding ReadPID_def readPID_def by (intro keep_intros)
  show "keeps (procs_in P) (write_lock p)" unfolding write_lock_def by (rule keeps_at) (intro keep_intros)
qed

lemma keep_lock [keep_ops]: "keeps (procs_in P) (AcquireLock st)"
proof -
  have "keeps (procs_in P) (lock_attempts n st)" for n
  proof (induction n)
    case 0
    show ?case unfolding lock_attempts.simps by (intro keep_intros)
  next
    case (Suc n)
    have "keeps (procs_in P) (\<lambda>w. (if 0 < pid \<and> processAlive w pid then fail_io (lock_held_error st pid) w
           else bind_io (wrap_io ''remove stale lock: %w'' [] (os_remove (LockPath st))) (\<lambda>_.
                lock_attempts n st) w))" for pid
      by (rule keeps_at [where m = "\<lambda>w. if 0 < pid \<and> processAlive w pid then fail_io (lock_held_error st pid)
           else bind_io (wrap_io ''remove stale lock: %w'' [] (os_remove (LockPath st))) (\<lambda>_. lock_attempts n st)",
           simplified if_distrib [of "\<lambda>f. f _"]]) (intro keep_intros Suc)
    then show ?case unfolding lock_attempts.simps by (intro keep_intros keep_ops)
  qed
  then show ?thesis by (simp add: AcquireLock_def)
qed

lemma keep_fetch [keep_ops]: "keeps (procs_in P) (Fetch reg p n r)"
  unfolding Fetch_def Let_def PutStream_def put_body_def Has_def by (intro keep_intros)

lemma keep_resolve [keep_ops]: "keeps (procs_in P) (resolve3 (Fetch reg p) k i r)"
proof -
  have "keeps (procs_in P) (ParseRef s)" "keeps (procs_in P) (Abs s)" for s
    by (rule keepsI; metis ParseRef_total Abs_run frame_def procs_in_def prod.sel(2))+
  note parse = this
  have "keeps (procs_in P) (Resolve (Some (Fetch reg p)) n s)" for n s
  proof -
    have c: "keeps (procs_in P) (case ref_Kind x of KindLocal \<Rightarrow> m | KindOCI \<Rightarrow> q)"
      if "keeps (procs_in P) m" "keeps (procs_in P) q" for x and m q :: "Component io"
      using that by (cases "ref_Kind x") simp_all
    show ?thesis unfolding Resolve_def option.case by (intro keep_intros c keep_ops parse)
  qed
  then show ?thesis unfolding resolve3_def by (intro keep_intros)
qed

lemma keep_extract: "keeps (procs_in P) (extractTarGz untar tgz dest)"
proof -
  have e: "keeps (procs_in P) (extract_entry dest hdr)" for hdr
    unfolding extract_entry_def Let_def by (cases "hdr_Typeflag hdr") (simp_all add: keep_intros)
  have "keeps (procs_in P) (extract_entries dest hs x)" for hs x
    by (induction hs) (simp_all add: keep_intros e split: option.split)
  then show ?thesis unfolding extractTarGz_def by (intro keep_intros)
qed

lemma keep_qemu [keep_ops]: "keeps (procs_in P) (EnsureQEMU h untar root)"
  unfolding EnsureQEMU_def Let_def downloadToTemp_def check_and_install_def verifySHA256_def install_qemu_def
  by (rule keeps_at) (intro keep_intros keep_extract)

lemma keep_app [keep_ops]:
  "keeps (procs_in P) (New_app wd f)" "keeps (procs_in P) (qemuPaths wd a)"
  "keeps (procs_in P) (buildSeed a)" "keeps (procs_in P) (Status a)" "keeps (procs_in P) (Clean_app a b)"
proof -
  have cfg: "keeps (procs_in P) (first_config ps)" for ps
  proof (induction ps)
    case (Cons p ps)
    then show ?case unfolding first_config.simps is_config_file_def by (intro keep_intros)
  qed (unfold first_config.simps, intro keep_intros)
  have "keeps (procs_in P) (resolveConfigPath p)" for p
    by (rule keepsI) (use keepsD [OF cfg] in \<open>simp add: resolveConfigPath_def return_io_def\<close>)
  note path = this
  have "keeps (procs_in P) (LoadConfig h u p)" for h u p
    unfolding LoadConfig_def readConfigSource_def by (intro keep_intros path)
  note load = this
  show "keeps (procs_in P) (New_app wd f)"
    unfolding New_app_def Let_def by (rule keeps_at) (intro keep_intros load)
  have "keeps (procs_in P) (Abs s)" for s by (rule keepsI) (metis Abs_run prod.sel(2))
  note abs = this
  show "keeps (procs_in P) (qemuPaths wd a)"
    unfolding qemuPaths_def Let_def
    by (rule keeps_bind [OF keeps_if [OF keep_qemu keeps_basic(1)]], rule keeps_bind [OF abs], rule keeps_at)
      (intro keep_intros)
  show "keeps (procs_in P) (buildSeed a)"
    unfolding buildSeed_def Let_def by (intro keep_intros abs)
  show "keeps (procs_in P) (Status a)" "keeps (procs_in P) (Clean_app a b)"
    unfolding Status_def Clean_app_def by (intro keep_intros keep_ops)+
qed

section \<open>The two engines\<close>

text \<open>The resolver an application builds is the OCI fetcher of its registry.\<close>

lemma app_resolver_ok: "app_resolver wd a w = (Inr f, w') \<Longrightarrow> \<exists>p. f = Fetch (wd_registry wd) p"
  by (auto simp: app_resolver_def bind_io_ok)

lemma keep_app_resolver [keep_ops]: "keeps (procs_in P) (app_resolver wd a)"
  unfolding app_resolver_def New_cache_def
  by (intro keep_intros keeps_at [where m = "\<lambda>w. return_io (F w)" for F])

lemma keep_resolver_vm:
  assumes "\<And>p. keeps (vm_procs_in P) (f (Fetch (wd_registry wd) p))"
  shows "keeps (vm_procs_in P) (bind_io (on_os (app_resolver wd a)) f)"
proof (rule keeps_bind_ok [OF keeps_on_os [OF keep_app_resolver]])
  show "keeps (vm_procs_in P) (f x)" if "on_os (app_resolver wd a) s = (Inr x, s')" for x s s'
    using that assms by (auto simp: on_os_run dest!: app_resolver_ok)
qed

definition clone_quiet :: "framework \<Rightarrow> bool" where
  "clone_quiet vf \<longleftrightarrow> (\<forall>a b w. procs (snd (vf_clonefile vf a b w)) = procs w)"

lemma keep_vz:
  assumes "env_quiet env" "clone_quiet vf"
  shows "keeps (vm_procs_in P) (vz_locked vf env a st krn initrd rootfs)"
proof -
  have cl: "keeps (procs_in P) (vf_clonefile vf x y)" for x y
    using assms(2) by (simp add: keeps_def clone_quiet_def procs_in_def)
  have ov: "keeps (procs_in P) (ensureOverlay (vf_clonefile vf) base dst pst)" for base dst pst
    unfolding ensureOverlay_def Let_def copyFile_def by (intro keep_intros cl)
  have down: "keeps (vm_procs_in P) (vz_shutdown vf)" for vf
    unfolding vz_shutdown_def by (intro keep_intros)
  have loop: "keeps (vm_procs_in P) (vz_loop vf es)" for vf es
    by (induction vf es rule: vz_loop.induct) (unfold vz_loop.simps, (intro keep_intros down | assumption)+)
  have boot: "keeps (vm_procs_in P) (vz_boot vf opts d)" for opts d
    unfolding vz_boot_def serialFiles_def by (intro keep_intros loop)
  have "keeps (vm_procs_in P) (vz_Run vf opts)" for opts
    unfolding vz_Run_def Let_def by (intro keep_intros ov boot)
  then show ?thesis
    unfolding vz_locked_def by (intro keep_intros keep_ops keeps_dfs assms(1))
qed

lemma keep_startVZ:
  assumes "env_quiet (wd_env wd)" "\<And>vf. wd_vz wd = Some vf \<Longrightarrow> clone_quiet vf"
  shows "keeps (vm_procs_in P) (startVZ wd a)"
proof (cases "wd_vz wd")
  case None
  then show ?thesis unfolding startVZ_def Let_def vz_Supported_def by (simp add: keep_intros)
next
  case (Some vf)
  show ?thesis
    unfolding startVZ_def Let_def Some option.case
    by (intro keep_resolver_vm keep_intros keep_ops keep_vz assms Some)
qed

lemma keep_startQEMU:
  assumes "env_quiet (wd_env wd)"
  shows "keeps (vm_procs_in P) (startQEMU wd a)"
proof -
  have run: "keeps (vm_procs_in P) (\<lambda>s. Run (wd_env wd) (opts s) s)" for opts
    by (rule keeps_at [OF Run_keeps_procs [OF assms]])
  have "keeps (vm_procs_in P) (qemu_locked wd a st bins k i r)" for st bins k i r
    unfolding qemu_locked_def by (intro keep_intros keep_ops run)
  note locked = this
  show ?thesis
    unfolding startQEMU_def Let_def
    by (intro keep_resolver_vm keep_intros keep_ops locked)
qed

lemma keep_runCommand:
  assumes "env_quiet (wd_env wd)" "\<And>vf. wd_vz wd = Some vf \<Longrightarrow> clone_quiet vf"
  shows "keeps (vm_procs_in P) (runCommand wd command args)"
proof -
  have st: "keeps (vm_procs_in P) (Start wd a)" for a
    unfolding Start_def by (intro keep_intros keep_startQEMU keep_startVZ assms)
  have "keeps (vm_procs_in P) (command_body wd command f b)" for f b
    unfolding command_body_def by (intro keep_intros keep_ops st)
  then show ?thesis
    unfolding runCommand_def
    by (cases "parse_flags (flag_table command) args cli_default") (simp_all add: keep_intros)
qed

section \<open>The process and its children\<close>

text \<open>How \<open>main\<close> ends: without running a command, or with the outcome of one.\<close>

lemma main_cases:
  assumes "main wd b argv s = ((code, out), s')"
  obtains (quiet) "s' = s" "fst (split_command argv) \<notin> set command_names"
  | (ran) r where "fst (split_command argv) \<in> set command_names"
      "runCommand wd (fst (split_command argv)) (snd (split_command argv)) s = (r, s')"
      "code = (case r of Inl e \<Rightarrow> 1 | Inr (Returned ls) \<Rightarrow> 0 | Inr (Exited n) \<Rightarrow> n)"
proof (cases "fst (split_command argv) \<in> set command_names")
  case False
  with assms show ?thesis
    by (intro quiet) (auto simp: main_def split: prod.splits if_splits)
next
  case True
  then have nv: "fst (split_command argv) \<noteq> ''version''" by (auto simp: command_names_def)
  obtain r s1 where r: "runCommand wd (fst (split_command argv)) (snd (split_command argv)) s = (r, s1)"
    by (cases "runCommand wd (fst (split_command argv)) (snd (split_command argv)) s")
  with assms True nv show ?thesis
    by (intro ran [of r]) (auto simp: main_def split: prod.splits sum.splits run_end.splits)
qed

text \<open>C13. No command leaves a child process behind: whatever the arguments, the configuration,
  the downloads, the guest and the I/O faults, when the process exits it has no child it did
  not start with.\<close>

theorem main_leaves_no_child:
  assumes "env_quiet (wd_env wd)" "\<And>vf. wd_vz wd = Some vf \<Longrightarrow> clone_quiet vf"
    "main wd b argv s = (outcome, s')"
  shows "set (procs (vm_os s')) \<subseteq> set (procs (vm_os s))"
proof -
  obtain code out where e: "main wd b argv s = ((code, out), s')" using assms(3) by (cases outcome) simp
  then show ?thesis
  proof (cases rule: main_cases)
    case (ran r)
    have "keeps (vm_procs_in (set (procs (vm_os s)))) (runCommand wd (fst (split_command argv)) (snd (split_command argv)))"
      using assms(1,2) by (rule keep_runCommand)
    from keeps_run [OF this ran(2)] show ?thesis by (simp add: vm_procs_in_def procs_in_def)
  qed simp
qed

theorem main_leaves_no_child_witness:
  "\<exists>out s'. main world0 \<lparr>bd_AppVersion = ''dev'', bd_GitCommit = [], bd_BuildDate = [], bd_Settings = None\<rparr>
       [''start'', ''--kernel=/k''] vm0 = (out, s') \<and> set (procs (vm_os s')) \<subseteq> {100, 200}"
proof -
  let ?b = "\<lparr>bd_AppVersion = ''dev'', bd_GitCommit = [], bd_BuildDate = [], bd_Settings = None\<rparr>"
  obtain out s' where e: "main world0 ?b [''start'', ''--kernel=/k''] vm0 = (out, s')"
    by (cases "main world0 ?b [''start'', ''--kernel=/k''] vm0")
  have q: "env_quiet (wd_env world0)" using env0_quiet by (simp add: world0_def)
  have v: "clone_quiet vf" if "wd_vz world0 = Some vf" for vf using that by (simp add: world0_def)
  have "procs (vm_os vm0) = [100, 200]" by (simp add: vm0_def)
  with main_leaves_no_child [OF q v e] e show ?thesis by auto
qed

text \<open>C23. Only \<open>start\<close> (the default) and \<open>console\<close> run a VM: for every other command, valid or
  not, no VM event happens, whatever is on the disk and whatever the flags say.\<close>

theorem only_start_runs_a_vm:
  "case main wd b argv s of (outcome, s') \<Rightarrow>
     fst (split_command argv) = ''start'' \<or> fst (split_command argv) = ''console'' \<or> vm_trace s' = vm_trace s"
proof -
  let ?c = "fst (split_command argv)"
  obtain code out s' where e: "main wd b argv s = ((code, out), s')" by (metis prod.exhaust)
  have "vm_trace s' = vm_trace s" if "?c \<noteq> ''start''" "?c \<noteq> ''console''"
    using e
  proof (cases rule: main_cases)
    case (ran r)
    let ?T = "\<lambda>x. vm_trace x = vm_trace s"
    have os_a: "keeps ?T (on_os m)" for m :: "App io" by (simp add: keeps_def on_os_def split: prod.split)
    have os_l: "keeps ?T (on_os m)" for m :: "string list io" by (simp add: keeps_def on_os_def split: prod.split)
    have os_u: "keeps ?T (on_os m)" for m :: "unit io" by (simp add: keeps_def on_os_def split: prod.split)
    have "?c = ''status'' \<or> ?c = ''clean'' \<or> ?c = ''stop''"
      using ran(1) that by (auto simp: command_names_def)
    then have "keeps ?T (command_body wd ?c f ws)" for f ws
      unfolding command_body_def by (elim disjE) (simp_all add: keep_intros os_a os_l os_u)
    then have "keeps ?T (runCommand wd ?c (snd (split_command argv)))"
      unfolding runCommand_def
      by (cases "parse_flags (flag_table ?c) (snd (split_command argv)) cli_default") (simp_all add: keep_intros)
    from keeps_run [OF this ran(2)] show ?thesis by simp
  qed simp
  with e show ?thesis by auto
qed

section \<open>The protocol of the VMs\<close>

lemma Start_phases:
  assumes "\<And>vf. wd_vz wd = Some vf \<Longrightarrow> vz_ends vf"
  shows "stays VOff (Start wd a)"
proof -
  have run: "stays VOff (\<lambda>s. Run (wd_env wd) (opts s) s)" for opts
    by (rule traced_at [OF Run_phases])
  have q: "stays VOff (qemu_locked wd a st bins k i rt)" for st bins k i rt
    unfolding qemu_locked_def by (intro traced_intros run) simp_all
  have qemu: "stays VOff (startQEMU wd a)"
    unfolding startQEMU_def Let_def by (intro traced_intros q) simp_all
  have v: "stays VOff (vz_locked vf env a st k i rt)" if "wd_vz wd = Some vf" for vf env st k i rt
    unfolding vz_locked_def by (intro traced_intros vz_Run_phases assms that) simp_all
  have "stays VOff (startVZ wd a)"
    unfolding startVZ_def Let_def
    by (cases "wd_vz wd") (simp_all, (intro conjI impI traced_intros v; simp)+)
  with qemu show ?thesis unfolding Start_def by (auto intro!: traced_bind_stays traced_pure)
qed

text \<open>C14. Every launch follows the protocol of its VMs, from none to none: whatever the command
  line, the downloads, the guest, the user and the faults, the events of the process are a run
  of the automaton: one VM at a time, each QEMU process reaped once and asked, signalled and
  killed in this order, a native VM forced only after it was asked, and none left at the end,
  provided the events of a native VM end it at all.\<close>

theorem main_follows_protocol:
  assumes "\<And>vf. wd_vz wd = Some vf \<Longrightarrow> vz_ends vf" "main wd b argv s = (outcome, s')"
  shows "\<exists>es. vm_trace s' = vm_trace s @ es \<and> vm_phases VOff es = Some VOff"
proof -
  obtain code out where e: "main wd b argv s = ((code, out), s')" using assms(2) by (cases outcome) simp
  then show ?thesis
  proof (cases rule: main_cases)
    case (ran r)
    have start: "stays VOff (Start wd a)" for a by (rule Start_phases) (rule assms(1))
    have "stays VOff (command_body wd c f ws)" for c f ws
      unfolding command_body_def by (intro traced_intros start) simp_all
    then have "stays VOff (runCommand wd c args)" for c args
      unfolding runCommand_def
      by (cases "parse_flags (flag_table c) args cli_default") (simp_all add: traced_pure)
    from tracedD [OF this ran(2)] show ?thesis by metis
  qed auto
qed

theorem main_follows_protocol_witness:
  "\<exists>out s'. main (world0\<lparr>wd_vz := Some fw0, wd_macos := Inr ''14.1''\<rparr>)
       \<lparr>bd_AppVersion = ''dev'', bd_GitCommit = [], bd_BuildDate = [], bd_Settings = None\<rparr>
       [''start'', ''--engine=vz'', ''--kernel=/k''] vm0 = (out, s') \<and> vm_phases VOff (vm_trace s') = Some VOff"
proof -
  let ?w = "world0\<lparr>wd_vz := Some fw0, wd_macos := Inr ''14.1''\<rparr>"
  let ?b = "\<lparr>bd_AppVersion = ''dev'', bd_GitCommit = [], bd_BuildDate = [], bd_Settings = None\<rparr>"
  let ?a = "[''start'', ''--engine=vz'', ''--kernel=/k'']"
  obtain out s' where e: "main ?w ?b ?a vm0 = (out, s')" by (cases "main ?w ?b ?a vm0")
  have v: "vz_ends vf" if "wd_vz ?w = Some vf" for vf using that fw0_ends by simp
  have "vm_trace vm0 = []" by (simp add: vm0_def)
  with main_follows_protocol [OF v e] e show ?thesis by auto
qed

section \<open>The command line\<close>

text \<open>The command is never a flag, so \<open>main\<close>'s cases \<open>-h\<close> and \<open>--help\<close> are never taken; both
  reach the flag parser of \<open>start\<close>.\<close>

lemma command_is_no_flag: "\<not> HasPrefix (fst (split_command argv)) ''-''"
  by (cases argv) (auto simp: split_command_def)

lemma help_flag_is_start: "split_command [''-h''] = (''start'', [''-h''])"
  "split_command [''--help''] = (''start'', [''--help''])"
  by code_simp+

text \<open>Arguments after the first that is no flag are ignored, flags included.\<close>

lemma positional_ignored:
  "length pos < 2 \<or> hd pos \<noteq> CHR ''-'' \<Longrightarrow> runCommand wd command (pos # args) = runCommand wd command []"
  by (auto simp: runCommand_def)

text \<open>C21. Exit codes: 2 exactly for a command line in error (an unknown command, or flags the
  parser rejects), and then nothing was touched; 1 exactly when the command itself failed.\<close>

theorem main_exit_codes:
  assumes "main wd b argv s = ((code, out), s')" "split_command argv = (command, args)"
  defines "known \<equiv> command \<in> set command_names"
    and "bad \<equiv> \<exists>e. parse_flags (flag_table command) args cli_default = Bad e"
  shows "code \<in> {0, 1, 2} \<and>
    (code = 2 \<longleftrightarrow> (if known then bad else command \<noteq> ''version'' \<and> command \<noteq> ''help'')) \<and>
    (code = 2 \<longrightarrow> s' = s) \<and>
    (code = 1 \<longleftrightarrow> known \<and> (\<exists>e. runCommand wd command args s = (Inl e, s')))"
proof (cases known)
  case False
  have "\<not> HasPrefix command ''-''" using command_is_no_flag [of argv] assms(2) by simp
  then have "command \<noteq> ''-h''" "command \<noteq> ''--help''" by auto
  with assms(1,2) False show ?thesis by (auto simp: main_def known_def split: if_splits)
next
  case True
  then have nv: "command \<noteq> ''version''" by (auto simp: known_def command_names_def)
  obtain r s1 where r: "runCommand wd command args s = (r, s1)" by (cases "runCommand wd command args s")
  have run: "s1 = s'" "code = (case r of Inl e \<Rightarrow> 1 | Inr (Returned ls) \<Rightarrow> 0 | Inr (Exited n) \<Rightarrow> n)"
    using assms(1,2) True nv r by (auto simp: main_def known_def split: sum.splits run_end.splits)
  show ?thesis
  proof (cases "parse_flags (flag_table command) args cli_default")
    case (Parsed c rest)
    have "r \<noteq> Inr (Exited n)" for n
      using r Parsed by (auto simp: runCommand_def command_body_def bind_io_ok split: if_splits)
    with run True r Parsed show ?thesis
      by (cases r) (auto simp: bad_def split: run_end.splits)
  next
    case Help
    with r run True show ?thesis by (auto simp: runCommand_def bad_def io_simps)
  next
    case (Bad e)
    with r run True show ?thesis by (auto simp: runCommand_def bad_def io_simps)
  qed
qed

theorem main_exit_codes_witness:
  "\<exists>out. main world0 \<lparr>bd_AppVersion = ''dev'', bd_GitCommit = [], bd_BuildDate = [], bd_Settings = None\<rparr>
     [''status'', ''--cpus'', ''two''] vm0 = ((2, out), vm0)"
proof -
  let ?b = "\<lparr>bd_AppVersion = ''dev'', bd_GitCommit = [], bd_BuildDate = [], bd_Settings = None\<rparr>"
  let ?argv = "[''status'', ''--cpus'', ''two'']"
  obtain code out s' where e: "main world0 ?b ?argv vm0 = ((code, out), s')" by (metis prod.exhaust)
  have sc: "split_command ?argv = (''status'', [''--cpus'', ''two''])" by code_simp
  have "case parse_flags (flag_table ''status'') [''--cpus'', ''two''] cli_default of Bad e \<Rightarrow> True | _ \<Rightarrow> False"
    by code_simp
  then have "\<exists>e. parse_flags (flag_table ''status'') [''--cpus'', ''two''] cli_default = Bad e"
    by (auto split: parsed.splits)
  moreover have "''status'' \<in> set command_names" by (simp add: command_names_def)
  ultimately show ?thesis using main_exit_codes [OF e sc] e by auto
qed

text \<open>Setting flags one after the other, as the parser does.\<close>

fun set_flags :: "(string \<times> 'c flag_kind) list \<Rightarrow> (string \<times> string) list \<Rightarrow> 'c \<Rightarrow> 'c option" where
  "set_flags t [] c = Some c"
| "set_flags t ((n, v) # ps) c = (case map_of t n of None \<Rightarrow> None
     | Some k \<Rightarrow> (case set_value k v c of None \<Rightarrow> None | Some c' \<Rightarrow> set_flags t ps c'))"

lemma flag_table_names: "map_of (flag_table command) n \<noteq> None \<Longrightarrow> flag_name n"
proof -
  assume "map_of (flag_table command) n \<noteq> None"
  then have "n \<in> fst ` set (flag_table command)" by (meson map_of_eq_None_iff)
  moreover have "list_all flag_name (map fst (flag_table ''clean''))" by code_simp
  moreover have "set (flag_table command) \<subseteq> set (flag_table ''clean'')" by (auto simp: flag_table_def)
  ultimately show ?thesis by (auto simp: list_all_iff)
qed



end
