(* ===== verification/App_Launch.thy ===== *)
theory App_Launch
  imports App_Run
begin

text \<open>
  Well-formed launches. A specification is well formed when the command line can be built of
  it; an application that was built, with the binaries \<open>qemuPaths\<close> found and the components
  \<open>resolve3\<close> resolved, hands \<open>Run\<close> only options whose specification stays well formed for
  every accelerator that \<open>Run\<close> may try.
\<close>

section \<open>Well-formed specifications\<close>

definition spec_wt :: "Spec \<Rightarrow> bool" where
  "spec_wt s \<longleftrightarrow> [] \<notin> {sp_QEMUBin s, sp_KernelPath s, sp_InitrdPath s, sp_DrivePath s} \<and> sp_Net s \<noteq> None"

lemma BuildArgs_wt: "(\<exists>args. BuildArgs s = Inr args) \<longleftrightarrow> spec_wt s"
  by (auto simp: BuildArgs_def spec_wt_def Let_def split: option.splits prod.splits)

definition opts_wt :: "Options \<Rightarrow> bool" where
  "opts_wt opts \<longleftrightarrow> o_AccelCandidates opts \<noteq> [] \<and> IsAbs (OverlayPath (o_State opts)) \<and>
     (\<forall>sd ser qmp a. spec_wt ((run_spec opts sd ser qmp)\<lparr>sp_Accel := a\<rparr>))"

lemma opts_wt_iff: "opts_wt opts \<longleftrightarrow> o_AccelCandidates opts \<noteq> [] \<and> IsAbs (OverlayPath (o_State opts)) \<and>
    [] \<notin> {o_QEMUBin opts, sp_KernelPath (o_Spec opts), sp_InitrdPath (o_Spec opts)} \<and> sp_Net (o_Spec opts) \<noteq> None"
  by (auto simp: opts_wt_def spec_wt_def run_spec_def)

section \<open>The parts of a launch\<close>

lemma Join_nonempty: "cs \<noteq> [] \<Longrightarrow> [] \<notin> set cs \<Longrightarrow> Join cs sep \<noteq> []"
  by (cases "(cs, sep)" rule: Join.cases) auto

lemma Clean_nonempty: "Clean p \<noteq> []"
proof -
  obtain n qs where c: "clean_comps False [] (Split p CHR ''/'') = dots n @ qs" "list_all plain qs"
    by (rule clean_comps_unrooted0)
  then have "[] \<notin> set (dots n @ qs)" by (auto simp: dots_def list_all_iff plain_def)
  with c(1) Join_nonempty show ?thesis by (simp add: Clean_def Let_def)
qed

lemma JoinPath_eq_Nil: "JoinPath xs = [] \<longleftrightarrow> (\<forall>x \<in> set xs. x = [])"
proof -
  have "JoinPath xs = [] \<longleftrightarrow> dropWhile (\<lambda>e. e = []) xs = []"
    unfolding JoinPath_def using Clean_nonempty by (cases "dropWhile (\<lambda>e. e = []) xs") (simp_all only: list.case simp_thms list.distinct)
  then show ?thesis by (simp add: dropWhile_eq_Nil_conv)
qed

lemma qemuPaths_named: "qemuPaths wd a w = (Inr bins, w') \<Longrightarrow> fst bins \<noteq> []"
  by (auto simp: qemuPaths_def Let_def bind_io_ok SystemBinaryName_def JoinPath_eq_Nil split: if_splits)

lemma candidates_nonempty: "qemu_candidates wd a w \<noteq> []"
proof -
  have "''tcg'' \<in> set (AccelCandidates os kvm pref)" for os kvm pref
    by (simp add: AccelCandidates_nub usable_def)
  then have "AccelCandidates os kvm pref \<noteq> []" for os kvm pref by (metis empty_iff empty_set)
  then show ?thesis by (auto simp: qemu_candidates_def Let_def)
qed

text \<open>An application that was built: what the other commands rely on.\<close>

definition app_wt :: "App \<Rightarrow> bool" where
  "app_wt a \<longleftrightarrow> Validate (app_Cfg a) = Inr () \<and> app_engine a \<in> {''auto'', ''qemu'', ''vz''} \<and>
     IsAbs (dirs_Cache (app_Dirs a)) \<and> IsAbs (dirs_State (app_Dirs a))"

lemma New_app_wt: "New_app wd f w = (Inr a, w') \<Longrightarrow> IsAbs (cwd w) \<Longrightarrow> app_wt a"
  by (auto simp: New_app_def Let_def bind_io_ok app_wt_def app_dirs_def AbsPath_abs split: if_splits)

lemma app_wt_guest: "app_wt a \<Longrightarrow> 0 < gu_MemoryMB (cfg_Guest (app_Cfg a)) \<and> 0 < gu_CPUs (cfg_Guest (app_Cfg a))"
  by (auto simp: app_wt_def Validate_def split: if_splits)

lemma app_wt_state: "app_wt a \<Longrightarrow> IsAbs (OverlayPath (app_state a))"
  by (simp add: app_wt_def app_state_def OverlayPath_def StateInstance_def)

section \<open>Resolving keeps the working directory\<close>

definition at_cwd :: "string \<Rightarrow> os \<Rightarrow> bool" where
  "at_cwd d w \<longleftrightarrow> cwd w = d"

lemma keeps_cwd_frame: "(\<And>w r w'. m w = (r, w') \<Longrightarrow> \<exists>S. frame w S w') \<Longrightarrow> keeps (at_cwd d) m"
  by (rule keepsI) (metis frame_def at_cwd_def prod.collapse)

lemma keeps_cwd_calls [keep_intros]:
  "keeps (at_cwd d) (os_stat p)" "keeps (at_cwd d) (os_remove p)" "keeps (at_cwd d) (os_close p)"
  "keeps (at_cwd d) (os_mkdir_all p)" "keeps (at_cwd d) (io_copy p rd)" "keeps (at_cwd d) (os_rename p q)"
  "keeps (at_cwd d) (os_create_temp p q z)"
  by (rule keeps_cwd_frame; blast dest: os_stat_frame os_remove_frame os_close_frame os_mkdir_all_frame
      io_copy_frame os_rename_frame os_create_temp_frame)+

lemma keeps_cwd_resolve: "keeps (at_cwd d) (Resolve (Some (Fetch reg p)) n s)"
proof -
  have fetch: "keeps (at_cwd d) (Fetch reg p n r)" for r
    unfolding Fetch_def Let_def PutStream_def put_body_def Has_def by (intro keep_intros)
  have parse: "keeps (at_cwd d) (ParseRef s)" "keeps (at_cwd d) (Abs s)" for s
    by (rule keepsI; metis ParseRef_total Abs_run at_cwd_def prod.sel(2))+
  have kind: "keeps (at_cwd d) (case ref_Kind x of KindLocal \<Rightarrow> m | KindOCI \<Rightarrow> q)"
    if "keeps (at_cwd d) m" "keeps (at_cwd d) q" for x and m q :: "Component io"
    using that by (cases "ref_Kind x") simp_all
  show ?thesis unfolding Resolve_def option.case by (intro keep_intros kind fetch parse)
qed

lemma Resolve_path:
  assumes "cache_ok (pull_cache p) w" "IsAbs (cwd w)" "Resolve (Some (Fetch reg p)) n s w = (Inr c, w')"
  shows "cache_ok (pull_cache p) w' \<and> IsAbs (cwd w') \<and> IsAbs (comp_Path c)"
proof -
  have "at_cwd (cwd w) w'" using keeps_run [OF keeps_cwd_resolve assms(3)] by (simp add: at_cwd_def)
  with assms(2) oci_fetcher.resolve_inv [OF assms(1,3)] oci_fetcher.resolve_ok [OF assms]
  show ?thesis by (simp add: at_cwd_def)
qed

lemma resolve3_paths:
  assumes "resolve3 (Fetch reg p) krn initrd rootfs w = (Inr (k, i, r), w')" "cache_ok (pull_cache p) w" "IsAbs (cwd w)"
  shows "IsAbs (comp_Path k) \<and> IsAbs (comp_Path i) \<and> IsAbs (comp_Path r)"
proof -
  obtain w1 w2 where s: "Resolve (Some (Fetch reg p)) ''kernel'' krn w = (Inr k, w1)"
    "Resolve (Some (Fetch reg p)) ''initrd'' initrd w1 = (Inr i, w2)"
    "Resolve (Some (Fetch reg p)) ''rootfs'' rootfs w2 = (Inr r, w')"
    using assms(1) by (auto simp: resolve3_def bind_io_ok)
  note k = Resolve_path [OF assms(2,3) s(1)]
  note i = Resolve_path [OF conjunct1 [OF k] conjunct1 [OF conjunct2 [OF k]] s(2)]
  note r = Resolve_path [OF conjunct1 [OF i] conjunct1 [OF conjunct2 [OF i]] s(3)]
  from k i r show ?thesis by blast
qed

section \<open>Launches of built applications\<close>

text \<open>C19. A launch is well typed from the flags to the command line: an application
  that \<open>New\<close> built has a valid configuration, a known engine and absolute directories; with the binaries
  \<open>qemuPaths\<close> found and the components \<open>resolve3\<close> resolved, the options \<open>startQEMU\<close> hands to
  \<open>Run\<close> have at least one accelerator to try, and for every accelerator, seed and pair of
  control channels \<open>BuildArgs\<close> succeeds on the specification \<open>Run\<close> completes.\<close>

theorem launch_well_typed:
  assumes "New_app wd f w0 = (Inr a, w1)" "IsAbs (cwd w0)" "qemuPaths wd a w2 = (Inr bins, w3)"
    "resolve3 (Fetch reg p) krn initrd rootfs w4 = (Inr (k, i, r), w5)" "cache_ok (pull_cache p) w4" "IsAbs (cwd w4)"
  shows "let opts = run_defaults (launch_options wd a w5 (app_state a) bins (comp_Path k) (comp_Path i) (comp_Path r) sp img)
    in app_wt a \<and> o_AccelCandidates opts \<noteq> [] \<and> IsAbs (OverlayPath (o_State opts)) \<and>
      0 < sp_MemoryMB (o_Spec opts) \<and> 0 < sp_CPUs (o_Spec opts) \<and>
      (\<forall>sd ser qmp accel. \<exists>args. BuildArgs ((run_spec opts sd ser qmp)\<lparr>sp_Accel := accel\<rparr>) = Inr args)"
proof -
  let ?opts = "run_defaults (launch_options wd a w5 (app_state a) bins (comp_Path k) (comp_Path i) (comp_Path r) sp img)"
  have a: "app_wt a" by (rule New_app_wt [OF assms(1,2)])
  have "opts_wt ?opts"
    using app_wt_state [OF a] candidates_nonempty qemuPaths_named [OF assms(3)] resolve3_paths [OF assms(4-6)]
    by (auto simp: opts_wt_iff run_defaults_def launch_options_def qemu_spec_def Let_def)
  moreover have "0 < sp_MemoryMB (o_Spec ?opts)" "0 < sp_CPUs (o_Spec ?opts)"
    using app_wt_guest [OF a] by (simp_all add: run_defaults_def launch_options_def qemu_spec_def Let_def)
  ultimately show ?thesis
    using a unfolding BuildArgs_wt Let_def by (simp add: opts_wt_def)
qed

lemma qemu_paths0: "qemuPaths world0 app0 launch_host = (Inr (''/q/qemu-system-x86_64'', ''/q/qemu-img''), launch_host)"
proof -
  have "cc_QEMUDir (cfg_Components (app_Cfg app0)) = ''/q''"
    "SystemBinaryName (guestArch app0 launch_host) = ''qemu-system-x86_64''"
    "Abs ''/q'' launch_host = (Inr ''/q'', launch_host)" "goos launch_host = ''linux''"
    "JoinPath [''/q'', ''qemu-system-x86_64''] = ''/q/qemu-system-x86_64''"
    "JoinPath [''/q'', ''qemu-img''] = ''/q/qemu-img''"
    "os_stat ''/q/qemu-system-x86_64'' launch_host = (Inr (File []), launch_host)"
    "os_stat ''/q/qemu-img'' launch_host = (Inr (File []), launch_host)"
    by code_simp+
  then show ?thesis by (simp add: qemuPaths_def io_simps)
qed

theorem launch_well_typed_witness:
  "\<exists>k i r args. fst (resolve3 (Fetch reg0 puller0) ''/'' ''/'' ''/'' host0) = Inr (k, i, r) \<and>
     BuildArgs ((run_spec (run_defaults (launch_options world0 app0 host0 (app_state app0)
        (''/q/qemu-system-x86_64'', ''/q/qemu-img'') (comp_Path k) (comp_Path i) (comp_Path r) None []))
        [] \<lparr>ctl_Net = [], ctl_Addr = []\<rparr> \<lparr>ctl_Net = [], ctl_Addr = []\<rparr>)\<lparr>sp_Accel := ''tcg''\<rparr>) = Inr args"
proof -
  obtain k i r where e: "resolve3 (Fetch reg0 puller0) ''/'' ''/'' ''/'' host0 = (Inr (k, i, r), host0)"
    by (simp add: resolve3_def root_component io_simps)
  have c: "cache_ok (pull_cache puller0) host0" using cache0_ok by (simp add: puller0_def)
  have "IsAbs (cwd launch_host)" "IsAbs (cwd host0)" by code_simp+
  from launch_well_typed [OF New0 this(1) qemu_paths0 e c this(2), of None "[]"] e show ?thesis
    unfolding Let_def by fastforce
qed

end
