(* ===== verification/App_Lock.thy ===== *)
theory App_Lock
  imports App_Run
begin

text \<open>
  The lock and the VM together: nothing a launch does between taking the lock of its state
  directory and giving it back (seed, disk, logs, pid file, sockets, the VM itself) touches the
  lock file, so what is released is the lock that was taken, and another launcher that looks
  before the release still finds its holder.
\<close>

section \<open>Calls on other files\<close>

definition lock_is :: "State \<Rightarrow> node option \<Rightarrow> os \<Rightarrow> bool" where
  "lock_is st d w \<longleftrightarrow> node_at (files w) (lock_cell st) = d"

definition off_lock :: "State \<Rightarrow> string \<Rightarrow> bool" where
  "off_lock st p \<longleftrightarrow> IsAbs p \<and> \<not> prefix (lock_cell st) (comps p)"

definition vm_lock_is :: "State \<Rightarrow> node option \<Rightarrow> vmrun \<Rightarrow> bool" where
  "vm_lock_is st d s \<longleftrightarrow> lock_is st d (vm_os s)"

lemma off_lock_state [keep_intros]:
  assumes "IsAbs (st_Dir st)"
  shows "off_lock st (OverlayPath st)" "off_lock st (SeedPath st)" "off_lock st (QMPSocket st)"
    "off_lock st (SerialSocket st)" "off_lock st (PIDPath st)" "off_lock st (QEMULog st)" "off_lock st (SerialLog st)"
    "off_lock st (JoinPath [st_Dir st, ''disk.img''])" "off_lock st (JoinPath [st_Dir st, ''logs''])"
    "off_lock st (JoinPath [JoinPath [st_Dir st, ''logs''], ''serial.log''])"
  using assms by (simp_all add: off_lock_def lock_cell_def)

lemma keeps_lock_frame:
  assumes "\<And>w r w'. m w = (r, w') \<Longrightarrow> frame w (S w) w'" "\<And>w. lock_cell st \<notin> S w"
  shows "keeps (lock_is st d) m"
proof (rule keepsI)
  fix w assume w: "lock_is st d w"
  obtain r w' where m: "m w = (r, w')" by (cases "m w")
  from assms(1) [OF m] assms(2) w show "lock_is st d (snd (m w))" by (simp add: frame_def lock_is_def m)
qed

lemma keeps_lock_reads [keep_intros]:
  "keeps (lock_is st d) (os_stat p)" "keeps (lock_is st d) (os_read p)" "keeps (lock_is st d) (os_close p)"
  by (rule keeps_lock_frame [where S = "\<lambda>w. {}"]; simp add: os_stat_frame os_read_frame os_close_frame)+

lemma keeps_lock_writes [keep_intros]:
  assumes "off_lock st p"
  shows "keeps (lock_is st d) (os_remove p)" "keeps (lock_is st d) (os_create p)"
    "keeps (lock_is st d) (os_write_file p b)" "keeps (lock_is st d) (io_copy p rd)"
    "keeps (lock_is st d) (os_mkdir_all p)"
proof -
  have c: "lock_cell st \<noteq> resolve w p" "\<not> prefix (lock_cell st) (resolve w p)" for w
    using assms by (auto simp: off_lock_def resolve_abs)
  show "keeps (lock_is st d) (os_mkdir_all p)"
    using c(2) by (auto intro: keeps_lock_frame [OF os_mkdir_all_frame])
  show "keeps (lock_is st d) (os_remove p)" "keeps (lock_is st d) (os_create p)"
    "keeps (lock_is st d) (os_write_file p b)" "keeps (lock_is st d) (io_copy p rd)"
    by (rule keeps_lock_frame [where S = "\<lambda>w. {resolve w p}"];
        simp add: c(1) os_remove_frame os_create_frame os_write_file_frame io_copy_frame)+
qed

lemma keeps_lock_abs [keep_intros]: "keeps (lock_is st d) (Abs p)"
  by (rule keepsI) (metis Abs_run snd_conv)

lemma keeps_lock_on_os [keep_intros]: "keeps (lock_is st d) m \<Longrightarrow> keeps (vm_lock_is st d) (on_os m)"
  by (auto simp: keeps_def vm_lock_is_def on_os_def split: prod.split)

lemma keeps_lock_emit [keep_intros]: "keeps (vm_lock_is st d) (emit e)"
  by (simp add: keeps_def vm_lock_is_def emit_def)

lemma keeps_lock_ignore [keep_intros]: "keeps (vm_lock_is st d) m \<Longrightarrow> keeps (vm_lock_is st d) (ignore m)"
  unfolding ignore_def by (intro keep_intros)

lemma keeps_lock_procs [keep_intros]: "keeps (lock_is st d) (\<lambda>w. (Inr (), w\<lparr>procs := f w\<rparr>))"
  by (simp add: keeps_def lock_is_def)

section \<open>The programs outside\<close>

text \<open>\<open>qemu-img\<close> writes the overlay it is told to, the FAT library the seed image, the clone
  call the disk of the native engine; none of them touches the lock file.\<close>

definition spares_lock :: "State \<Rightarrow> env \<Rightarrow> bool" where
  "spares_lock st env \<longleftrightarrow>
     (\<forall>d img fmt base. keeps (lock_is st d) (run_qemu_img (env_img env) img (overlay_args fmt base (OverlayPath st)))) \<and>
     (\<forall>d n. keeps (lock_is st d) (dfs_Create (env_dfs env) (SeedPath st) n)) \<and>
     (\<forall>d l. keeps (lock_is st d) (dfs_Format (env_dfs env) (SeedPath st) l)) \<and>
     (\<forall>d n. keeps (lock_is st d) (dfs_OpenFile (env_dfs env) (SeedPath st) n)) \<and>
     (\<forall>d n c. keeps (lock_is st d) (dfs_Write (env_dfs env) (SeedPath st) n c))"

definition clone_spares :: "State \<Rightarrow> framework \<Rightarrow> bool" where
  "clone_spares st vf \<longleftrightarrow> (\<forall>d base. keeps (lock_is st d) (vf_clonefile vf base (JoinPath [st_Dir st, ''disk.img''])))"

lemma keeps_lock_seed:
  assumes "IsAbs (st_Dir st)" "spares_lock st env"
  shows "keeps (lock_is st d) (WriteSeed (env_dfs env) ord (SeedPath st) sp)"
proof -
  have s: "keeps (lock_is st d) (dfs_Create (env_dfs env) (SeedPath st) n)"
    "keeps (lock_is st d) (dfs_Format (env_dfs env) (SeedPath st) l)"
    "keeps (lock_is st d) (dfs_OpenFile (env_dfs env) (SeedPath st) l)"
    "keeps (lock_is st d) (dfs_Write (env_dfs env) (SeedPath st) l c)" for n l c
    using assms(2) by (simp_all add: spares_lock_def)
  have wf: "keeps (lock_is st d) (writeFSFile (env_dfs env) (SeedPath st) l c)" for l c
    unfolding writeFSFile_def by (intro keep_intros s)
  have "keeps (lock_is st d) (write_files (env_dfs env) (SeedPath st) fs)" for fs
    by (induction "env_dfs env" "SeedPath st" fs rule: write_files.induct)
      (unfold write_files.simps, (intro keep_intros wf | assumption)+)
  then show ?thesis unfolding WriteSeed_def Let_def by (intro keep_intros s assms(1))
qed

lemma keeps_lock_buildSeed: "keeps (lock_is st d) (buildSeed a)"
  unfolding buildSeed_def Let_def by (intro keep_intros)

section \<open>The engines\<close>

lemma keeps_lock_start_loop:
  assumes "IsAbs (st_Dir (o_State opts))"
  shows "keeps (vm_lock_is (o_State opts) d) (start_loop env opts cands err)"
proof (induction cands arbitrary: err)
  case Nil
  show ?case unfolding start_loop.simps by (intro keep_intros)
next
  case (Cons accel cands)
  show ?case unfolding start_loop.simps start_qemu_def spawn_proc_def reap_def
    by (intro keep_intros Cons assms)
qed

lemma keeps_lock_supervise: "keeps (vm_lock_is st d) (supervise env opts pid serial qmp)"
proof -
  have w: "keeps (vm_lock_is st d) (wait_ready env opts)"
    unfolding wait_ready_def by (intro keep_intros)
  have c: "keeps (vm_lock_is st d) (console_session env opts)"
    unfolding console_session_def by (rule keeps_at) (intro keep_intros)
  have p: "keeps (vm_lock_is st d) (printServices opts)"
    unfolding printServices_def by (intro keep_intros)
  have t: "keeps (vm_lock_is st d) (terminate pid)"
    unfolding terminate_def by (rule keeps_at) (intro keep_intros)
  have r: "keeps (vm_lock_is st d) (reap pid)"
    unfolding reap_def by (intro keep_intros)
  have sh: "keeps (vm_lock_is st d) (shutdown env pid qmp)"
    unfolding shutdown_def by (intro keep_intros t r)
  have "keeps (vm_lock_is st d) (case env_event env of
        GuestExit werr \<Rightarrow> bind_io (reap pid) (\<lambda>_. (case werr of
            Some e \<Rightarrow> fail_io (Wrapf ''qemu exited: %w (see %s)'' [QEMULog (o_State opts)] e)
          | None \<Rightarrow> return_io ()))
      | Signalled \<Rightarrow> shutdown env pid qmp
      | Cancelled \<Rightarrow> shutdown env pid qmp)"
    using sh by (cases "env_event env") (simp_all add: keep_intros r)
  then show ?thesis unfolding supervise_def by (intro keep_intros w c p)
qed

lemma keeps_lock_started:
  assumes "IsAbs (st_Dir (o_State opts))"
  shows "keeps (vm_lock_is (o_State opts) d) (run_started env opts ctl pid accel)"
proof -
  have "\<exists>es. snd (report_accel accel s) = s\<lparr>vm_trace := vm_trace s @ es\<rparr>" for s
    using report_accel_run [of accel s] by auto
  then have a: "keeps (vm_lock_is (o_State opts) d) (report_accel accel)"
    by (intro keepsI) (metis vm_lock_is_def vmrun.select_convs(1) vmrun.surjective vmrun.update_convs(2))
  show ?thesis
    unfolding run_started_def WritePID_def ClearPID_def
    by (intro keep_intros keeps_lock_supervise a assms)
qed

lemma keeps_lock_Run:
  assumes "IsAbs (st_Dir (o_State opts))" "spares_lock (o_State opts) env"
  shows "keeps (vm_lock_is (o_State opts) d) (Run env opts)"
proof -
  let ?K = "keeps (vm_lock_is (o_State opts) d)"
  have started: "?K (bind_io (startWithAccelFallback env o') (\<lambda>(pid, accel). run_started env o' ctl pid accel))"
    if "o_State o' = o_State opts" for o' ctl
    unfolding startWithAccelFallback_def Let_def
    by (intro keep_intros keeps_lock_start_loop [of o', unfolded that] keeps_lock_started [of o', unfolded that] assms)
  have stale: "?K (bind_io (control_channels env (o_State opts)) (\<lambda>(q, c). bind_io (remove_stale q) (\<lambda>_.
      bind_io (remove_stale c) (\<lambda>_. f q c))))" if "\<And>q c. ?K (f q c)" for f :: "ControlAddr \<Rightarrow> ControlAddr \<Rightarrow> unit vmio"
  proof (rule keeps_bind_ok)
    show "?K (control_channels env (o_State opts))" by (simp add: keeps_def control_channels_def)
    have rs: "?K (remove_stale c)" if "ctl_Net c = ''unix'' \<longrightarrow> off_lock (o_State opts) (ctl_Addr c)" for c
      using that unfolding remove_stale_def by (auto intro!: keep_intros)
    show "?K (case x of (q, c) \<Rightarrow> bind_io (remove_stale q) (\<lambda>_. bind_io (remove_stale c) (\<lambda>_. f q c)))"
      if "control_channels env (o_State opts) s = (Inr x, s')" for x s s'
    proof -
      obtain q c where x: "x = (q, c)" by (cases x)
      have "ctl_Net z = ''unix'' \<longrightarrow> off_lock (o_State opts) (ctl_Addr z)" if "z = q \<or> z = c" for z
        using \<open>control_channels env (o_State opts) s = (Inr x, s')\<close> that assms(1) x
        by (auto simp: control_channels_def ControlChannels_def ControlChannels_windows_def bind_res_eq_Inr
            off_lock_state split: if_splits)
      then show ?thesis unfolding x prod.case by (intro keep_intros rs that(1)) (use \<open>\<And>q c. ?K (f q c)\<close> in simp_all)
    qed
  qed
  have seed: "?K (seed_path env o')" if "o_State o' = o_State opts" for o'
    unfolding seed_path_def that by (intro keep_intros keeps_lock_seed assms)
  have rd: "?K (run_disk_ready env o')" if "o_State o' = o_State opts" for o'
    unfolding run_disk_ready_def Let_def that
    by (intro keeps_bind [OF seed [OF that]] stale started) (simp_all add: that)
  have img: "keeps (lock_is (o_State opts) d) (prepareDisk (env_img env) img base p r (OverlayPath (o_State opts)))" for img base p r
    using assms(2) unfolding prepareDisk_def CreateOverlay_def RemoveOverlay_def diskFormat_def spares_lock_def
    by (intro keep_intros assms(1)) simp_all
  have rm: "keeps (lock_is (o_State opts) d) (RemoveOverlay (OverlayPath (o_State opts)))"
    unfolding RemoveOverlay_def by (intro keep_intros assms(1))
  show ?thesis
    unfolding Run_def Let_def by (intro keep_intros rd img rm) (simp_all add: img rm rd)
qed

lemma keeps_lock_vz:
  assumes "IsAbs (st_Dir st)" "spares_lock st env" "clone_spares st vf"
  shows "keeps (vm_lock_is st d) (vz_locked vf env a st krn initrd rootfs)"
proof -
  have cl: "keeps (lock_is st d) (vf_clonefile vf base (JoinPath [st_Dir st, ''disk.img'']))" for base
    using assms(3) by (simp add: clone_spares_def)
  have ov: "keeps (lock_is st d) (ensureOverlay (vf_clonefile vf) base (JoinPath [st_Dir st, ''disk.img'']) p)" for base p
    unfolding ensureOverlay_def Let_def copyFile_def by (intro keep_intros cl assms(1))
  have down: "keeps (vm_lock_is st d) (vz_shutdown v)" for v
    unfolding vz_shutdown_def by (intro keep_intros)
  have loop: "keeps (vm_lock_is st d) (vz_loop v es)" for v es
    by (induction v es rule: vz_loop.induct) (unfold vz_loop.simps, (intro keep_intros down | assumption)+)
  have boot: "keeps (vm_lock_is st d) (vz_boot vf opts (JoinPath [st_Dir st, ''logs'']))" for opts
    unfolding vz_boot_def serialFiles_def by (intro keep_intros loop assms(1))
  have run: "keeps (vm_lock_is st d) (vz_Run vf opts)" if "vo_StateDir opts = st_Dir st" for opts
    unfolding vz_Run_def Let_def that by (intro keep_intros ov boot assms(1))
  show ?thesis
    unfolding vz_locked_def
    by (intro keep_intros keeps_lock_buildSeed keeps_lock_seed run assms(1,2)) simp_all
qed

lemma sections_keep_lock:
  assumes "b \<in> engine_sections wd a" "IsAbs (st_Dir (app_state a))" "spares_lock (app_state a) (wd_env wd)"
    "\<And>vf. wd_vz wd = Some vf \<Longrightarrow> clone_spares (app_state a) vf"
  shows "keeps (vm_lock_is (app_state a) d) b"
proof -
  have run: "keeps (vm_lock_is (app_state a) d) (Run (wd_env wd) o')" if "o_State o' = app_state a" for o'
    using keeps_lock_Run [of o' "wd_env wd" d] assms(2,3) that by simp
  have q: "keeps (vm_lock_is (app_state a) d) (qemu_locked wd a (app_state a) bins k i rt)" for bins k i rt
  proof -
    have "keeps (vm_lock_is (app_state a) d) (\<lambda>s. Run (wd_env wd) (launch_options wd a (vm_os s) (app_state a) bins k i rt sp img) s)"
      for sp img by (rule keeps_at [where m = "\<lambda>s. Run (wd_env wd) (launch_options wd a (vm_os s) (app_state a) bins k i rt sp img)"])
        (simp add: run launch_options_def)
    then show ?thesis unfolding qemu_locked_def by (intro keep_intros keeps_lock_buildSeed)
  qed
  have v: "keeps (vm_lock_is (app_state a) d) (bind_io (vz_locked vf (wd_env wd) a (app_state a) k i rt) (\<lambda>_. return_io ()))"
    if "wd_vz wd = Some vf" for vf k i rt
    by (intro keep_intros keeps_lock_vz assms that)
  show ?thesis using assms(1) q v by (auto simp: engine_sections_def)
qed

section \<open>The lock while a VM runs\<close>

text \<open>C12. The lock that is released is the one that was taken: whatever the disk, the seed, the
  VM and the user do under it, and whatever calls fail, the lock file is when it is released
  as the acquisition left it, so it named the same holder all along, with either engine.\<close>

theorem start_keeps_lock:
  assumes "Start wd a s = (r, s')" "IsAbs (dirs_State (app_Dirs a))" "spares_lock (app_state a) (wd_env wd)"
    "\<And>vf. wd_vz wd = Some vf \<Longrightarrow> clone_spares (app_state a) vf"
  shows "(\<exists>e. r = Inl e) \<and> vm_trace s' = vm_trace s \<or>
    (\<exists>w0 w1 b s2. AcquireLock (app_state a) w0 = (Inr (LockPath (app_state a)), w1) \<and>
       b \<in> engine_sections wd a \<and> b (s\<lparr>vm_os := w1\<rparr>) = (r, s2) \<and>
       s' = s2\<lparr>vm_os := snd (release_lock (LockPath (app_state a)) (vm_os s2))\<rparr> \<and>
       node_at (files w1) (lock_cell (app_state a)) \<noteq> None \<and>
       node_at (files (vm_os s2)) (lock_cell (app_state a)) = node_at (files w1) (lock_cell (app_state a)) \<and>
       holder (app_state a) (vm_os s2) = holder (app_state a) w1)"
proof -
  let ?st = "app_state a"
  have abs: "IsAbs (st_Dir ?st)" using assms(2) by (simp add: app_state_def StateInstance_def)
  from Start_guarded [of a wd] assms(1)
  have "(\<exists>e. r = Inl e) \<and> vm_trace s' = vm_trace s \<or> sectioned ?st (engine_sections wd a) s r s'"
    by (simp add: guarded_def)
  then show ?thesis
  proof
    assume "sectioned ?st (engine_sections wd a) s r s'"
    then obtain w0 w1 b s2 where B: "b \<in> engine_sections wd a" and l: "AcquireLock ?st w0 = (Inr (LockPath ?st), w1)"
      and b: "b (s\<lparr>vm_os := w1\<rparr>) = (r, s2)" and s': "s' = s2\<lparr>vm_os := snd (release_lock (LockPath ?st) (vm_os s2))\<rparr>"
      by (elim sectionedE)
    let ?d = "node_at (files w1) (lock_cell ?st)"
    have "keeps (vm_lock_is ?st ?d) b" by (rule sections_keep_lock [OF B abs assms(3,4)])
    from keeps_run [OF this b] have d: "node_at (files (vm_os s2)) (lock_cell ?st) = ?d"
      by (simp add: vm_lock_is_def lock_is_def)
    then have "holder ?st (vm_os s2) = holder ?st w1"
      by (simp add: holder_def file_at_def lock_resolve abs)
    moreover have "?d \<noteq> None"
      using l lock_attempts_ok by (fastforce simp: AcquireLock_def lock_resolve abs)
    ultimately show ?thesis using B l b s' d by blast
  qed blast
qed

lemma env0_spares: "IsAbs (st_Dir st) \<Longrightarrow> spares_lock st env0"
  by (simp add: spares_lock_def keeps_def lock_is_def lock_cell_def env0_def dfs0_def img0_def run_qemu_img_def
      overlay_args_def resolve_abs)

theorem start_keeps_lock_witness:
  "\<exists>r s'. Start world0 app0 vm0 = (r, s') \<and>
     ((\<exists>e. r = Inl e) \<and> vm_trace s' = [] \<or>
      (\<exists>w0 w1 s2. AcquireLock (app_state app0) w0 = (Inr (LockPath (app_state app0)), w1) \<and>
         s' = s2\<lparr>vm_os := snd (release_lock (LockPath (app_state app0)) (vm_os s2))\<rparr> \<and>
         holder (app_state app0) (vm_os s2) = holder (app_state app0) w1))"
proof -
  obtain r s' where e: "Start world0 app0 vm0 = (r, s')" by (cases "Start world0 app0 vm0")
  have d: "IsAbs (dirs_State (app_Dirs app0))" by code_simp
  then have "IsAbs (st_Dir (app_state app0))" by (simp add: app_state_def StateInstance_def)
  from env0_spares [OF this] have sp: "spares_lock (app_state app0) (wd_env world0)" by (simp add: world0_def)
  have v: "clone_spares (app_state app0) vf" if "wd_vz world0 = Some vf" for vf using that by (simp add: world0_def)
  have "vm_trace vm0 = []" by (simp add: vm0_def)
  with start_keeps_lock [OF e d sp v] e show ?thesis by (metis (no_types))
qed

end
