(* ===== verification/Logging.thy ===== *)
theory Logging
  imports Dvm_Prelude
begin

text \<open>
  Package \<open>internal/logging\<close>: the levelled logger. Its writers are the text written so far;
  a message is the text \<open>fmt.Sprintf\<close> made of its format and arguments. Errors of the
  writers are ignored by the code, the mutex makes every call one step.
\<close>

record Logger =
  lg_out :: string
  lg_file :: "string option"
  lg_debug :: bool

definition New_logger :: "string \<Rightarrow> bool \<Rightarrow> Logger" where
  "New_logger out debug = \<lparr>lg_out = out, lg_file = None, lg_debug = debug\<rparr>"

definition SetFile :: "string option \<Rightarrow> Logger \<Rightarrow> Logger" where
  "SetFile w l = l\<lparr>lg_file := w\<rparr>"

definition SetDebug :: "bool \<Rightarrow> Logger \<Rightarrow> Logger" where
  "SetDebug d l = l\<lparr>lg_debug := d\<rparr>"

definition log_line :: "string \<Rightarrow> string \<Rightarrow> string" where
  "log_line pfx msg = (let line = msg @ [CHR 0x0A] in if pfx \<noteq> [] then pfx @ '' '' @ line else line)"

definition log_emit :: "string \<Rightarrow> string \<Rightarrow> Logger \<Rightarrow> Logger" where
  "log_emit pfx msg l =
     (let line = log_line pfx msg; l1 = l\<lparr>lg_out := lg_out l @ line\<rparr>
      in (case lg_file l1 of None \<Rightarrow> l1 | Some f \<Rightarrow> l1\<lparr>lg_file := Some (f @ line)\<rparr>))"

definition Infof :: "string \<Rightarrow> Logger \<Rightarrow> Logger" where
  "Infof = log_emit []"
definition Warnf :: "string \<Rightarrow> Logger \<Rightarrow> Logger" where
  "Warnf = log_emit ''warning:''"
definition Errorf_log :: "string \<Rightarrow> Logger \<Rightarrow> Logger" where
  "Errorf_log = log_emit ''error:''"
definition Debugf :: "string \<Rightarrow> Logger \<Rightarrow> Logger" where
  "Debugf msg l = (if lg_debug l then log_emit ''[debug]'' msg l else l)"

section \<open>A history of calls\<close>

datatype log_call = LInfo string | LWarn string | LError string | LDebug string | LSetDebug bool

fun log_step :: "log_call \<Rightarrow> Logger \<Rightarrow> Logger" where
  "log_step (LInfo m) = Infof m"
| "log_step (LWarn m) = Warnf m"
| "log_step (LError m) = Errorf_log m"
| "log_step (LDebug m) = Debugf m"
| "log_step (LSetDebug d) = SetDebug d"

text \<open>What a history says, given whether debugging is on.\<close>

fun said :: "bool \<Rightarrow> log_call list \<Rightarrow> string" where
  "said d [] = []"
| "said d (LInfo m # cs) = log_line [] m @ said d cs"
| "said d (LWarn m # cs) = log_line ''warning:'' m @ said d cs"
| "said d (LError m # cs) = log_line ''error:'' m @ said d cs"
| "said d (LDebug m # cs) = (if d then log_line ''[debug]'' m else []) @ said d cs"
| "said d (LSetDebug d' # cs) = said d' cs"

lemma log_emit_sel [simp]:
  "lg_out (log_emit p m l) = lg_out l @ log_line p m"
  "lg_file (log_emit p m l) = map_option (\<lambda>f. f @ log_line p m) (lg_file l)"
  "lg_debug (log_emit p m l) = lg_debug l"
  by (simp_all add: log_emit_def Let_def split: option.split)

lemma log_history:
  "lg_out (fold log_step cs l) = lg_out l @ said (lg_debug l) cs \<and>
   lg_file (fold log_step cs l) = map_option (\<lambda>f. f @ said (lg_debug l) cs) (lg_file l)"
proof (induction cs arbitrary: l)
  case (Cons c cs)
  then show ?case
    by (cases c)
      (simp_all add: Infof_def Warnf_def Errorf_log_def Debugf_def SetDebug_def option.map_comp comp_def)
qed (simp add: option.map_ident)

text \<open>The mirror is exact: whatever is logged after \<open>SetFile\<close>, in whatever order levels and
  debug switches come, is appended to both writers, in order, with its level's prefix, debug
  lines exactly while debugging is on.\<close>

theorem log_mirror:
  "lg_out (fold log_step cs (SetFile (Some f) l)) = lg_out l @ said (lg_debug l) cs \<and>
   lg_file (fold log_step cs (SetFile (Some f) l)) = Some (f @ said (lg_debug l) cs)"
  using log_history [of cs "SetFile (Some f) l"] by (simp add: SetFile_def)

end
