(* ===== verification/VZ_Network.thy ===== *)
theory VZ_Network
  imports VZ_Engine
begin

text \<open>
  \<open>internal/vz/forward_darwin.go\<close>, the goroutine \<open>manageNetwork\<close> that runs beside a native VM:
  find the guest's address, start the port proxies, probe readiness, print the services. It
  shares nothing with the supervising loop but the context, and writes no file.
\<close>

section \<open>The guest's network\<close>

text \<open>\<open>manageNetwork\<close> runs beside the VM. What it does in order: the proxies it starts, the
  address of each readiness probe it announces and whether it answered, whether it reported
  ready, and the services it printed. \<open>now 0\<close> is the clock at the start and \<open>now (Suc i)\<close> after the \<open>i\<close>-th look for an address,
  \<open>tick t\<close> the time since the first probe, \<open>up t addr\<close> whether a dial at that tick works.\<close>

datatype net_event = NoGuestIP error | Proxy "string \<times> string" | Probed string bool | NetReady | NetServices "string list"

record net_world =
  nw_arp :: "nat \<Rightarrow> string result"
  nw_lease :: "nat \<Rightarrow> string result"
  nw_now :: "nat \<Rightarrow> int"
  nw_done :: "nat \<Rightarrow> bool"
  nw_tick :: "nat \<Rightarrow> int"
  nw_stop :: "nat \<Rightarrow> bool"
  nw_up :: "nat \<Rightarrow> string \<Rightarrow> bool"

definition net_timeout :: "vz_Options \<Rightarrow> int" where
  "net_timeout o' = (if vo_ReadinessTimeout o' \<le> 0 then 180 * 1000000000 else vo_ReadinessTimeout o')"

text \<open>A probe that times out does not end the loop; \<open>ok\<close> is whether all answered.\<close>

fun probe_guest :: "nat \<Rightarrow> (nat \<Rightarrow> bool) \<Rightarrow> (nat \<Rightarrow> string \<Rightarrow> bool) \<Rightarrow> string \<Rightarrow> int list \<Rightarrow> nat \<Rightarrow>
    (net_event list \<times> bool) option" where
  "probe_guest k expired up ip [] t = Some ([], True)"
| "probe_guest k expired up ip (gp # gps) t =
     (let addr = JoinHostPort ip (Itoa gp)
      in (case dialUntil k expired up addr t of
            None \<Rightarrow> None
          | Some (r, t') \<Rightarrow>
              map_option (\<lambda>(es, ok). (Probed addr (r = Inr ()) # es, r = Inr () \<and> ok))
                (probe_guest k expired up ip gps t')))"

definition manageNetwork :: "nat \<Rightarrow> net_world \<Rightarrow> vz_Options \<Rightarrow> mac \<Rightarrow> net_event list option" where
  "manageNetwork k nw o' mac =
     (let timeout = net_timeout o'
      in (case waitGuestIP k (nw_arp nw) (nw_lease nw) (\<lambda>i. nw_now nw 0 + timeout < nw_now nw (Suc i)) (nw_done nw) mac 0 of
            None \<Rightarrow> None
          | Some (Inl e) \<Rightarrow> Some [NoGuestIP e]
          | Some (Inr ip) \<Rightarrow>
              map_option (\<lambda>es. map Proxy (vz_proxies ip (vo_Ports o')) @ es @
                  (if vo_Services o' \<noteq> [] then [NetServices (vo_Services o')] else []))
                (if vo_ReadinessGuestPorts o' = [] then Some []
                 else map_option (\<lambda>(es, ok). es @ (if ok then [NetReady] else []))
                   (probe_guest k (\<lambda>t. nw_stop nw t \<or> timeout \<le> nw_tick nw t) (nw_up nw) ip
                      (vo_ReadinessGuestPorts o') 0))))"

lemma waitGuestIP_returns:
  "late T \<Longrightarrow> i \<le> T \<Longrightarrow> T - i < k \<Longrightarrow> \<exists>r. waitGuestIP k arp lease late cancelled mac i = Some r"
proof (induction k arbitrary: i)
  case (Suc k)
  show ?case
  proof (cases "late i \<or> cancelled i")
    case False
    then have "i \<noteq> T" using Suc.prems by auto
    then have "Suc i \<le> T" "T - Suc i < k" using Suc.prems by auto
    with Suc.IH [OF Suc.prems(1)] show ?thesis by auto
  qed auto
qed simp

lemma waitGuestIP_ok:
  "waitGuestIP k arp lease late cancelled mac i = Some (Inr ip) \<Longrightarrow>
   ip \<noteq> [] \<and> (\<exists>j \<ge> i. lookupARP (arp j) mac = ip \<or> lookupLease (lease j) mac = ip)"
proof (induction k arbitrary: i)
  case (Suc k)
  show ?case
  proof (cases "lookupARP (arp i) mac = [] \<and> lookupLease (lease i) mac = []")
    case True
    with Suc.prems have "waitGuestIP k arp lease late cancelled mac (Suc i) = Some (Inr ip)"
      by (simp split: if_splits)
    from Suc.IH [OF this] show ?thesis using Suc_leD by blast
  next
    case False
    with Suc.prems show ?thesis by (auto split: if_splits)
  qed
qed simp

lemma probe_guest_returns:
  "expired T \<Longrightarrow> t \<le> T \<Longrightarrow> T < k \<Longrightarrow> \<exists>r. probe_guest k expired up ip gps t = Some r"
proof (induction gps arbitrary: t)
  case (Cons gp gps)
  obtain r t' where d: "dialUntil k expired up (JoinHostPort ip (Itoa gp)) t = Some (r, t')" "t \<le> t'" "t' \<le> T"
    using dialUntil_returns [of expired T t k up "JoinHostPort ip (Itoa gp)"] Cons.prems by fastforce
  from Cons.IH [OF Cons.prems(1) d(3) Cons.prems(3)] d(1) show ?case by (auto simp: Let_def)
qed auto

lemma probe_guest_ok:
  "probe_guest k expired up ip gps t = Some (es, ok) \<Longrightarrow>
   NetReady \<notin> set es \<and> (ok \<longrightarrow> (\<forall>gp \<in> set gps. \<exists>t'. up t' (JoinHostPort ip (Itoa gp)) \<and> \<not> expired t'))"
proof (induction gps arbitrary: t es ok)
  case (Cons gp gps)
  from Cons.prems obtain r t' es' ok' where d: "dialUntil k expired up (JoinHostPort ip (Itoa gp)) t = Some (r, t')"
    and p: "probe_guest k expired up ip gps t' = Some (es', ok')"
    and e: "es = Probed (JoinHostPort ip (Itoa gp)) (r = Inr ()) # es'" "ok = (r = Inr () \<and> ok')"
    by (auto simp: Let_def split: option.splits)
  from Cons.IH [OF p] e dialUntil_ok [of k expired up "JoinHostPort ip (Itoa gp)" t] d show ?case by auto
qed simp

text \<open>C37. The native engine's network manager ends, and tells the truth: once the deadline is
  reached at some look and some tick within the fuel, it returns; if it reports ready, every
  readiness port of the guest had accepted a connection before the deadline, at an address
  that the ARP table or the lease file gave for this VM's own hardware address.\<close>

theorem network_ready_sound:
  assumes "nw_now nw 0 + net_timeout o' < nw_now nw (Suc T)" "net_timeout o' \<le> nw_tick nw T'" "T < k" "T' < k"
  shows "\<exists>es. manageNetwork k nw o' mac = Some es \<and>
    (NetReady \<in> set es \<longrightarrow> (\<exists>ip j. ip \<noteq> [] \<and> (lookupARP (nw_arp nw j) mac = ip \<or> lookupLease (nw_lease nw j) mac = ip) \<and>
       (\<forall>gp \<in> set (vo_ReadinessGuestPorts o'). \<exists>t. nw_up nw t (JoinHostPort ip (Itoa gp)) \<and> nw_tick nw t < net_timeout o')))"
proof -
  let ?late = "\<lambda>i. nw_now nw 0 + net_timeout o' < nw_now nw (Suc i)"
  let ?exp = "\<lambda>t. nw_stop nw t \<or> net_timeout o' \<le> nw_tick nw t"
  obtain r where r: "waitGuestIP k (nw_arp nw) (nw_lease nw) ?late (nw_done nw) mac 0 = Some r"
    using waitGuestIP_returns [of ?late T 0 k "nw_arp nw" "nw_lease nw" "nw_done nw" mac] assms(1,3) by auto
  show ?thesis
  proof (cases r)
    case (Inl e)
    with r show ?thesis by (simp add: manageNetwork_def)
  next
    case (Inr ip)
    obtain es ok where p: "probe_guest k ?exp (nw_up nw) ip (vo_ReadinessGuestPorts o') 0 = Some (es, ok)"
      using probe_guest_returns [of ?exp T' 0 k "nw_up nw" ip "vo_ReadinessGuestPorts o'"] assms by auto
    have ip: "ip \<noteq> [] \<and> (\<exists>j. lookupARP (nw_arp nw j) mac = ip \<or> lookupLease (nw_lease nw j) mac = ip)"
      using waitGuestIP_ok r Inr by blast
    have up: "ok \<longrightarrow> (\<forall>gp \<in> set (vo_ReadinessGuestPorts o'). \<exists>t. nw_up nw t (JoinHostPort ip (Itoa gp)) \<and>
        nw_tick nw t < net_timeout o')" and nr: "NetReady \<notin> set es"
      using probe_guest_ok [OF p] by (auto simp: not_le)
    have ev: "NetReady \<notin> set (map Proxy ps)" for ps by auto
    show ?thesis
      using r Inr p ip up nr ev unfolding manageNetwork_def by (auto simp: Let_def)
  qed
qed

definition net0 :: net_world where
  "net0 = \<lparr>nw_arp = (\<lambda>i. Inr ''? (10.0.0.7) at 2:0:0:0:0:1 on bridge100''), nw_lease = (\<lambda>i. Inl (Sys ENOENT)),
    nw_now = (\<lambda>i. 1000000000 * int i), nw_done = (\<lambda>i. False), nw_tick = (\<lambda>t. 500000000 * int t),
    nw_stop = (\<lambda>t. False), nw_up = (\<lambda>t a. 2 \<le> t)\<rparr>"

definition vzopts0 :: vz_Options where
  "vzopts0 = \<lparr>vo_Name = ''dvm'', vo_MemoryMB = 2048, vo_CPUs = 2, vo_KernelPath = ''/k'', vo_InitrdPath = ''/i'',
    vo_RootfsRawPath = ''/r'', vo_SeedPath = [], vo_KernelCmdline = [], vo_StateDir = ''/s'', vo_Persist = True,
    vo_Console = False, vo_Ports = [], vo_ReadinessGuestPorts = [80], vo_ReadinessTimeout = 3000000000, vo_Services = []\<rparr>"

theorem network_ready_sound_witness:
  "manageNetwork 10 net0 vzopts0 [2, 0, 0, 0, 0, 1] = Some [Probed ''10.0.0.7:80'' True, NetReady] \<and>
   (\<exists>ip t. nw_up net0 t (JoinHostPort ip ''80'') \<and> nw_tick net0 t < 3000000000)"
proof -
  have run: "manageNetwork 10 net0 vzopts0 [2, 0, 0, 0, 0, 1] = Some [Probed ''10.0.0.7:80'' True, NetReady]"
    by code_simp
  have i80: "Itoa 80 = ''80''" by code_simp
  have t: "net_timeout vzopts0 = 3000000000" "vo_ReadinessGuestPorts vzopts0 = [80]"
    by (simp_all add: net_timeout_def vzopts0_def)
  have n: "nw_now net0 0 + net_timeout vzopts0 < nw_now net0 (Suc 4)" "net_timeout vzopts0 \<le> nw_tick net0 6"
    by (simp_all add: t net0_def)
  from network_ready_sound [OF n, of 10 "[2, 0, 0, 0, 0, 1]"] run i80 t show ?thesis by auto
qed

end
