(* ===== verification/VZ_Proxy.thy ===== *)
theory VZ_Proxy
  imports VZ_Network
begin

text \<open>
  \<open>internal/vz/forward_darwin.go\<close>, \<open>proxyPort\<close> and \<open>pipe\<close>: the accept loop of a forwarded
  port, and the two copying goroutines of one connection as a labelled step relation, in which
  client, guest and goroutines interleave in any order.
\<close>

section \<open>The accept loop\<close>

text \<open>What the loop sees in turn: a connection, a failing \<open>Accept\<close>, or the end of the context,
  upon which the other goroutine closes the listener and \<open>Accept\<close> fails. The result is the
  connections handed to \<open>pipe\<close>, with the guest address each is for, and whether the listener
  is still open.\<close>

datatype accept_event = Accepted nat | AcceptFailed | CtxDone

fun accept_loop :: "string \<Rightarrow> accept_event list \<Rightarrow> (nat \<times> string) list \<times> bool" where
  "accept_loop guestAddr [] = ([], True)"
| "accept_loop guestAddr (Accepted c # es) =
     (case accept_loop guestAddr es of (cs, ln) \<Rightarrow> ((c, guestAddr) # cs, ln))"
| "accept_loop guestAddr (AcceptFailed # es) = ([], CtxDone \<notin> set es)"
| "accept_loop guestAddr (CtxDone # es) = ([], False)"

definition proxyPort :: "(string \<Rightarrow> unit result) \<Rightarrow> string \<Rightarrow> PortForward \<Rightarrow> accept_event list \<Rightarrow>
    ((nat \<times> string) list \<times> bool) result" where
  "proxyPort listen guestIP p es =
     (case proxy_addrs guestIP p of (laddr, guestAddr) \<Rightarrow>
        bind_res (listen laddr) (\<lambda>_. Inr (accept_loop guestAddr es)))"

lemma accept_loop_served:
  "fst (accept_loop g es) = map (\<lambda>c. (c, g)) [c. Accepted c \<leftarrow> takeWhile (\<lambda>e. e \<noteq> AcceptFailed \<and> e \<noteq> CtxDone) es]"
  by (induction g es rule: accept_loop.induct) (auto split: prod.splits)

lemma accept_loop_closed: "snd (accept_loop g es) \<longleftrightarrow> CtxDone \<notin> set es"
  by (induction g es rule: accept_loop.induct) (auto split: prod.splits)

section \<open>One connection\<close>

text \<open>\<open>Up\<close> is the direction from the client to the guest, copied by the goroutine that \<open>pipe\<close>
  starts; \<open>Down\<close> the one back, copied by \<open>pipe\<close> itself, whose end runs the deferred closes.
  Of each direction: the bytes its sender still sends before it ends its stream, the chunk
  \<open>io.Copy\<close> holds, the bytes delivered, and how the copy ended.\<close>

datatype copy_end = CopyEOF | CopyBroken

record copying =
  cp_in :: string
  cp_buf :: string
  cp_out :: string
  cp_end :: "copy_end option"

datatype pipe_phase = Dialling | Copying | Closing | Returned

record pipe_state =
  pp_phase :: pipe_phase
  pp_started :: bool
  pp_client :: bool
  pp_guest :: bool
  pp_up :: copying
  pp_down :: copying

text \<open>The steps of \<open>io.Copy\<close>: read at most 32 KiB, write the chunk, end at the end of the
  stream, or end with an error, possibly after a part of the chunk was written. \<open>r\<close> and \<open>w\<close> say
  whether the connection read from and the one written to are still open.\<close>

datatype copy_label = ReadChunk nat | WriteChunk | ReadEOF | CopyFails nat

inductive copy_step :: "bool \<Rightarrow> bool \<Rightarrow> copying \<Rightarrow> copy_label \<Rightarrow> copying \<Rightarrow> bool" where
  chunk_read: "r \<Longrightarrow> cp_end c = None \<Longrightarrow> cp_buf c = [] \<Longrightarrow> 0 < n \<Longrightarrow> n \<le> 32768 \<Longrightarrow> n \<le> length (cp_in c) \<Longrightarrow>
    copy_step r w c (ReadChunk n) (c\<lparr>cp_buf := take n (cp_in c), cp_in := drop n (cp_in c)\<rparr>)"
| chunk_written: "w \<Longrightarrow> cp_end c = None \<Longrightarrow> cp_buf c \<noteq> [] \<Longrightarrow>
    copy_step r w c WriteChunk (c\<lparr>cp_out := cp_out c @ cp_buf c, cp_buf := []\<rparr>)"
| read_eof: "r \<Longrightarrow> cp_end c = None \<Longrightarrow> cp_buf c = [] \<Longrightarrow> cp_in c = [] \<Longrightarrow>
    copy_step r w c ReadEOF (c\<lparr>cp_end := Some CopyEOF\<rparr>)"
| copy_fails: "cp_end c = None \<Longrightarrow> n \<le> length (cp_buf c) \<Longrightarrow> n = 0 \<or> w \<Longrightarrow>
    copy_step r w c (CopyFails n) (c\<lparr>cp_out := cp_out c @ take n (cp_buf c), cp_buf := [], cp_end := Some CopyBroken\<rparr>)"

code_pred (modes: i \<Rightarrow> i \<Rightarrow> i \<Rightarrow> i \<Rightarrow> o \<Rightarrow> bool) copy_step .

datatype pipe_label = DialOk | DialFails | Up copy_label | Down copy_label | CloseGuest | CloseClient

inductive pipe_step :: "pipe_state \<Rightarrow> pipe_label \<Rightarrow> pipe_state \<Rightarrow> bool" where
  dial_ok: "pp_phase s = Dialling \<Longrightarrow>
    pipe_step s DialOk (s\<lparr>pp_phase := Copying, pp_started := True, pp_guest := True\<rparr>)"
| dial_fails: "pp_phase s = Dialling \<Longrightarrow>
    pipe_step s DialFails (s\<lparr>pp_phase := Returned, pp_client := False\<rparr>)"
| up: "pp_started s \<Longrightarrow> copy_step (pp_client s) (pp_guest s) (pp_up s) l c \<Longrightarrow>
    pipe_step s (Up l) (s\<lparr>pp_up := c\<rparr>)"
| down: "pp_phase s = Copying \<Longrightarrow> copy_step (pp_guest s) (pp_client s) (pp_down s) l c \<Longrightarrow>
    pipe_step s (Down l) (s\<lparr>pp_down := c\<rparr>)"
| close_guest: "pp_phase s = Copying \<Longrightarrow> cp_end (pp_down s) \<noteq> None \<Longrightarrow>
    pipe_step s CloseGuest (s\<lparr>pp_phase := Closing, pp_guest := False\<rparr>)"
| close_client: "pp_phase s = Closing \<Longrightarrow>
    pipe_step s CloseClient (s\<lparr>pp_phase := Returned, pp_client := False\<rparr>)"

code_pred (modes: i \<Rightarrow> i \<Rightarrow> o \<Rightarrow> bool) pipe_step .

inductive pipe_run :: "pipe_state \<Rightarrow> pipe_label list \<Rightarrow> pipe_state \<Rightarrow> bool" where
  stop: "pipe_run s [] s"
| step: "pipe_step s l s' \<Longrightarrow> pipe_run s' ls s'' \<Longrightarrow> pipe_run s (l # ls) s''"

code_pred (modes: i \<Rightarrow> i \<Rightarrow> o \<Rightarrow> bool) pipe_run .

text \<open>The rules as equations, to compute with.\<close>

inductive_simps copy_step_simps:
  "copy_step r w c (ReadChunk n) c'" "copy_step r w c WriteChunk c'"
  "copy_step r w c ReadEOF c'" "copy_step r w c (CopyFails n) c'"

inductive_simps pipe_step_simps:
  "pipe_step s DialOk s'" "pipe_step s DialFails s'" "pipe_step s (Up l) s'"
  "pipe_step s (Down l) s'" "pipe_step s CloseGuest s'" "pipe_step s CloseClient s'"

inductive_simps pipe_run_simps: "pipe_run s [] s'" "pipe_run s (l # ls) s'"

inductive_cases copy_stepE: "copy_step r w c l c'"
inductive_cases pipe_stepE: "pipe_step s l s'"

definition sending :: "string \<Rightarrow> copying" where
  "sending bs = \<lparr>cp_in = bs, cp_buf = [], cp_out = [], cp_end = None\<rparr>"

definition pipe_init :: "string \<Rightarrow> string \<Rightarrow> pipe_state" where
  "pipe_init C G = \<lparr>pp_phase = Dialling, pp_started = False, pp_client = True, pp_guest = False,
     pp_up = sending C, pp_down = sending G\<rparr>"

section \<open>The copy\<close>

definition copy_inv :: "string \<Rightarrow> copying \<Rightarrow> bool" where
  "copy_inv bs c \<longleftrightarrow> prefix (cp_out c) bs \<and>
     (cp_end c \<noteq> Some CopyBroken \<longrightarrow> cp_out c @ cp_buf c @ cp_in c = bs) \<and>
     (cp_end c = Some CopyEOF \<longrightarrow> cp_out c = bs)"

lemma copy_inv_step:
  assumes "copy_step r w c l c'" "copy_inv bs c"
  shows "copy_inv bs c'"
  using assms
proof (cases rule: copy_step.cases)
  case (copy_fails n)
  from copy_fails(3) assms(2) have "cp_out c @ cp_buf c @ cp_in c = bs" by (simp add: copy_inv_def)
  then have "bs = (cp_out c @ take n (cp_buf c)) @ drop n (cp_buf c) @ cp_in c"
    by (metis append.assoc append_take_drop_id)
  with copy_fails show ?thesis by (auto simp: copy_inv_def intro: prefixI)
qed (auto simp: copy_inv_def intro: prefixI)

text \<open>Each step uses up a byte unread, a chunk held, or the copy itself.\<close>

definition copy_left :: "copying \<Rightarrow> nat" where
  "copy_left c = 2 * length (cp_in c) + (if cp_buf c = [] then 0 else 1) + (if cp_end c = None then 1 else 0)"

lemma copy_left_step: "copy_step r w c l c' \<Longrightarrow> copy_left c' < copy_left c"
  by (erule copy_stepE) (auto simp: copy_left_def)

section \<open>The connection\<close>

fun phase_left :: "pipe_phase \<Rightarrow> nat" where
  "phase_left Dialling = 3"
| "phase_left Copying = 2"
| "phase_left Closing = 1"
| "phase_left Returned = 0"

definition pipe_left :: "pipe_state \<Rightarrow> nat" where
  "pipe_left s = phase_left (pp_phase s) + copy_left (pp_up s) + copy_left (pp_down s)"

lemma pipe_left_step: "pipe_step s l s' \<Longrightarrow> pipe_left s' < pipe_left s"
  by (erule pipe_stepE) (auto simp: pipe_left_def dest: copy_left_step)

definition pipe_inv :: "string \<Rightarrow> string \<Rightarrow> pipe_state \<Rightarrow> bool" where
  "pipe_inv C G s \<longleftrightarrow> copy_inv C (pp_up s) \<and> copy_inv G (pp_down s) \<and>
     (pp_guest s \<longleftrightarrow> pp_phase s = Copying) \<and> (pp_client s \<longleftrightarrow> pp_phase s \<noteq> Returned) \<and>
     (pp_phase s = Dialling \<longrightarrow> \<not> pp_started s)"

lemma pipe_inv_init: "pipe_inv C G (pipe_init C G)"
  by (simp add: pipe_inv_def pipe_init_def copy_inv_def sending_def)

lemma pipe_inv_step: "pipe_step s l s' \<Longrightarrow> pipe_inv C G s \<Longrightarrow> pipe_inv C G s'"
  by (erule pipe_stepE) (auto simp: pipe_inv_def dest: copy_inv_step)

lemma pipe_run_inv:
  "pipe_run s ls s' \<Longrightarrow> pipe_inv C G s \<Longrightarrow> pipe_inv C G s' \<and> length ls + pipe_left s' \<le> pipe_left s"
proof (induction rule: pipe_run.induct)
  case (step s l s' ls s'')
  with pipe_inv_step [OF step.hyps(1)] pipe_left_step [OF step.hyps(1)] show ?case by auto
qed simp

text \<open>The end of the client's stream is not passed on: as long as the guest's answers are being
  copied the guest's connection stays open, whatever became of the other direction.\<close>

lemma half_close_not_forwarded:
  assumes "pipe_run (pipe_init C G) ls s" "cp_end (pp_up s) = Some CopyEOF" "pp_phase s = Copying"
  shows "pp_guest s"
  using pipe_run_inv [OF assms(1) pipe_inv_init] assms(3) by (simp add: pipe_inv_def)

text \<open>C38. A proxied connection relays faithfully and ends: in every interleaving of client,
  guest and the two copying goroutines, each side has received a prefix of what the other
  sent, all of it when that copy came to the end of the stream; once \<open>pipe\<close> has returned both
  connections are closed; and no run is longer than two steps for each byte sent and five.\<close>

theorem pipe_relays:
  assumes "pipe_run (pipe_init C G) ls s"
  shows "prefix (cp_out (pp_up s)) C \<and> prefix (cp_out (pp_down s)) G \<and>
    (cp_end (pp_up s) = Some CopyEOF \<longrightarrow> cp_out (pp_up s) = C) \<and>
    (cp_end (pp_down s) = Some CopyEOF \<longrightarrow> cp_out (pp_down s) = G) \<and>
    (pp_phase s = Returned \<longrightarrow> \<not> pp_client s \<and> \<not> pp_guest s) \<and>
    length ls \<le> 2 * (length C + length G) + 5"
proof -
  have "pipe_left (pipe_init C G) = 2 * (length C + length G) + 5"
    by (simp add: pipe_left_def pipe_init_def copy_left_def sending_def)
  with pipe_run_inv [OF assms pipe_inv_init] show ?thesis
    by (auto simp: pipe_inv_def copy_inv_def)
qed

text \<open>A client that asks \<open>GET\<close> in two chunks of a guest that answers \<open>ok\<close> and hangs up.\<close>

definition pipe_labels0 :: "pipe_label list" where
  "pipe_labels0 = [DialOk, Up (ReadChunk 1), Up WriteChunk, Down (ReadChunk 2), Up (ReadChunk 2), Up WriteChunk,
     Down WriteChunk, Up ReadEOF, Down ReadEOF, CloseGuest, CloseClient]"

lemma pipe_run0: "\<exists>s. pipe_run (pipe_init ''GET'' ''ok'') pipe_labels0 s \<and> pp_phase s = Returned \<and>
    cp_end (pp_up s) = Some CopyEOF \<and> cp_end (pp_down s) = Some CopyEOF"
  by (simp add: pipe_labels0_def pipe_run_simps pipe_step_simps copy_step_simps pipe_init_def sending_def)

theorem pipe_relays_witness:
  "\<exists>s. pipe_run (pipe_init ''GET'' ''ok'') pipe_labels0 s \<and> cp_out (pp_up s) = ''GET'' \<and>
     cp_out (pp_down s) = ''ok'' \<and> \<not> pp_client s \<and> \<not> pp_guest s"
proof -
  obtain s where s: "pipe_run (pipe_init ''GET'' ''ok'') pipe_labels0 s" "pp_phase s = Returned"
    "cp_end (pp_up s) = Some CopyEOF" "cp_end (pp_down s) = Some CopyEOF"
    using pipe_run0 by blast
  from pipe_relays [OF s(1)] s show ?thesis by blast
qed

end
