(* ===== verification/Cache_Spec.thy ===== *)
theory Cache_Spec
  imports Blob_Cache
begin

text \<open>
  What the blob cache is for its users: a partial map from hashes to bytes that only grows.
  The abstract store is a step relation over operations and answers; every sequence of
  \<open>Has\<close>, \<open>PutStream\<close> and \<open>Verify\<close> on a sound cache, under any faults and readers, is one of
  its runs, with \<open>store_of\<close> as the abstraction of the host's files.
\<close>

section \<open>The abstract store\<close>

type_synonym store = "string \<Rightarrow> string option"

datatype store_op = SHas string | SPut string reader | SVerify string

datatype store_answer = Found bool | Stored string | Verified | Refused

definition sha256_of :: "string \<Rightarrow> string option" where
  "sha256_of d = (case splitDigest d of Inl e \<Rightarrow> None | Inr (algo, h) \<Rightarrow> if algo = ''sha256'' then Some h else None)"

text \<open>An operation may always fail, and a failing look is answered like a miss; what it must
  not do is to invent a blob, to change or lose one, or to store bytes under a wrong hash.
  Digests of other algorithms are outside the store: nothing is stored for them.\<close>

inductive store_step :: "cache \<Rightarrow> store \<Rightarrow> store_op \<Rightarrow> store_answer \<Rightarrow> store \<Rightarrow> bool" for c where
  hit: "sha256_of d = Some h \<Longrightarrow> m h \<noteq> None \<Longrightarrow> store_step c m (SHas d) (Found True) m"
| miss: "store_step c m (SHas d) (Found False) m"
| foreign: "sha256_of d = None \<Longrightarrow> store_step c m (SHas d) (Found b) m"
| present: "sha256_of d = Some h \<Longrightarrow> m h \<noteq> None \<Longrightarrow> BlobPath c d = Inr p \<Longrightarrow>
    store_step c m (SPut d r) (Stored p) m"
| stores: "sha256_of d = Some h \<Longrightarrow> sha256_hex b = h \<Longrightarrow> BlobPath c d = Inr p \<Longrightarrow>
    store_step c m (SPut d (b, None)) (Stored p) (m(h \<mapsto> b))"
| refuses: "store_step c m (SPut d r) Refused m"
| sound: "sha256_of d = Some h \<Longrightarrow> m h = Some b \<Longrightarrow> sha256_hex b = h \<Longrightarrow>
    store_step c m (SVerify d) Verified m"
| foreign_sound: "sha256_of d = None \<Longrightarrow> store_step c m (SVerify d) Verified m"
| unreadable: "store_step c m (SVerify d) Refused m"

inductive store_run :: "cache \<Rightarrow> store \<Rightarrow> store_op list \<Rightarrow> store_answer list \<Rightarrow> store \<Rightarrow> bool" for c where
  run_nil: "store_run c m [] [] m"
| run_step: "store_step c m op a m' \<Longrightarrow> store_run c m' ops as m'' \<Longrightarrow> store_run c m (op # ops) (a # as) m''"

inductive_cases store_stepE: "store_step c m op a m'"

definition content_addressed :: "store \<Rightarrow> bool" where
  "content_addressed m \<longleftrightarrow> (\<forall>h b. m h = Some b \<longrightarrow> sha256_hex b = h)"

lemma content_addressed_upd: "content_addressed m \<Longrightarrow> content_addressed (m(sha256_hex b \<mapsto> b))"
  unfolding content_addressed_def by (metis fun_upd_apply option.inject)

lemma store_step_keeps:
  "store_step c m op a m' \<Longrightarrow> content_addressed m \<Longrightarrow> content_addressed m' \<and> dom m \<subseteq> dom m'"
  by (erule store_stepE) (simp_all add: content_addressed_upd subset_insertI)

lemma store_run_keeps:
  "store_run c m ops as m' \<Longrightarrow> content_addressed m \<Longrightarrow> content_addressed m' \<and> dom m \<subseteq> dom m'"
proof (induction rule: store_run.induct)
  case (run_step m op a m' ops as m'')
  from store_step_keeps [OF run_step.hyps(1) run_step.prems] run_step.IH show ?case by blast
qed simp

section \<open>The cache as a store\<close>

definition store_of :: "cache \<Rightarrow> os \<Rightarrow> store" where
  "store_of c w h = (if prefix ''.tmp-'' h then None
     else (case node_at (files w) (blob_cell c h) of Some (File b) \<Rightarrow> Some b | _ \<Rightarrow> None))"

lemma store_of_Some:
  "store_of c w h = Some b \<longleftrightarrow> \<not> prefix ''.tmp-'' h \<and> node_at (files w) (blob_cell c h) = Some (File b)"
  by (auto simp: store_of_def split: option.split node.split)

lemma store_of_eqI: "(\<And>h b. \<not> prefix ''.tmp-'' h \<Longrightarrow>
     node_at (files w') (blob_cell c h) = Some (File b) \<longleftrightarrow> m h = Some b) \<Longrightarrow>
   (\<And>h. prefix ''.tmp-'' h \<Longrightarrow> m h = None) \<Longrightarrow> store_of c w' = m"
proof
  fix h
  assume iff: "\<And>h b. \<not> prefix ''.tmp-'' h \<Longrightarrow>
     node_at (files w') (blob_cell c h) = Some (File b) \<longleftrightarrow> m h = Some b"
    and none: "\<And>h. prefix ''.tmp-'' h \<Longrightarrow> m h = None"
  have "store_of c w' h = Some b \<longleftrightarrow> m h = Some b" for b
    using iff [of h b] none [of h] by (cases "prefix ''.tmp-'' h") (simp_all add: store_of_Some)
  then show "store_of c w' h = m h" by (metis not_Some_eq)
qed

lemma same_blobs_store: "same_blobs c w w' \<Longrightarrow> store_of c w' = store_of c w"
  by (rule store_of_eqI, simp add: same_blobs_def store_of_Some, simp add: store_of_def)

lemma cache_ok_store: "cache_ok c w \<Longrightarrow> content_addressed (store_of c w)"
  by (auto simp: content_addressed_def store_of_Some dest: cache_okD)

text \<open>The operations as a client sees them: an answer and the next host.\<close>

fun cache_exec :: "cache \<Rightarrow> store_op \<Rightarrow> os \<Rightarrow> store_answer \<times> os" where
  "cache_exec c (SHas d) w = (case Has c d w of (Inr b, w') \<Rightarrow> (Found b, w') | (Inl e, w') \<Rightarrow> (Refused, w'))"
| "cache_exec c (SPut d r) w = (case PutStream c d r w of (Inr p, w') \<Rightarrow> (Stored p, w') | (Inl e, w') \<Rightarrow> (Refused, w'))"
| "cache_exec c (SVerify d) w = (case Verify c d w of (Inr u, w') \<Rightarrow> (Verified, w') | (Inl e, w') \<Rightarrow> (Refused, w'))"

fun cache_run :: "cache \<Rightarrow> store_op list \<Rightarrow> os \<Rightarrow> store_answer list \<times> os" where
  "cache_run c [] w = ([], w)"
| "cache_run c (op # ops) w = (case cache_exec c op w of (a, w1) \<Rightarrow>
     (case cache_run c ops w1 of (as, w2) \<Rightarrow> (a # as, w2)))"

section \<open>The simulation\<close>

lemma sha256_of_Some: "sha256_of d = Some h \<longleftrightarrow> splitDigest d = Inr (''sha256'', h)"
  by (auto simp: sha256_of_def split: sum.split)

lemma has_refines:
  assumes "cache_ok c w" "Has c d w = (Inr b, w')"
  shows "store_step c (store_of c w) (SHas d) (Found b) (store_of c w')"
proof -
  have s: "store_of c w' = store_of c w"
    using Has_files [OF assms(2)] by (simp add: store_of_def fun_eq_iff)
  show ?thesis
  proof (cases "b \<and> sha256_of d \<noteq> None")
    case True
    then obtain h where sh: "sha256_of d = Some h" by auto
    then have sd: "splitDigest d = Inr (''sha256'', h)" by (simp add: sha256_of_Some)
    have a: "IsAbs (Root c)" using assms(1) by (simp add: cache_ok_def)
    from assms(2) True have "Has c d w = (Inr True, w')" by simp
    then obtain p x where "BlobPath c d = Inr p" "node_at (files w) (resolve w p) = Some (File x)"
      using Has_true by blast
    with BlobPath_sha256 [OF sd] blob_paths [OF a sd] have "node_at (files w) (blob_cell c h) = Some (File x)"
      by (simp add: resolve_abs)
    with hexpart_not_tmp [OF sd] have "store_of c w h = Some x" by (simp add: store_of_Some)
    with True sh s show ?thesis by (auto intro: store_step.hit)
  next
    case False
    then have "b \<Longrightarrow> sha256_of d = None" by simp
    with s show ?thesis by (cases b) (simp_all add: store_step.foreign store_step.miss)
  qed
qed

lemma put_refines:
  assumes "cache_ok c w" "PutStream c d r w = (x, w')"
  shows "store_step c (store_of c w) (SPut d r) (case x of Inr p \<Rightarrow> Stored p | Inl e \<Rightarrow> Refused) (store_of c w')"
proof (cases "sha256_of d")
  case None
  then have "\<nexists>h. splitDigest d = Inr (''sha256'', h)" using sha256_of_Some [of d] by simp
  with PutStream_other_algo [of d c r w] assms(2) obtain e where "x = Inl e" "same_blobs c w w'" by auto
  then show ?thesis by (simp add: same_blobs_store store_step.refuses)
next
  case (Some h)
  then have sd: "splitDigest d = Inr (''sha256'', h)" by (simp add: sha256_of_Some)
  have a: "IsAbs (Root c)" using assms(1) by (simp add: cache_ok_def)
  note bp = BlobPath_sha256 [OF sd, of c] and nt = hexpart_not_tmp [OF sd]
  from PutStream_effect [OF a sd assms(2)] show ?thesis
  proof
    assume "same_blobs c w w' \<and> (\<forall>p. x = Inr p \<longrightarrow> p = JoinPath [Root c, ''blobs'', ''sha256'', h] \<and>
            (\<exists>b. node_at (files w') (blob_cell c h) = Some (File b)))"
    note sb = this
    then have s: "store_of c w' = store_of c w" by (simp add: same_blobs_store)
    show ?thesis
    proof (cases x)
      case (Inr p)
      with sb s nt have "store_of c w h \<noteq> None" by (metis option.distinct(1) store_of_Some)
      with Inr sb s Some bp show ?thesis by (auto intro: store_step.present)
    qed (simp add: s store_step.refuses)
  next
    assume new: "x = Inr (JoinPath [Root c, ''blobs'', ''sha256'', h]) \<and> sha256_hex (fst r) = h \<and> snd r = None \<and>
          node_at (files w') (blob_cell c h) = Some (File (fst r)) \<and>
          (\<forall>h' b. \<not> prefix ''.tmp-'' h' \<longrightarrow> h' \<noteq> h \<longrightarrow>
             (node_at (files w') (blob_cell c h') = Some (File b) \<longleftrightarrow>
              node_at (files w) (blob_cell c h') = Some (File b)))"
    then have "store_of c w' = (store_of c w)(h \<mapsto> fst r)"
      using nt by (intro store_of_eqI) (auto simp: store_of_Some, auto simp: store_of_def)
    with new Some bp show ?thesis by (cases r) (auto intro: store_step.stores)
  qed
qed

lemma verify_refines:
  assumes "cache_ok c w" "Verify c d w = (x, w')"
  shows "store_step c (store_of c w) (SVerify d) (case x of Inr u \<Rightarrow> Verified | Inl e \<Rightarrow> Refused) (store_of c w')"
proof -
  have v: "x = Inr () \<Longrightarrow> \<exists>p a h b. BlobPath c d = Inr p \<and> splitDigest d = Inr (a, h) \<and>
      node_at (files w) (resolve w p) = Some (File b) \<and> sha256_hex b = h"
    and f: "files w' = files w"
    using assms(2)
    by (auto simp: Verify_def io_simps Let_def split: prod.splits sum.splits if_splits
        dest: os_read_ok os_read_files)
  have s: "store_of c w' = store_of c w" using f by (simp add: store_of_def fun_eq_iff)
  show ?thesis
  proof (cases "(\<exists>u. x = Inr u) \<and> sha256_of d \<noteq> None")
    case True
    then obtain h where sh: "sha256_of d = Some h" and x: "x = Inr ()" by auto
    then have sd: "splitDigest d = Inr (''sha256'', h)" by (simp add: sha256_of_Some)
    have a: "IsAbs (Root c)" using assms(1) by (simp add: cache_ok_def)
    from v [OF x] sd obtain p b where "BlobPath c d = Inr p" "node_at (files w) (resolve w p) = Some (File b)"
      "sha256_hex b = h" by auto
    with BlobPath_sha256 [OF sd] blob_paths [OF a sd] hexpart_not_tmp [OF sd] have "store_of c w h = Some b"
      by (simp add: store_of_Some resolve_abs)
    with \<open>sha256_hex b = h\<close> sh x s show ?thesis by (auto intro: store_step.sound)
  next
    case False
    then have "x = Inr () \<Longrightarrow> sha256_of d = None" by simp
    with s show ?thesis by (cases x) (simp_all add: store_step.foreign_sound store_step.unreadable)
  qed
qed

lemma cache_exec_refines:
  assumes "cache_ok c w" "cache_exec c op w = (a, w')"
  shows "store_step c (store_of c w) op a (store_of c w') \<and> cache_ok c w'"
proof (cases op)
  case (SHas d)
  obtain b where "Has c d w = (Inr b, w')" "a = Found b"
    using assms(2) SHas Has_total [of c d w] by auto
  with has_refines [OF assms(1)] bc.has_inv [OF assms(1)] SHas show ?thesis by auto
next
  case (SPut d r)
  obtain x where x: "PutStream c d r w = (x, w')" "a = (case x of Inr p \<Rightarrow> Stored p | Inl e \<Rightarrow> Refused)"
    using assms(2) SPut by (auto split: prod.splits sum.splits)
  with put_refines [OF assms(1) x(1)] bc.put_inv [OF assms(1) x(1)] SPut show ?thesis by simp
next
  case (SVerify d)
  obtain x where x: "Verify c d w = (x, w')" "a = (case x of Inr u \<Rightarrow> Verified | Inl e \<Rightarrow> Refused)"
    using assms(2) SVerify by (auto split: prod.splits sum.splits)
  have "files w' = files w" using x(1)
    by (auto simp: Verify_def io_simps Let_def split: prod.splits sum.splits if_splits dest: os_read_files)
  with verify_refines [OF assms(1) x(1)] x cache_ok_files [OF assms(1)] SVerify show ?thesis by simp
qed

text \<open>C2. The cache refines a content-addressed map: whatever sequence of operations runs on a
  sound cache, with any readers and faults, its answers are a run of the abstract store from
  the blobs there were to the blobs there are, which all hash to their names; no blob is lost.\<close>

theorem cache_refines_store:
  assumes "cache_ok c w" "cache_run c ops w = (as, w')"
  shows "store_run c (store_of c w) ops as (store_of c w') \<and>
    content_addressed (store_of c w') \<and> dom (store_of c w) \<subseteq> dom (store_of c w')"
proof -
  have "store_run c (store_of c w) ops as (store_of c w')"
    using assms
  proof (induction c ops w arbitrary: as rule: cache_run.induct)
    case (2 c op ops w)
    from "2.prems"(2) obtain a w1 bs where s: "cache_exec c op w = (a, w1)"
      and r: "cache_run c ops w1 = (bs, w')" and e: "as = a # bs" by (auto split: prod.splits)
    from cache_exec_refines [OF "2.prems"(1) s]
    have st: "store_step c (store_of c w) op a (store_of c w1)" and ok: "cache_ok c w1" by simp_all
    from "2.IH" [OF s [symmetric] ok r] have "store_run c (store_of c w1) ops bs (store_of c w')" by simp
    with st show ?case unfolding e by (rule store_run.run_step)
  qed (auto intro: store_run.run_nil)
  with store_run_keeps [OF this cache_ok_store [OF assms(1)]] show ?thesis by blast
qed

theorem cache_refines_store_witness:
  "\<exists>as w'. cache_run cache0 [SHas (digest_of ''hi''), SPut (digest_of ''hi'') (''hi'', None), SHas (digest_of ''hi'')] host0 = (as, w') \<and>
     store_run cache0 (store_of cache0 host0)
       [SHas (digest_of ''hi''), SPut (digest_of ''hi'') (''hi'', None), SHas (digest_of ''hi'')] as (store_of cache0 w')"
proof -
  let ?ops = "[SHas (digest_of ''hi''), SPut (digest_of ''hi'') (''hi'', None), SHas (digest_of ''hi'')]"
  obtain as w' where run: "cache_run cache0 ?ops host0 = (as, w')" by (cases "cache_run cache0 ?ops host0")
  from cache_refines_store [OF cache0_ok run] run show ?thesis by blast
qed

end
