(* ===== verification/Spec2Isabelle.thy ===== *)
theory Spec2Isabelle
  imports Dvm_Whole App_Launch App_Lock Logging VZ_Proxy Cache_Spec
begin

text \<open>
  The verification library of \<open>dvm\<close> (repository \<open>spurin/dvm\<close>, Go), a launcher that boots a
  virtual machine from components pulled as OCI artifacts and forwards guest ports to the host.

  \<^bold>\<open>The program.\<close> \<open>main\<close> (\<open>cmd/dvm/main.go\<close>) parses a command and flags and builds an
  \<open>App\<close> from flags, a YAML configuration and built-in defaults (\<open>internal/app\<close>). \<open>Start\<close>
  picks an engine. Both engines resolve a kernel, an initrd and a root image
  (\<open>internal/component\<close>) to local paths or, through a puller (\<open>internal/oci\<close>), to blobs of a
  content-addressed cache (\<open>internal/cache\<close>); take the lock of the instance's state directory
  (\<open>internal/vm/state.go\<close>); and run a VM: QEMU, whose binary may first be downloaded
  (\<open>internal/qemu/download.go\<close>), with a command line built from a specification
  (\<open>internal/qemu/command.go\<close>), supervised by \<open>internal/vm/lifecycle.go\<close> over a QMP monitor
  (\<open>internal/qemu/qmp.go\<close>) and a serial console; or Apple's framework (\<open>internal/vz\<close>).

  \<^bold>\<open>How it is modelled.\<close> A Go function that can fail returns \<open>error + 'a\<close>; one with effects is
  a \<open>('s, 'a) prog\<close>, a function from the state to a result and the next state. Early returns
  are \<open>bind_io\<close>, \<open>defer\<close> is \<open>defer_io\<close>, an ignored error is \<open>catch_io\<close>, \<open>%w\<close> is \<open>Wrapf\<close>.
  Error messages keep their format and arguments as data. The state of the lower layers is
  the host (record \<open>os\<close>, theory \<open>Go_OS\<close>): a tree of files, the working directory, the live
  processes, and a tape of faults from which every system call draws: a theorem for all tapes
  is a theorem for every pattern of failing calls. The VM layers add the trace of what the
  launcher did to its VM (\<open>vmrun\<close>). Go's \<open>int\<close> is \<open>int\<close>, with \<open>wrap64\<close> where the arithmetic
  can leave the range; bytes of MAC addresses and framework sizes are words. Code outside the
  repository is a parameter: the registry (\<open>registry\<close>), HTTP answers (\<open>http\<close>), the YAML
  decoder, gzip and tar (\<open>untar\<close>), the FAT library (\<open>diskfs\<close>), \<open>qemu-img\<close>
  (\<open>command\<close>), Virtualization.framework (\<open>framework\<close>), and the environment of a VM (\<open>env\<close>:
  which starts succeed, when sockets accept, what ends the wait, how the guest reacts).

  \<^bold>\<open>Theories, bottom up.\<close>
  \<^item> \<open>Dvm_Prelude\<close>: errors, programs with state, \<open>keeps\<close> (a predicate every run preserves,
    composed by \<open>keep_intros\<close>), \<open>wrap64\<close>. \<open>Go_Strings\<close>, \<open>Go_Path\<close>, \<open>Go_Sha256\<close>, \<open>Go_OS\<close>,
    \<open>Go_Net\<close>, \<open>Go_Flag\<close>: what the program uses of Go's \<open>strings\<close>, \<open>strconv\<close>, \<open>path/filepath\<close>,
    \<open>crypto/sha256\<close>, \<open>os\<close>, \<open>io\<close>, \<open>net\<close> and \<open>flag\<close>, with frame and round-trip lemmas.
  \<^item> \<open>Blob_Cache\<close> (\<open>cache.go\<close>): the invariant \<open>cache_ok\<close> (a committed blob hashes to its name)
    and the contract of a blob store as the locale \<open>blob_store\<close>, interpreted on the cache.
    \<open>Cache_Spec\<close>: the cache refines an abstract content-addressed map (\<open>store_step\<close>), operation
    by operation and for whole runs.
  \<^item> \<open>Platform\<close> (\<open>dirs.go\<close>), \<open>Component_Ref\<close> (\<open>ref.go\<close>, \<open>provider.go\<close>; locale \<open>fetcher\<close>),
    \<open>OCI_Puller\<close> (\<open>manifest.go\<close>, \<open>pull.go\<close>): selection of layers and platforms, integrity of a
    fetch through the blob store's contract; the puller interprets \<open>fetcher\<close>.
  \<^item> \<open>Qemu_Command\<close> (\<open>command.go\<close>, \<open>network.go\<close>, \<open>accel*.go\<close>, \<open>control.go\<close>; locale
    \<open>net_backend\<close>), \<open>Qemu_Monitor\<close> (\<open>qmp.go\<close>), \<open>Qemu_Download\<close> (\<open>download.go\<close>).
  \<^item> \<open>VM_State\<close> and \<open>VM_Lock\<close> (\<open>state.go\<close>, \<open>control_*.go\<close>, \<open>proc_unix.go\<close>): the lock as one
    call, as a state machine of processes (mutual exclusion by rule induction) and as single
    system calls, which refine the call when run alone and race when interleaved.
  \<^item> \<open>VM_Disk\<close> (\<open>overlay.go\<close>), \<open>VM_Seed\<close> (\<open>seed.go\<close>), \<open>VM_Ready\<close> (\<open>ports.go\<close>,
    \<open>readiness.go\<close>, \<open>console*.go\<close>), \<open>VM_Lifecycle\<close> (\<open>lifecycle.go\<close>, \<open>accelhint_*.go\<close>, \<open>terminate\<close>
    of \<open>proc_*.go\<close>): accelerator fallback, no child left behind, escalation of the shutdown,
    ephemeral overlays. What differs between operating systems (control channels, liveness and
    termination of processes, console mode, hints) is chosen by the host's \<open>goos\<close>.
  \<^item> \<open>VM_Protocol\<close>: the automaton over the events of a launch that both engines implement, and
    \<open>traced\<close>, a logic of the phases a program goes through.
  \<^item> \<open>VZ_Engine\<close> (\<open>vz_darwin.go\<close>, \<open>vz.go\<close>, \<open>vz_stub.go\<close>, the parsers of \<open>forward_darwin.go\<close>),
    \<open>VZ_Network\<close> (\<open>manageNetwork\<close>), \<open>VZ_Proxy\<close> (\<open>proxyPort\<close>, and the copying of \<open>pipe\<close> as a step
    relation in which the goroutines interleave).
  \<^item> \<open>App_Config\<close> (\<open>config.go\<close>, \<open>mergeFlags\<close>), \<open>App_Run\<close> (\<open>app.go\<close>), \<open>Dvm_Main\<close>
    (\<open>main.go\<close>, \<open>version.go\<close>), \<open>Logging\<close> (\<open>logging.go\<close>).
  \<^item> \<open>App_Launch\<close>: what \<open>New\<close> builds is well formed, and so is every launch of it.
    \<open>App_Lock\<close>: the lock file is the launcher's from its acquisition to its release.
    \<open>Dvm_Whole\<close>: what holds of \<open>main\<close> as a whole, its trace against the automaton included.

  \<^bold>\<open>Claims\<close> are numbered C1 to C40 in the text before each theorem. Integrity: C1-C6, C29-C32.
  The lock: C7-C12. Processes and the VM's life: C13-C17, C23. Exposure of ports and
  configuration: C18-C20. Command lines: C21, C22, C24-C26. Protocols and waiting: C27, C28,
  C33, C34, C37. The port proxies: C38. Seeds, addresses, cleaning, disks: C35, C36, C39, C40.
  Refinements of an abstract specification are C2 (the cache), C9 (the lock) and C14 (the
  life of a VM); C19 is the typing of a launch.
  A theorem with hypotheses is followed by its witness, which applies it to a concrete input.

  \<^bold>\<open>Bounds and fuel.\<close> Loops that wait take fuel and return \<open>None\<close> when it runs out; the
  theorems on them say that the deadline's fuel is enough. \<open>dial_fuel\<close> is 202: ten seconds in
  steps of 50 ms, and two more looks. \<open>readiness_fuel\<close> is the timeout in steps of 500 ms and
  two more. The lock protocol takes at most seven system-call steps for its two attempts.
  All other loops recurse on data.

  \<^bold>\<open>Not modelled.\<close> The log calls inside the components (only the logger itself and what
  \<open>Run\<close> says of the accelerator), file modes,
  symbolic links, and other writers of the tree while a call runs, except for the lock's
  races. A launcher that is itself killed, or signalled before \<open>supervise\<close> listens.
  \<open>os.RemoveAll\<close> either removes a tree or fails. Strings are bytes; \<open>ToLower\<close> and \<open>EqualFold\<close>
  are those of ASCII; paths are POSIX paths, also for the Windows branches. Live connections of
  a proxy when the process exits. The texts the \<open>flag\<close> package prints, tests and packaging.
\<close>

end
